theory Spec2Isabelle
  imports Complex_Main "HOL-Library.Finite_Map" "HOL-Library.AList"
begin

section \<open>Identifiers, device model and netlist\<close>

text \<open>
  The architecture's identifier types are declared outside the sources at hand.  An
  identifier is an opaque index or the default-constructed (invalid) identifier, which the
  code writes \<^verbatim>\<open>WireId()\<close>, \<^verbatim>\<open>PipId()\<close>, \<^verbatim>\<open>BelId()\<close>; the invalid one is \<open>None\<close>.
  Nets are addressed by their dense index \<^verbatim>\<open>udata\<close>, an \<^verbatim>\<open>int\<close> in the code (the router
  stores \<^verbatim>\<open>-1\<close> in \<^verbatim>\<open>reserved_net\<close> for "no net").  A pointer to a cell or to a net that may
  be \<^verbatim>\<open>nullptr\<close> is an \<open>option\<close>.

  In the router, values of type \<^verbatim>\<open>float\<close> and \<^verbatim>\<open>double\<close> are modelled by \<open>real\<close>: rounding is
  not modelled there, so every statement below about the router's costs and weights is a
  statement about the exact arithmetic the code's expressions denote.  In the placer, whose
  results are converted to \<^verbatim>\<open>int\<close> and compared with a random draw, the rounding and the
  values outside the reals are modelled (section "Floating-point values").  Values of type
  \<^verbatim>\<open>int\<close> are \<open>int\<close>; where the code's \<^verbatim>\<open>int\<close> arithmetic can leave the range of the type the
  wrap-around is written out with \<open>wrap32\<close>.
\<close>

type_synonym WireId = "nat option"
type_synonym PipId = "nat option"
type_synonym BelId = "nat option"
type_synonym CellId = nat
type_synonym delay_t = int

record Loc =
  loc_x :: int
  loc_y :: int
  loc_z :: int

record ArcBounds =
  bb_x0 :: int
  bb_y0 :: int
  bb_x1 :: int
  bb_y1 :: int

text \<open>
  Modelled from the spec: the binding strength enumeration is declared outside the sources
  at hand; the specification names it as "a strength enum (WEAK < STRONG < USER)".
\<close>

datatype PlaceStrength = STRENGTH_WEAK | STRENGTH_STRONG | STRENGTH_USER

fun strength_rank :: "PlaceStrength \<Rightarrow> nat" where
  "strength_rank STRENGTH_WEAK = 0"
| "strength_rank STRENGTH_STRONG = 1"
| "strength_rank STRENGTH_USER = 2"

record PipMap =
  pm_pip :: PipId
  pm_strength :: PlaceStrength

record PortRef =
  pr_cell :: "CellId option"
  pr_bel :: BelId

text \<open>
  The part of \<^verbatim>\<open>NetInfo\<close> the router reads.  \<open>net_wires\<close> is the net's own table
  \<^verbatim>\<open>net->wires\<close> of the wires bound to it in the device's binding table, a hash table that
  the code also walks; it is kept as an association list.
\<close>

record NetInfo =
  udata :: int
  driver :: PortRef
  users :: "PortRef list"
  net_wires :: "(WireId \<times> PipMap) list"
  is_global :: bool

text \<open>
  The device model (\<^verbatim>\<open>Context\<close>) is an external collaborator; the queries the router makes
  are the fields of a record of functions.  A bound net is identified by its \<^verbatim>\<open>udata\<close>.
  \<open>rng_seq\<close> is the sequence of values the device's deterministic generator returns.
\<close>

record Context =
  getPipsUphill :: "WireId \<Rightarrow> PipId list"
  getPipsDownhill :: "WireId \<Rightarrow> PipId list"
  getPipSrcWire :: "PipId \<Rightarrow> WireId"
  getPipDstWire :: "PipId \<Rightarrow> WireId"
  checkPipAvail :: "PipId \<Rightarrow> bool"
  getBoundPipNet :: "PipId \<Rightarrow> int option"
  getPipLocation :: "PipId \<Rightarrow> Loc"
  getPipDelay :: "PipId \<Rightarrow> delay_t"
  getWireDelay :: "WireId \<Rightarrow> delay_t"
  getDelayEpsilon :: delay_t
  getDelayNS :: "delay_t \<Rightarrow> real"
  estimateDelay :: "WireId \<Rightarrow> WireId \<Rightarrow> delay_t"
  getNetinfoSourceWire :: "NetInfo \<Rightarrow> WireId"
  getNetinfoSinkWire :: "NetInfo \<Rightarrow> PortRef \<Rightarrow> WireId"
  getRouteBoundingBox :: "WireId \<Rightarrow> WireId \<Rightarrow> ArcBounds"
  getBelLocation :: "BelId \<Rightarrow> Loc"
  rng_seq :: "nat \<Rightarrow> int"

datatype error =
    NoSourceWire
  | NoSinkWire
  | FailedToRoute
  | AssertionFailure
  | OutOfRange

section \<open>Machine integers\<close>

text \<open>
  The range of \<^verbatim>\<open>int\<close> and the 32-bit two's-complement wrap-around, written out where the
  code's \<^verbatim>\<open>int\<close> arithmetic can leave the range.
\<close>

definition INT_MAX :: int where
  "INT_MAX = 2147483647"

definition INT_MIN :: int where
  "INT_MIN = - 2147483648"

definition wrap32 :: "int \<Rightarrow> int" where
  "wrap32 v = (v + 2147483648) mod 4294967296 - 2147483648"

section \<open>Floating-point values\<close>

text \<open>
  The placer computes in \<^verbatim>\<open>float\<close> and \<^verbatim>\<open>double\<close> and converts the results to \<^verbatim>\<open>int\<close>, so its
  arithmetic is modelled with the rounding of IEEE 754 and with the values that lie outside
  the reals.  A finite value is the real number it denotes; \<open>fp_round p\<close> rounds a real to the
  nearest number with \<open>p\<close> significant bits, ties to the even one (\<open>p = 53\<close> for \<^verbatim>\<open>double\<close>,
  \<open>p = 24\<close> for \<^verbatim>\<open>float\<close>).  The exponent range is not limited (no overflow to infinity, no
  subnormal numbers), and a zero has no sign: a division by zero behaves as a division by
  \<open>+0\<close>, which is what the divisors of the code below are when they are zero (an integer
  converted, a temperature that was never negative).
\<close>

datatype fp = Finite real | PosInf | NegInf | NaN

definition round_even :: "real \<Rightarrow> int" where
  "round_even x =
     (let f = \<lfloor>x\<rfloor>; d = x - real_of_int f
      in if d < 1 / 2 then f else if 1 / 2 < d then f + 1 else if even f then f else f + 1)"

definition fp_round :: "nat \<Rightarrow> real \<Rightarrow> real" where
  "fp_round p x =
     (if x = 0 then 0
      else (let e = \<lfloor>log 2 \<bar>x\<bar>\<rfloor> - int p + 1
            in real_of_int (round_even (x / 2 powi e)) * 2 powi e))"

definition to_double :: "real \<Rightarrow> real" where
  "to_double = fp_round 53"

definition to_float :: "real \<Rightarrow> real" where
  "to_float = fp_round 24"


definition fp_add :: "(real \<Rightarrow> real) \<Rightarrow> fp \<Rightarrow> fp \<Rightarrow> fp" where
  "fp_add r x y =
     (case x of
        NaN \<Rightarrow> NaN
      | Finite a \<Rightarrow> (case y of Finite b \<Rightarrow> Finite (r (a + b)) | PosInf \<Rightarrow> PosInf | NegInf \<Rightarrow> NegInf | NaN \<Rightarrow> NaN)
      | PosInf \<Rightarrow> (case y of Finite b \<Rightarrow> PosInf | PosInf \<Rightarrow> PosInf | NegInf \<Rightarrow> NaN | NaN \<Rightarrow> NaN)
      | NegInf \<Rightarrow> (case y of Finite b \<Rightarrow> NegInf | PosInf \<Rightarrow> NaN | NegInf \<Rightarrow> NegInf | NaN \<Rightarrow> NaN))"

definition fp_inf :: "bool \<Rightarrow> fp" where
  "fp_inf positive = (if positive then PosInf else NegInf)"

definition fp_mul :: "(real \<Rightarrow> real) \<Rightarrow> fp \<Rightarrow> fp \<Rightarrow> fp" where
  "fp_mul r x y =
     (case x of
        NaN \<Rightarrow> NaN
      | Finite a \<Rightarrow>
          (case y of
             Finite b \<Rightarrow> Finite (r (a * b))
           | PosInf \<Rightarrow> (if a = 0 then NaN else fp_inf (0 < a))
           | NegInf \<Rightarrow> (if a = 0 then NaN else fp_inf (a < 0))
           | NaN \<Rightarrow> NaN)
      | PosInf \<Rightarrow>
          (case y of
             Finite b \<Rightarrow> (if b = 0 then NaN else fp_inf (0 < b))
           | PosInf \<Rightarrow> PosInf | NegInf \<Rightarrow> NegInf | NaN \<Rightarrow> NaN)
      | NegInf \<Rightarrow>
          (case y of
             Finite b \<Rightarrow> (if b = 0 then NaN else fp_inf (b < 0))
           | PosInf \<Rightarrow> NegInf | NegInf \<Rightarrow> PosInf | NaN \<Rightarrow> NaN))"

definition fp_div :: "(real \<Rightarrow> real) \<Rightarrow> fp \<Rightarrow> fp \<Rightarrow> fp" where
  "fp_div r x y =
     (case x of
        NaN \<Rightarrow> NaN
      | Finite a \<Rightarrow>
          (case y of
             Finite b \<Rightarrow> (if b \<noteq> 0 then Finite (r (a / b))
                           else if a = 0 then NaN else fp_inf (0 < a))
           | PosInf \<Rightarrow> Finite 0 | NegInf \<Rightarrow> Finite 0 | NaN \<Rightarrow> NaN)
      | PosInf \<Rightarrow> (case y of Finite b \<Rightarrow> fp_inf (0 \<le> b) | PosInf \<Rightarrow> NaN | NegInf \<Rightarrow> NaN | NaN \<Rightarrow> NaN)
      | NegInf \<Rightarrow> (case y of Finite b \<Rightarrow> fp_inf (b < 0) | PosInf \<Rightarrow> NaN | NegInf \<Rightarrow> NaN | NaN \<Rightarrow> NaN))"

text \<open>The comparisons \<^verbatim>\<open><\<close> and \<^verbatim>\<open><=\<close>; a comparison with a NaN is false.\<close>

definition fp_less :: "fp \<Rightarrow> fp \<Rightarrow> bool" where
  "fp_less x y =
     (case x of
        NaN \<Rightarrow> False
      | Finite a \<Rightarrow> (case y of Finite b \<Rightarrow> a < b | PosInf \<Rightarrow> True | NegInf \<Rightarrow> False | NaN \<Rightarrow> False)
      | PosInf \<Rightarrow> False
      | NegInf \<Rightarrow> (case y of Finite b \<Rightarrow> True | PosInf \<Rightarrow> True | NegInf \<Rightarrow> False | NaN \<Rightarrow> False))"



section \<open>Router state\<close>

record PerArcData =
  arc_wires :: "(WireId \<times> PipId) list"
  arc_bb :: ArcBounds

record PerNetData =
  arcs :: "PerArcData list"
  net_bb :: ArcBounds
  cx :: int
  cy :: int
  hpwl :: int

record PerWireData =
  bound_nets :: "(int, int \<times> PipId) fmap"
  hist_cong_cost :: real
  unavailable :: bool
  reserved_net :: int

record Router2 =
  nets :: "PerNetData list"
  wires :: "WireId \<rightharpoonup> PerWireData"
  curr_cong_weight :: real
  hist_cong_weight :: real
  total_wire_use :: int
  overused_wires :: int
  total_overuse :: int
  failed_nets :: "int set"

text \<open>\<^verbatim>\<open>bound_nets.size()\<close> and \<^verbatim>\<open>bound_nets.count(k)\<close>.\<close>

definition bn_size :: "(int, int \<times> PipId) fmap \<Rightarrow> int" where
  "bn_size m = int (card (fmdom' m))"

definition bn_count :: "(int, int \<times> PipId) fmap \<Rightarrow> int \<Rightarrow> bool" where
  "bn_count m k = (fmlookup m k \<noteq> None)"

text \<open>\<^verbatim>\<open>nets.at(i)\<close> and \<^verbatim>\<open>arcs.at(j)\<close>: an index out of range throws.\<close>

definition nets_at :: "Router2 \<Rightarrow> int \<Rightarrow> error + PerNetData" where
  "nets_at s i = (if 0 \<le> i \<and> nat i < length (nets s) then Inr (nets s ! nat i) else Inl OutOfRange)"

definition arcs_at :: "PerNetData \<Rightarrow> nat \<Rightarrow> error + PerArcData" where
  "arcs_at nd j = (if j < length (arcs nd) then Inr (arcs nd ! j) else Inl OutOfRange)"

text \<open>Writing through the reference \<^verbatim>\<open>nets.at(i).arcs.at(j)\<close>.\<close>

definition update_arc :: "int \<Rightarrow> nat \<Rightarrow> (PerArcData \<Rightarrow> PerArcData) \<Rightarrow> Router2 \<Rightarrow> error + Router2" where
  "update_arc i j f s =
     (case nets_at s i of
        Inl e \<Rightarrow> Inl e
      | Inr nd \<Rightarrow>
          (case arcs_at nd j of
             Inl e \<Rightarrow> Inl e
           | Inr ad \<Rightarrow> Inr (s\<lparr>nets := (nets s)[nat i := nd\<lparr>arcs := (arcs nd)[j := f ad]\<rparr>]\<rparr>)))"

section \<open>Binding helpers\<close>

text \<open>
  \<^verbatim>\<open>bound_nets[net->udata]\<close> default-constructs the entry \<open>(0, PipId())\<close> when the net has
  none.  A failed \<^verbatim>\<open>NPNR_ASSERT\<close> throws.
\<close>

definition bn_entry :: "(int, int \<times> PipId) fmap \<Rightarrow> int \<Rightarrow> int \<times> PipId" where
  "bn_entry m k = (case fmlookup m k of None \<Rightarrow> (0, None) | Some b \<Rightarrow> b)"

definition bind_pip_internal :: "NetInfo \<Rightarrow> nat \<Rightarrow> WireId \<Rightarrow> PipId \<Rightarrow> Router2 \<Rightarrow> error + Router2" where
  "bind_pip_internal net user w p s =
     (case wires s w of
        None \<Rightarrow> Inl OutOfRange
      | Some wd \<Rightarrow>
          (let b = bn_entry (bound_nets wd) (udata net);
               first = fst b + 1
           in if first = 1 then
                update_arc (udata net) user (\<lambda>ad. ad\<lparr>arc_wires := AList.update w p (arc_wires ad)\<rparr>)
                  (s\<lparr>wires := (wires s)(w \<mapsto> wd\<lparr>bound_nets := fmupd (udata net) (first, p) (bound_nets wd)\<rparr>)\<rparr>)
              else if snd b = p then
                update_arc (udata net) user (\<lambda>ad. ad\<lparr>arc_wires := AList.update w p (arc_wires ad)\<rparr>)
                  (s\<lparr>wires := (wires s)(w \<mapsto> wd\<lparr>bound_nets := fmupd (udata net) (first, snd b) (bound_nets wd)\<rparr>)\<rparr>)
              else Inl AssertionFailure))"

definition unbind_pip_internal :: "NetInfo \<Rightarrow> nat \<Rightarrow> WireId \<Rightarrow> bool \<Rightarrow> Router2 \<Rightarrow> error + Router2" where
  "unbind_pip_internal net user w dont_touch_arc s =
     (case wires s w of
        None \<Rightarrow> Inl OutOfRange
      | Some wd \<Rightarrow>
          (let b = bn_entry (bound_nets wd) (udata net);
               first = fst b - 1;
               bn = (if first = 0 then fmdrop (udata net) (bound_nets wd)
                     else fmupd (udata net) (first, snd b) (bound_nets wd));
               s1 = s\<lparr>wires := (wires s)(w \<mapsto> wd\<lparr>bound_nets := bn\<rparr>)\<rparr>
           in if \<not> dont_touch_arc then
                update_arc (udata net) user (\<lambda>ad. ad\<lparr>arc_wires := AList.delete w (arc_wires ad)\<rparr>) s1
              else Inr s1))"

text \<open>
  \<^verbatim>\<open>ripup_arc\<close> walks the arc's own wire table; the table is not changed during the walk
  (\<^verbatim>\<open>dont_touch_arc = true\<close>) and cleared afterwards.
\<close>

fun unbind_all :: "NetInfo \<Rightarrow> nat \<Rightarrow> WireId list \<Rightarrow> Router2 \<Rightarrow> error + Router2" where
  "unbind_all net user [] s = Inr s"
| "unbind_all net user (w # ws) s =
     (case unbind_pip_internal net user w True s of
        Inl e \<Rightarrow> Inl e
      | Inr s1 \<Rightarrow> unbind_all net user ws s1)"

definition ripup_arc :: "NetInfo \<Rightarrow> nat \<Rightarrow> Router2 \<Rightarrow> error + Router2" where
  "ripup_arc net user s =
     (case nets_at s (udata net) of
        Inl e \<Rightarrow> Inl e
      | Inr nd \<Rightarrow>
          (case arcs_at nd user of
             Inl e \<Rightarrow> Inl e
           | Inr ad \<Rightarrow>
               (case unbind_all net user (map fst (arc_wires ad)) s of
                  Inl e \<Rightarrow> Inl e
                | Inr s1 \<Rightarrow> update_arc (udata net) user (\<lambda>ad. ad\<lparr>arc_wires := []\<rparr>) s1)))"

section \<open>Cost functions\<close>

definition present_wire_cost :: "Router2 \<Rightarrow> PerWireData \<Rightarrow> int \<Rightarrow> real" where
  "present_wire_cost s w net_uid =
     (let other_sources = bn_size (bound_nets w);
          other_sources = (if bn_count (bound_nets w) net_uid then other_sources - 1 else other_sources)
      in if other_sources = 0 then 1 else 1 + real_of_int other_sources * curr_cong_weight s)"

definition base_cost :: "Context \<Rightarrow> WireId \<Rightarrow> PipId \<Rightarrow> real" where
  "base_cost ctx w p = getDelayNS ctx (getPipDelay ctx p + getWireDelay ctx w + getDelayEpsilon ctx)"

definition bias_cost :: "Context \<Rightarrow> NetInfo \<Rightarrow> PerNetData \<Rightarrow> WireId \<Rightarrow> PipId \<Rightarrow> real" where
  "bias_cost ctx net nd w p =
     (if p \<noteq> None then
        (let pl = getPipLocation ctx p
         in 0.5 * (base_cost ctx w p / real (length (users net))) *
            (real_of_int (\<bar>loc_x pl - cx nd\<bar> + \<bar>loc_y pl - cy nd\<bar>) / real_of_int (hpwl nd)))
      else 0)"

definition source_uses :: "PerWireData \<Rightarrow> int \<Rightarrow> int" where
  "source_uses wd net_uid =
     (case fmlookup (bound_nets wd) net_uid of None \<Rightarrow> 0 | Some b \<Rightarrow> fst b)"

definition score_wire_for_arc :: "Context \<Rightarrow> Router2 \<Rightarrow> NetInfo \<Rightarrow> nat \<Rightarrow> WireId \<Rightarrow> PipId \<Rightarrow> error + real" where
  "score_wire_for_arc ctx s net user w p =
     (case wires s w of
        None \<Rightarrow> Inl OutOfRange
      | Some wd \<Rightarrow>
          (case nets_at s (udata net) of
             Inl e \<Rightarrow> Inl e
           | Inr nd \<Rightarrow>
               (let present_cost = present_wire_cost s wd (udata net);
                    hist_cost = hist_cong_cost wd
                in Inr (base_cost ctx w p * hist_cost * present_cost / real_of_int (1 + source_uses wd (udata net))
                        + bias_cost ctx net nd w p))))"

definition get_togo_cost :: "Context \<Rightarrow> Router2 \<Rightarrow> NetInfo \<Rightarrow> nat \<Rightarrow> WireId \<Rightarrow> WireId \<Rightarrow> error + real" where
  "get_togo_cost ctx s net user w sink =
     (case wires s w of
        None \<Rightarrow> Inl OutOfRange
      | Some wd \<Rightarrow>
          (let ipin_cost = getDelayNS ctx (getWireDelay ctx sink + getDelayEpsilon ctx)
           in Inr (max 0 (getDelayNS ctx (estimateDelay ctx w sink) - ipin_cost)
                     / real_of_int (1 + source_uses wd (udata net)) + ipin_cost)))"

section \<open>Congestion update\<close>

text \<open>
  The loop of \<^verbatim>\<open>update_congestion\<close> runs over the entries of the hash table \<^verbatim>\<open>wires\<close> in
  an unspecified order; \<open>update_congestion\<close> takes the order of the walk as its first
  argument.  \<open>update_congestion_wire\<close> is the loop body for the entry with key \<open>w\<close>.
\<close>

definition update_congestion_wire :: "WireId \<Rightarrow> Router2 \<Rightarrow> Router2" where
  "update_congestion_wire w s =
     (case wires s w of
        None \<Rightarrow> s
      | Some wd \<Rightarrow>
          (let s1 = s\<lparr>total_wire_use := total_wire_use s + bn_size (bound_nets wd)\<rparr>;
               overuse = bn_size (bound_nets wd) - 1
           in if overuse > 0 then
                s1\<lparr>wires := (wires s1)(w \<mapsto> wd\<lparr>hist_cong_cost :=
                                  hist_cong_cost wd + real_of_int overuse * hist_cong_weight s1\<rparr>),
                   total_overuse := total_overuse s1 + overuse,
                   overused_wires := overused_wires s1 + 1,
                   failed_nets := failed_nets s1 \<union> fmdom' (bound_nets wd)\<rparr>
              else s1))"

definition update_congestion :: "WireId list \<Rightarrow> Router2 \<Rightarrow> Router2" where
  "update_congestion order s =
     fold update_congestion_wire order
       (s\<lparr>total_overuse := 0, overused_wires := 0, total_wire_use := 0, failed_nets := {}\<rparr>)"

text \<open>
  The reference-count invariant of the congestion map: every entry of every wire's
  \<^verbatim>\<open>bound_nets\<close> carries a count of at least one.
\<close>

definition refcount_inv :: "Router2 \<Rightarrow> bool" where
  "refcount_inv s = (\<forall>w wd n b. wires s w = Some wd \<longrightarrow> fmlookup (bound_nets wd) n = Some b \<longrightarrow> 1 \<le> fst b)"

text \<open>
  The arcs' own wire tables against the reference counts.  \<open>arc_uses s n w\<close> is the number of
  arcs of the net with index \<open>n\<close> whose table \<^verbatim>\<open>wires\<close> lists the wire \<open>w\<close>.  \<open>arcs_covered\<close>: a
  table lists a wire once (it is a map), and the net's count on a wire is at least the number
  of its arcs that list the wire.  \<^verbatim>\<open>ripup_arc\<close>, the only caller of \<^verbatim>\<open>unbind_pip_internal\<close>,
  unbinds the wires of one such table.
\<close>

definition arc_uses :: "Router2 \<Rightarrow> int \<Rightarrow> WireId \<Rightarrow> int" where
  "arc_uses s n w =
     (case nets_at s n of
        Inl e \<Rightarrow> 0
      | Inr nd \<Rightarrow> int (length (filter (\<lambda>ad. w \<in> fst ` set (arc_wires ad)) (arcs nd))))"

definition arcs_covered :: "Router2 \<Rightarrow> bool" where
  "arcs_covered s =
     ((\<forall>nd \<in> set (nets s). \<forall>ad \<in> set (arcs nd). distinct (map fst (arc_wires ad)))
      \<and> (\<forall>n w. 0 < arc_uses s n w \<longrightarrow>
             (\<exists>wd. wires s w = Some wd \<and> arc_uses s n w \<le> source_uses wd n)))"

text \<open>The effect of one round of \<^verbatim>\<open>update_congestion\<close> on a single wire entry, with history weight \<open>hw\<close>.\<close>

definition add_history :: "real \<Rightarrow> PerWireData \<Rightarrow> PerWireData" where
  "add_history hw wd =
     (if bn_size (bound_nets wd) > 1
      then wd\<lparr>hist_cong_cost := hist_cong_cost wd + real_of_int (bn_size (bound_nets wd) - 1) * hw\<rparr>
      else wd)"

section \<open>Placer: annealing schedule\<close>

text \<open>
  The variables of \<^verbatim>\<open>place()\<close> that the schedule at the end of a simulated-annealing iteration
  reads and writes.  \<^verbatim>\<open>temp\<close> is a \<^verbatim>\<open>float\<close>.  \<^verbatim>\<open>wirelen_t\<close> is declared outside the sources at
  hand; it is the type parameter \<open>'w\<close>, with its conversions to and from \<^verbatim>\<open>double\<close> taken as
  parameters.
\<close>

record 'w anneal_vars =
  temp :: real
  diameter :: int
  n_move :: int
  n_accept :: int
  max_x :: int
  max_y :: int
  curr_wirelen_cost :: 'w
  avg_wirelen :: 'w

text \<open>
  The conversion \<^verbatim>\<open>int(d)\<close> of a \<^verbatim>\<open>double\<close> truncates towards zero.  For a NaN, an infinity and
  a number whose truncation is not an \<^verbatim>\<open>int\<close>, C++ leaves the conversion undefined; the model
  gives \<^verbatim>\<open>INT_MIN\<close>, the result of the conversion instruction of x86.
\<close>

definition int_of_double :: "fp \<Rightarrow> int" where
  "int_of_double x =
     (case x of
        Finite d \<Rightarrow>
          (let t = (if 0 \<le> d then \<lfloor>d\<rfloor> else \<lceil>d\<rceil>)
           in if INT_MIN \<le> t \<and> t \<le> INT_MAX then t else INT_MIN)
      | PosInf \<Rightarrow> INT_MIN
      | NegInf \<Rightarrow> INT_MIN
      | NaN \<Rightarrow> INT_MIN)"

text \<open>
  The schedule.  \<^verbatim>\<open>double(n_accept) / double(n_move)\<close> is a NaN or an infinity when no move was
  counted.  Every operation on \<^verbatim>\<open>double\<close> is rounded; a floating literal is the \<^verbatim>\<open>double\<close> next
  to it; \<^verbatim>\<open>temp *= c\<close> multiplies in \<^verbatim>\<open>double\<close> and rounds the product to \<^verbatim>\<open>float\<close>.  The sum
  \<^verbatim>\<open>std::max(max_x, max_y) + 1\<close> is computed in \<^verbatim>\<open>int\<close>.
\<close>

definition anneal_schedule :: "('w \<Rightarrow> real) \<Rightarrow> (real \<Rightarrow> 'w) \<Rightarrow> 'w anneal_vars \<Rightarrow> 'w anneal_vars" where
  "anneal_schedule of_wirelen to_wirelen v =
     (let Raccept = fp_div to_double (Finite (real_of_int (n_accept v))) (Finite (real_of_int (n_move v)));
          M = wrap32 (max (max_x v) (max_y v) + 1)
      in if of_wirelen (curr_wirelen_cost v) < to_double (to_double 0.95 * of_wirelen (avg_wirelen v)) then
           v\<lparr>avg_wirelen := to_wirelen (to_double (to_double (to_double 0.8 * of_wirelen (avg_wirelen v))
                                                  + to_double (to_double 0.2 * of_wirelen (curr_wirelen_cost v))))\<rparr>
         else
           (let diam_next = fp_mul to_double (Finite (real_of_int (diameter v)))
                              (fp_add to_double (Finite (to_double (1 - to_double 0.44))) Raccept);
                v1 = v\<lparr>diameter := max 1 (min M (int_of_double (fp_add to_double diam_next (Finite 0.5))))\<rparr>
            in if fp_less (Finite (to_double 0.96)) Raccept then v1\<lparr>temp := to_float (to_double (temp v1 * 0.5))\<rparr>
               else if fp_less (Finite (to_double 0.8)) Raccept
               then v1\<lparr>temp := to_float (to_double (temp v1 * to_double 0.9))\<rparr>
               else if fp_less (Finite (to_double 0.15)) Raccept \<and> diameter v1 > 1
               then v1\<lparr>temp := to_float (to_double (temp v1 * to_double 0.95))\<rparr>
               else v1\<lparr>temp := to_float (to_double (temp v1 * to_double 0.8))\<rparr>))"

text \<open>The specification's \<open>clamp(lo..hi, x)\<close>, written from its words.\<close>

definition clamp_spec :: "int \<Rightarrow> int \<Rightarrow> int \<Rightarrow> int" where
  "clamp_spec lo hi x = (if x < lo then lo else if hi < x then hi else x)"

section \<open>Placer: position swap\<close>





record PlacerCosts =
  placer_temp :: real
  lambda :: real
  last_timing_cost :: real
  last_wirelen_cost :: real











section \<open>Arch commit: releasing a net's wires\<close>

text \<open>
  Modelled from the spec: \<^verbatim>\<open>unbindWire\<close> and \<^verbatim>\<open>getBoundWireNet\<close> belong to the device model
  ("Bindings: bindWire, unbindWire, bindPip, unbindPip with a strength enum";
  "getBoundWireNet") and are not part of the sources at hand.  The binding table maps a
  wire and a pip to the net bound to it (by \<^verbatim>\<open>udata\<close>); every net keeps the table
  \<^verbatim>\<open>net->wires\<close> of its own bound wires with the driving pip and the strength.
  \<open>unbindWire\<close> takes the wire out of both and frees the pip that drove it; on a wire that
  is not bound it changes nothing.
\<close>

record ArchBindings =
  wire_to_net :: "WireId \<Rightarrow> int option"
  pip_to_net :: "PipId \<Rightarrow> int option"
  nets_by_udata :: "NetInfo list"

definition unbindWire :: "WireId \<Rightarrow> ArchBindings \<Rightarrow> ArchBindings" where
  "unbindWire w ab =
     (case wire_to_net ab w of
        None \<Rightarrow> ab
      | Some n \<Rightarrow>
          (if 0 \<le> n \<and> nat n < length (nets_by_udata ab) then
             (let ni = nets_by_udata ab ! nat n
              in ab\<lparr>wire_to_net := (wire_to_net ab)(w := None),
                    pip_to_net := (case map_of (net_wires ni) w of
                                     None \<Rightarrow> pip_to_net ab
                                   | Some pm \<Rightarrow> (if pm_pip pm \<noteq> None
                                                then (pip_to_net ab)(pm_pip pm := None)
                                                else pip_to_net ab)),
                    nets_by_udata := (nets_by_udata ab)[nat n := ni\<lparr>net_wires := AList.delete w (net_wires ni)\<rparr>]\<rparr>)
           else ab\<lparr>wire_to_net := (wire_to_net ab)(w := None)\<rparr>))"

text \<open>
  The first half of the loop body of \<^verbatim>\<open>bind_and_check_all\<close> for the net with index \<open>i\<close>:
  collect the net's wires of strength at most \<^verbatim>\<open>STRENGTH_STRONG\<close>, then unbind each.  With
  \<^verbatim>\<open>ARCH_ECP5\<close> defined, a global net is skipped.
\<close>

definition collect_net_wires :: "NetInfo \<Rightarrow> WireId list" where
  "collect_net_wires net =
     map fst (filter (\<lambda>w. strength_rank (pm_strength (snd w)) \<le> strength_rank STRENGTH_STRONG) (net_wires net))"

definition ripup_net_wires :: "bool \<Rightarrow> nat \<Rightarrow> ArchBindings \<Rightarrow> ArchBindings" where
  "ripup_net_wires arch_ecp5 i ab =
     (let net = nets_by_udata ab ! i
      in if arch_ecp5 \<and> is_global net then ab
         else fold unbindWire (collect_net_wires net) ab)"

text \<open>
  The binding table and the net with index \<open>i\<close> agree: the net's table has one entry per
  wire, and every wire in it is bound to this net in the device's table.
\<close>

definition net_bindings_agree :: "nat \<Rightarrow> ArchBindings \<Rightarrow> bool" where
  "net_bindings_agree i ab =
     (i < length (nets_by_udata ab)
      \<and> distinct (map fst (net_wires (nets_by_udata ab ! i)))
      \<and> (\<forall>w \<in> set (map fst (net_wires (nets_by_udata ab ! i))). wire_to_net ab w = Some (int i)))"

section \<open>Router set-up: per-net data\<close>

text \<open>
  \<^verbatim>\<open>setup_nets\<close> starts every bounding box at the sentinels \<^verbatim>\<open>INT_MAX\<close> and \<^verbatim>\<open>INT_MIN\<close> and
  computes on them, so its \<^verbatim>\<open>int\<close> arithmetic is modelled with 32-bit two's-complement
  wrap-around; \<^verbatim>\<open>/\<close> on \<^verbatim>\<open>int\<close> truncates towards zero.
\<close>

definition abs32 :: "int \<Rightarrow> int" where
  "abs32 v = wrap32 \<bar>v\<bar>"

definition cpp_div :: "int \<Rightarrow> int \<Rightarrow> int" where
  "cpp_div a b = (if (a < 0) = (b < 0) then \<bar>a\<bar> div \<bar>b\<bar> else - (\<bar>a\<bar> div \<bar>b\<bar>))"

text \<open>
  The source and sink wire of an arc as \<^verbatim>\<open>setup_nets\<close> takes them: for an undriven net the
  source wire is the sink wire.
\<close>

definition arc_src_wire :: "Context \<Rightarrow> NetInfo \<Rightarrow> PortRef \<Rightarrow> WireId" where
  "arc_src_wire ctx ni usr =
     (if pr_cell (driver ni) = None then getNetinfoSinkWire ctx ni usr else getNetinfoSourceWire ctx ni)"

text \<open>
  The body of the loop over the users: the arc's bounding box, and the net's data with the
  box widened and the user's location added to the centroid sums.
\<close>

definition setup_user :: "Context \<Rightarrow> NetInfo \<Rightarrow> PortRef \<Rightarrow> PerNetData \<Rightarrow> error + PerNetData" where
  "setup_user ctx ni usr nd =
     (let src_wire = arc_src_wire ctx ni usr;
          dst_wire = getNetinfoSinkWire ctx ni usr
      in if src_wire = None then Inl NoSourceWire
         else if dst_wire = None then Inl NoSinkWire
         else
           (let abb = getRouteBoundingBox ctx src_wire dst_wire;
                usr_loc = getBelLocation ctx (pr_bel usr)
            in Inr (nd\<lparr>arcs := arcs nd @ [\<lparr>arc_wires = [], arc_bb = abb\<rparr>],
                       net_bb := \<lparr>bb_x0 = min (bb_x0 (net_bb nd)) (bb_x0 abb),
                                  bb_y0 = min (bb_y0 (net_bb nd)) (bb_y0 abb),
                                  bb_x1 = max (bb_x1 (net_bb nd)) (bb_x1 abb),
                                  bb_y1 = max (bb_y1 (net_bb nd)) (bb_y1 abb)\<rparr>,
                       cx := wrap32 (cx nd + loc_x usr_loc),
                       cy := wrap32 (cy nd + loc_y usr_loc)\<rparr>)))"

fun setup_users :: "Context \<Rightarrow> NetInfo \<Rightarrow> PortRef list \<Rightarrow> PerNetData \<Rightarrow> error + PerNetData" where
  "setup_users ctx ni [] nd = Inr nd"
| "setup_users ctx ni (usr # us) nd =
     (case setup_user ctx ni usr nd of
        Inl e \<Rightarrow> Inl e
      | Inr nd1 \<Rightarrow> setup_users ctx ni us nd1)"

text \<open>
  The body of the loop over the nets.  The code sizes \<^verbatim>\<open>arcs\<close> first and fills entry \<open>j\<close> in
  round \<open>j\<close>; here entry \<open>j\<close> is appended in round \<open>j\<close>, which gives the same vector once the
  loop over the users has run through.
\<close>

definition setup_net :: "Context \<Rightarrow> NetInfo \<Rightarrow> error + PerNetData" where
  "setup_net ctx ni =
     (let nd0 = \<lparr>arcs = [],
                 net_bb = \<lparr>bb_x0 = INT_MAX, bb_y0 = INT_MAX, bb_x1 = INT_MIN, bb_y1 = INT_MIN\<rparr>,
                 cx = 0, cy = 0, hpwl = 0\<rparr>;
          nd1 = (if pr_cell (driver ni) \<noteq> None then
                   (let drv_loc = getBelLocation ctx (pr_bel (driver ni))
                    in nd0\<lparr>cx := wrap32 (cx nd0 + loc_x drv_loc), cy := wrap32 (cy nd0 + loc_y drv_loc)\<rparr>)
                 else nd0)
      in case setup_users ctx ni (users ni) nd1 of
           Inl e \<Rightarrow> Inl e
         | Inr nd2 \<Rightarrow>
             Inr (nd2\<lparr>hpwl := max (wrap32 (abs32 (wrap32 (bb_y1 (net_bb nd2) - bb_y0 (net_bb nd2)))
                                         + abs32 (wrap32 (bb_x1 (net_bb nd2) - bb_x0 (net_bb nd2))))) 1,
                      cx := cpp_div (cx nd2) (int (length (users ni) + 1)),
                      cy := cpp_div (cy nd2) (int (length (users ni) + 1))\<rparr>))"

text \<open>
  \<^verbatim>\<open>setup_nets\<close> over the sorted netlist: net number \<open>i\<close> gets \<^verbatim>\<open>udata = i\<close>.  The result is the
  vector \<^verbatim>\<open>nets\<close> and the vector \<^verbatim>\<open>nets_by_udata\<close>.
\<close>

fun setup_nets_from :: "Context \<Rightarrow> nat \<Rightarrow> NetInfo list \<Rightarrow> error + (PerNetData list \<times> NetInfo list)" where
  "setup_nets_from ctx i [] = Inr ([], [])"
| "setup_nets_from ctx i (ni # rest) =
     (case setup_net ctx (ni\<lparr>udata := int i\<rparr>) of
        Inl e \<Rightarrow> Inl e
      | Inr nd \<Rightarrow>
          (case setup_nets_from ctx (Suc i) rest of
             Inl e \<Rightarrow> Inl e
           | Inr r \<Rightarrow> Inr (nd # fst r, ni\<lparr>udata := int i\<rparr> # snd r)))"

definition setup_nets :: "Context \<Rightarrow> NetInfo list \<Rightarrow> error + (PerNetData list \<times> NetInfo list)" where
  "setup_nets ctx netlist = setup_nets_from ctx 0 netlist"

text \<open>An arc for which \<^verbatim>\<open>setup_nets\<close> finds no source wire or no sink wire.\<close>

definition arc_wire_missing :: "Context \<Rightarrow> NetInfo \<Rightarrow> PortRef \<Rightarrow> bool" where
  "arc_wire_missing ctx ni usr = (arc_src_wire ctx ni usr = None \<or> getNetinfoSinkWire ctx ni usr = None)"

text \<open>
  What \<^verbatim>\<open>setup_nets\<close> leaves for a net: one arc per user with its route bounding box and an
  empty route, a net bounding box that encloses every arc's box, the centroid as the
  truncated average of the driver's and the users' locations, and \<^verbatim>\<open>hpwl\<close> of at least one.
\<close>

definition encloses :: "ArcBounds \<Rightarrow> ArcBounds \<Rightarrow> bool" where
  "encloses outer inner =
     (bb_x0 outer \<le> bb_x0 inner \<and> bb_y0 outer \<le> bb_y0 inner
      \<and> bb_x1 inner \<le> bb_x1 outer \<and> bb_y1 inner \<le> bb_y1 outer)"

definition centroid_sum :: "Context \<Rightarrow> NetInfo \<Rightarrow> (Loc \<Rightarrow> int) \<Rightarrow> int" where
  "centroid_sum ctx ni coord =
     fold (\<lambda>usr a. wrap32 (a + coord (getBelLocation ctx (pr_bel usr)))) (users ni)
       (if pr_cell (driver ni) \<noteq> None then wrap32 (0 + coord (getBelLocation ctx (pr_bel (driver ni)))) else 0)"

definition net_data_populated :: "Context \<Rightarrow> NetInfo \<Rightarrow> PerNetData \<Rightarrow> bool" where
  "net_data_populated ctx ni nd =
     (length (arcs nd) = length (users ni)
      \<and> 1 \<le> hpwl nd
      \<and> cx nd = cpp_div (centroid_sum ctx ni loc_x) (int (length (users ni) + 1))
      \<and> cy nd = cpp_div (centroid_sum ctx ni loc_y) (int (length (users ni) + 1))
      \<and> (\<forall>j < length (users ni).
            arc_bb (arcs nd ! j)
              = getRouteBoundingBox ctx (arc_src_wire ctx ni (users ni ! j)) (getNetinfoSinkWire ctx ni (users ni ! j))
            \<and> arc_wires (arcs nd ! j) = []
            \<and> encloses (net_bb nd) (arc_bb (arcs nd ! j))))"

section \<open>Per-arc search: data\<close>

record WireScore =
  ws_cost :: real
  ws_togo_cost :: real
  ws_delay :: delay_t

definition total :: "WireScore \<Rightarrow> real" where
  "total sc = ws_cost sc + ws_togo_cost sc"

record QueuedWire =
  qw_wire :: WireId
  qw_pip :: PipId
  qw_loc :: Loc
  qw_score :: WireScore
  qw_randtag :: int

text \<open>
  \<^verbatim>\<open>QueuedWire::Greater\<close>, the comparison of the priority queue, whose top is an entry that
  is \<open>Greater\<close> than no other: least total, and among equal totals least random tag.  Among
  entries equal in both, \<open>pq_top_from\<close> takes the one that was pushed first.
\<close>

definition qw_greater :: "QueuedWire \<Rightarrow> QueuedWire \<Rightarrow> bool" where
  "qw_greater lhs rhs =
     (let lhs_score = ws_cost (qw_score lhs) + ws_togo_cost (qw_score lhs);
          rhs_score = ws_cost (qw_score rhs) + ws_togo_cost (qw_score rhs)
      in if lhs_score = rhs_score then qw_randtag lhs > qw_randtag rhs else lhs_score > rhs_score)"

fun pq_top_from :: "QueuedWire \<Rightarrow> QueuedWire list \<Rightarrow> QueuedWire" where
  "pq_top_from best [] = best"
| "pq_top_from best (q # qs) = pq_top_from (if qw_greater best q then q else best) qs"

record VisitInfo =
  vi_score :: WireScore
  vi_pip :: PipId

text \<open>
  \<^verbatim>\<open>ThreadContext\<close>.  \<open>rng_pos\<close> is the number of values drawn so far from the device's
  generator, which the search draws its random tags from.
\<close>

record ThreadContext =
  route_arcs :: "nat list"
  queue :: "QueuedWire list"
  visited :: "WireId \<rightharpoonup> VisitInfo"
  processed_sinks :: "WireId set"
  backwards_queue :: "WireId list"
  backwards_pip :: "WireId \<rightharpoonup> PipId"
  rng_pos :: nat

text \<open>
  The enumeration is unscoped: its values are the integers 0, 1, 2, and a function declared
  to return \<^verbatim>\<open>bool\<close> that returns one of them returns whether that integer is not 0.
\<close>

datatype ArcRouteResult = ARC_SUCCESS | ARC_RETRY_WITHOUT_BB | ARC_FATAL

fun arc_result_value :: "ArcRouteResult \<Rightarrow> int" where
  "arc_result_value ARC_SUCCESS = 0"
| "arc_result_value ARC_RETRY_WITHOUT_BB = 1"
| "arc_result_value ARC_FATAL = 2"

definition bool_of_enum :: "ArcRouteResult \<Rightarrow> bool" where
  "bool_of_enum r = (arc_result_value r \<noteq> 0)"

definition bb_margin_x :: int where
  "bb_margin_x = 4"

definition bb_margin_y :: int where
  "bb_margin_y = 4"

definition hit_test_pip :: "ArcBounds \<Rightarrow> Loc \<Rightarrow> bool" where
  "hit_test_pip bb l =
     (loc_x l \<ge> bb_x0 bb - bb_margin_x \<and> loc_x l \<le> bb_x1 bb + bb_margin_x
      \<and> loc_y l \<ge> bb_y0 bb - bb_margin_y \<and> loc_y l \<le> bb_y1 bb + bb_margin_y)"

text \<open>
  A loop that need not end takes a number of rounds it may run (\<open>fuel\<close>) and returns \<open>None\<close>
  when they are used up; otherwise a function returns \<open>Some\<close> of an error or of its result.
  \<^verbatim>\<open>ARC_LOG_ERR\<close> returns \<^verbatim>\<open>ARC_FATAL\<close> in a worker thread and throws otherwise.
\<close>

datatype 'a loop_step = Continue 'a | Break 'a

section \<open>Per-arc search: backwards prelude\<close>

text \<open>
  The first inner loop: follow the net's own driving pips from \<open>c\<close>; the result is the flag
  \<^verbatim>\<open>bwd_merge_fail\<close> and the wire the walk stopped at.
\<close>

fun bwd_merge_walk :: "nat \<Rightarrow> Context \<Rightarrow> Router2 \<Rightarrow> int \<Rightarrow> WireId \<Rightarrow> (error + bool \<times> WireId) option" where
  "bwd_merge_walk 0 ctx s n c = None"
| "bwd_merge_walk (Suc k) ctx s n c =
     (case wires s c of
        None \<Rightarrow> Some (Inl OutOfRange)
      | Some wd \<Rightarrow>
          if \<not> bn_count (bound_nets wd) n then Some (Inr (False, c))
          else if bn_size (bound_nets wd) > 1 then Some (Inr (True, c))
          else (let p = snd (bn_entry (bound_nets wd) n)
                in if p = None then Some (Inr (False, c))
                   else bwd_merge_walk k ctx s n (getPipSrcWire ctx p)))"

text \<open>The second inner loop: record the pips of that chain in \<^verbatim>\<open>backwards_pip\<close>.\<close>

fun bwd_merge_record :: "nat \<Rightarrow> Context \<Rightarrow> Router2 \<Rightarrow> int \<Rightarrow> WireId \<Rightarrow> (WireId \<rightharpoonup> PipId) \<Rightarrow> (error + (WireId \<rightharpoonup> PipId)) option" where
  "bwd_merge_record 0 ctx s n c bp = None"
| "bwd_merge_record (Suc k) ctx s n c bp =
     (case wires s c of
        None \<Rightarrow> Some (Inl OutOfRange)
      | Some wd \<Rightarrow>
          if \<not> bn_count (bound_nets wd) n then Some (Inr bp)
          else (let p = snd (bn_entry (bound_nets wd) n)
                in if p = None then Some (Inr bp)
                   else bwd_merge_record k ctx s n (getPipSrcWire ctx p) (bp(getPipSrcWire ctx p \<mapsto> p))))"

text \<open>The body of the loop over the uphill pips of the cursor, for the pip \<open>uh\<close>.\<close>

definition bwd_visit_pip :: "Context \<Rightarrow> Router2 \<Rightarrow> NetInfo \<Rightarrow> PipId \<Rightarrow> PipId \<Rightarrow> ThreadContext \<Rightarrow> error + ThreadContext" where
  "bwd_visit_pip ctx s net cpip uh t =
     (if \<not> checkPipAvail ctx uh \<and> getBoundPipNet ctx uh \<noteq> Some (udata net) then Inr t
      else if cpip \<noteq> None \<and> cpip \<noteq> uh then Inr t
      else
        (let next = getPipSrcWire ctx uh
         in if backwards_pip t next \<noteq> None then Inr t
            else
              (case wires s next of
                 None \<Rightarrow> Inl OutOfRange
               | Some wd \<Rightarrow>
                   if unavailable wd then Inr t
                   else if reserved_net wd \<noteq> - 1 \<and> reserved_net wd \<noteq> udata net then Inr t
                   else if bn_size (bound_nets wd) > 1
                           \<or> (bn_size (bound_nets wd) = 1 \<and> \<not> bn_count (bound_nets wd) (udata net))
                   then Inr t
                   else Inr (t\<lparr>backwards_queue := backwards_queue t @ [next],
                               backwards_pip := (backwards_pip t)(next \<mapsto> uh)\<rparr>))))"

fun bwd_visit_pips :: "Context \<Rightarrow> Router2 \<Rightarrow> NetInfo \<Rightarrow> PipId \<Rightarrow> PipId list \<Rightarrow> ThreadContext \<Rightarrow> error + ThreadContext" where
  "bwd_visit_pips ctx s net cpip [] t = Inr t"
| "bwd_visit_pips ctx s net cpip (uh # uhs) t =
     (case bwd_visit_pip ctx s net cpip uh t of
        Inl e \<Rightarrow> Inl e
      | Inr t1 \<Rightarrow> bwd_visit_pips ctx s net cpip uhs t1)"

text \<open>
  The part of the loop body after the merge attempt: expand the cursor along its uphill
  pips; the round counts when the cursor has any uphill pip.
\<close>

definition bwd_expand :: "Context \<Rightarrow> Router2 \<Rightarrow> NetInfo \<Rightarrow> WireId \<Rightarrow> PipId \<Rightarrow> ThreadContext \<times> int \<Rightarrow> error + ThreadContext \<times> int" where
  "bwd_expand ctx s net cursor cpip st =
     (case bwd_visit_pips ctx s net cpip (getPipsUphill ctx cursor) (fst st) of
        Inl e \<Rightarrow> Inl e
      | Inr t2 \<Rightarrow> Inr (t2, if getPipsUphill ctx cursor \<noteq> [] then snd st + 1 else snd st))"

text \<open>
  One round of the backwards loop on the thread context and \<^verbatim>\<open>backwards_iter\<close>; \<open>Break\<close> is
  the \<^verbatim>\<open>break\<close> after a merge into existing routing.
\<close>

definition bwd_step :: "nat \<Rightarrow> Context \<Rightarrow> Router2 \<Rightarrow> NetInfo \<Rightarrow> WireId \<Rightarrow> ThreadContext \<times> int \<Rightarrow> (error + (ThreadContext \<times> int) loop_step) option" where
  "bwd_step fuel ctx s net src_wire st =
     (case backwards_queue (fst st) of
        [] \<Rightarrow> Some (Inr (Break st))
      | cursor # rest \<Rightarrow>
          (let t1 = (fst st)\<lparr>backwards_queue := rest\<rparr>
           in case wires s cursor of
                None \<Rightarrow> Some (Inl OutOfRange)
              | Some cwd \<Rightarrow>
                  if bn_count (bound_nets cwd) (udata net) then
                    (case bwd_merge_walk fuel ctx s (udata net) cursor of
                       None \<Rightarrow> None
                     | Some (Inl e) \<Rightarrow> Some (Inl e)
                     | Some (Inr r) \<Rightarrow>
                         if \<not> fst r \<and> snd r = src_wire then
                           (case bwd_merge_record fuel ctx s (udata net) cursor (backwards_pip t1) of
                              None \<Rightarrow> None
                            | Some (Inl e) \<Rightarrow> Some (Inl e)
                            | Some (Inr bp) \<Rightarrow> Some (Inr (Break (t1\<lparr>backwards_pip := bp\<rparr>, snd st))))
                         else
                           (case bwd_expand ctx s net cursor (snd (bn_entry (bound_nets cwd) (udata net))) (t1, snd st) of
                              Inl e \<Rightarrow> Some (Inl e)
                            | Inr st1 \<Rightarrow> Some (Inr (Continue st1))))
                  else
                    (case bwd_expand ctx s net cursor None (t1, snd st) of
                       Inl e \<Rightarrow> Some (Inl e)
                     | Inr st1 \<Rightarrow> Some (Inr (Continue st1)))))"

definition backwards_limit :: int where
  "backwards_limit = 10"

definition bwd_cond :: "ThreadContext \<times> int \<Rightarrow> bool" where
  "bwd_cond st = (backwards_queue (fst st) \<noteq> [] \<and> snd st < backwards_limit)"

fun bwd_loop :: "nat \<Rightarrow> nat \<Rightarrow> Context \<Rightarrow> Router2 \<Rightarrow> NetInfo \<Rightarrow> WireId \<Rightarrow> ThreadContext \<times> int \<Rightarrow> (error + ThreadContext) option" where
  "bwd_loop 0 fuel ctx s net src_wire st = None"
| "bwd_loop (Suc k) fuel ctx s net src_wire st =
     (if bwd_cond st then
        (case bwd_step fuel ctx s net src_wire st of
           None \<Rightarrow> None
         | Some (Inl e) \<Rightarrow> Some (Inl e)
         | Some (Inr (Break st1)) \<Rightarrow> Some (Inr (fst st1))
         | Some (Inr (Continue st1)) \<Rightarrow> bwd_loop k fuel ctx s net src_wire st1)
      else Some (Inr (fst st)))"

text \<open>The state in which the backwards loop starts: both queues emptied, the sink enqueued.\<close>

definition bwd_init :: "WireId \<Rightarrow> ThreadContext \<Rightarrow> ThreadContext \<times> int" where
  "bwd_init dst_wire t =
     (t\<lparr>queue := [], backwards_queue := [dst_wire], backwards_pip := Map.empty\<rparr>, 0)"

text \<open>
  Binding the arc along the chain recovered backwards: from the cursor, follow
  \<^verbatim>\<open>backwards_pip\<close> downhill and bind every wire reached.
\<close>

fun bind_forwards :: "nat \<Rightarrow> Context \<Rightarrow> NetInfo \<Rightarrow> nat \<Rightarrow> (WireId \<rightharpoonup> PipId) \<Rightarrow> WireId \<Rightarrow> Router2 \<Rightarrow> (error + WireId \<times> Router2) option" where
  "bind_forwards 0 ctx net i bp cursor_fwd s = None"
| "bind_forwards (Suc k) ctx net i bp cursor_fwd s =
     (case bp cursor_fwd of
        None \<Rightarrow> Some (Inr (cursor_fwd, s))
      | Some v \<Rightarrow>
          (case bind_pip_internal net i (getPipDstWire ctx v) v s of
             Inl e \<Rightarrow> Some (Inl e)
           | Inr s1 \<Rightarrow> bind_forwards k ctx net i bp (getPipDstWire ctx v) s1))"

definition route_arc_backwards :: "nat \<Rightarrow> Context \<Rightarrow> NetInfo \<Rightarrow> nat \<Rightarrow> WireId \<Rightarrow> WireId \<Rightarrow> Router2 \<times> ThreadContext \<Rightarrow> (error + ArcRouteResult \<times> Router2 \<times> ThreadContext) option" where
  "route_arc_backwards fuel ctx net i src_wire dst_wire st =
     (case bind_pip_internal net i src_wire None (fst st) of
        Inl e \<Rightarrow> Some (Inl e)
      | Inr s1 \<Rightarrow>
          (case bind_forwards fuel ctx net i (backwards_pip (snd st)) src_wire s1 of
             None \<Rightarrow> None
           | Some (Inl e) \<Rightarrow> Some (Inl e)
           | Some (Inr r) \<Rightarrow>
               if fst r = dst_wire then
                 Some (Inr (ARC_SUCCESS, snd r,
                            (snd st)\<lparr>processed_sinks := insert dst_wire (processed_sinks (snd st))\<rparr>))
               else Some (Inl AssertionFailure)))"

section \<open>Per-arc search: forward A*\<close>

text \<open>
  The thread context together with the local variables of the forward loop.
\<close>

record AStar = ThreadContext +
  toexplore :: int
  iter :: int
  explored :: int

text \<open>The body of the loop over the downhill pips of \<open>cur\<close>, for the pip \<open>dh\<close>.\<close>

definition fwd_visit_pip :: "Context \<Rightarrow> Router2 \<Rightarrow> NetInfo \<Rightarrow> nat \<Rightarrow> bool \<Rightarrow> WireId \<Rightarrow> PerArcData \<Rightarrow> QueuedWire \<Rightarrow> PipId \<Rightarrow> AStar \<Rightarrow> error + AStar" where
  "fwd_visit_pip ctx s net i is_bb dst_wire ad cur dh a =
     (if is_bb \<and> \<not> hit_test_pip (arc_bb ad) (getPipLocation ctx dh) then Inr a
      else if \<not> checkPipAvail ctx dh \<and> getBoundPipNet ctx dh \<noteq> Some (udata net) then Inr a
      else
        (let next = getPipDstWire ctx dh
         in case wires s next of
              None \<Rightarrow> Inl OutOfRange
            | Some nwd \<Rightarrow>
                if unavailable nwd then Inr a
                else if reserved_net nwd \<noteq> - 1 \<and> reserved_net nwd \<noteq> udata net then Inr a
                else if bn_count (bound_nets nwd) (udata net) \<and> snd (bn_entry (bound_nets nwd) (udata net)) \<noteq> dh
                then Inr a
                else
                  (case score_wire_for_arc ctx s net i next dh of
                     Inl e \<Rightarrow> Inl e
                   | Inr sc \<Rightarrow>
                       (case get_togo_cost ctx s net i next dst_wire of
                          Inl e \<Rightarrow> Inl e
                        | Inr tg \<Rightarrow>
                            (let next_score = \<lparr>ws_cost = ws_cost (qw_score cur) + sc,
                                               ws_togo_cost = 1.75 * tg,
                                               ws_delay = ws_delay (qw_score cur) + getPipDelay ctx dh
                                                          + getWireDelay ctx next\<rparr>
                             in if visited a next = None
                                   \<or> total (vi_score (the (visited a next))) > total next_score
                                then
                                  Inr (a\<lparr>explored := wrap32 (explored a + 1),
                                        queue := queue a @ [\<lparr>qw_wire = next, qw_pip = dh,
                                                             qw_loc = getPipLocation ctx dh,
                                                             qw_score = next_score,
                                                             qw_randtag = rng_seq ctx (rng_pos a)\<rparr>],
                                        rng_pos := Suc (rng_pos a),
                                        visited := (visited a)(next \<mapsto> \<lparr>vi_score = next_score, vi_pip = dh\<rparr>),
                                        toexplore := (if next = dst_wire
                                                      then min (toexplore a) (wrap32 (iter a + 5))
                                                      else toexplore a)\<rparr>)
                                else Inr a)))))"

fun fwd_visit_pips :: "Context \<Rightarrow> Router2 \<Rightarrow> NetInfo \<Rightarrow> nat \<Rightarrow> bool \<Rightarrow> WireId \<Rightarrow> PerArcData \<Rightarrow> QueuedWire \<Rightarrow> PipId list \<Rightarrow> AStar \<Rightarrow> error + AStar" where
  "fwd_visit_pips ctx s net i is_bb dst_wire ad cur [] a = Inr a"
| "fwd_visit_pips ctx s net i is_bb dst_wire ad cur (dh # dhs) a =
     (case fwd_visit_pip ctx s net i is_bb dst_wire ad cur dh a of
        Inl e \<Rightarrow> Inl e
      | Inr a1 \<Rightarrow> fwd_visit_pips ctx s net i is_bb dst_wire ad cur dhs a1)"

definition astar_cond :: "bool \<Rightarrow> AStar \<Rightarrow> bool" where
  "astar_cond is_bb a = (queue a \<noteq> [] \<and> (\<not> is_bb \<or> iter a < toexplore a))"

text \<open>One round of the forward loop: take the top of the queue, count, explore.\<close>

definition astar_body :: "Context \<Rightarrow> Router2 \<Rightarrow> NetInfo \<Rightarrow> nat \<Rightarrow> bool \<Rightarrow> WireId \<Rightarrow> PerArcData \<Rightarrow> AStar \<Rightarrow> error + AStar" where
  "astar_body ctx s net i is_bb dst_wire ad a =
     (case queue a of
        [] \<Rightarrow> Inr a
      | q # qs \<Rightarrow>
          (let cur = pq_top_from q qs
           in fwd_visit_pips ctx s net i is_bb dst_wire ad cur (getPipsDownhill ctx (qw_wire cur))
                (a\<lparr>queue := remove1 cur (queue a), iter := wrap32 (iter a + 1)\<rparr>)))"

fun astar_loop :: "nat \<Rightarrow> Context \<Rightarrow> Router2 \<Rightarrow> NetInfo \<Rightarrow> nat \<Rightarrow> bool \<Rightarrow> WireId \<Rightarrow> PerArcData \<Rightarrow> AStar \<Rightarrow> (error + AStar) option" where
  "astar_loop 0 ctx s net i is_bb dst_wire ad a = None"
| "astar_loop (Suc k) ctx s net i is_bb dst_wire ad a =
     (if astar_cond is_bb a then
        (case astar_body ctx s net i is_bb dst_wire ad a of
           Inl e \<Rightarrow> Some (Inl e)
         | Inr a1 \<Rightarrow> astar_loop k ctx s net i is_bb dst_wire ad a1)
      else Some (Inr a))"

text \<open>Exactly \<open>k\<close> rounds of the forward loop, whatever the loop condition says.\<close>

fun astar_rounds :: "nat \<Rightarrow> Context \<Rightarrow> Router2 \<Rightarrow> NetInfo \<Rightarrow> nat \<Rightarrow> bool \<Rightarrow> WireId \<Rightarrow> PerArcData \<Rightarrow> AStar \<Rightarrow> error + AStar" where
  "astar_rounds 0 ctx s net i is_bb dst_wire ad a = Inr a"
| "astar_rounds (Suc k) ctx s net i is_bb dst_wire ad a =
     (case astar_body ctx s net i is_bb dst_wire ad a of
        Inl e \<Rightarrow> Inl e
      | Inr a1 \<Rightarrow> astar_rounds k ctx s net i is_bb dst_wire ad a1)"

text \<open>
  The default-constructed \<^verbatim>\<open>Loc()\<close> of the source's queue entry.  The declaration of
  \<^verbatim>\<open>Loc\<close> is not part of the sources at hand; the coordinates are taken as \<open>-1\<close>, and the
  location of the source entry is never read.
\<close>

definition Loc_default :: Loc where
  "Loc_default = \<lparr>loc_x = - 1, loc_y = - 1, loc_z = - 1\<rparr>"

text \<open>
  The initial value of \<^verbatim>\<open>toexplore\<close>, computed in \<^verbatim>\<open>int\<close>.  \<open>box_arith_exact\<close> says that none of
  its operations leaves the range of \<^verbatim>\<open>int\<close>; for a box with \<open>x0 \<le> x1\<close> and \<open>y0 \<le> y1\<close> this is
  \<open>(x1 - x0) + (y1 - y0) \<le> 85899\<close>.
\<close>

definition astar_budget :: "ArcBounds \<Rightarrow> int" where
  "astar_budget bb =
     wrap32 (25000 * max 1 (wrap32 (wrap32 (bb_x1 bb - bb_x0 bb) + wrap32 (bb_y1 bb - bb_y0 bb))))"

definition box_arith_exact :: "ArcBounds \<Rightarrow> bool" where
  "box_arith_exact bb =
     (INT_MIN \<le> bb_x1 bb - bb_x0 bb \<and> bb_x1 bb - bb_x0 bb \<le> INT_MAX
      \<and> INT_MIN \<le> bb_y1 bb - bb_y0 bb \<and> bb_y1 bb - bb_y0 bb \<le> INT_MAX
      \<and> INT_MIN \<le> (bb_x1 bb - bb_x0 bb) + (bb_y1 bb - bb_y0 bb)
      \<and> 25000 * max 1 ((bb_x1 bb - bb_x0 bb) + (bb_y1 bb - bb_y0 bb)) \<le> INT_MAX)"

text \<open>The state in which the forward loop starts; \<open>tg\<close> is the to-go cost of the source wire.\<close>

definition astar_init :: "Context \<Rightarrow> WireId \<Rightarrow> PerArcData \<Rightarrow> real \<Rightarrow> ThreadContext \<Rightarrow> AStar" where
  "astar_init ctx src_wire ad tg t =
     (let base_score = \<lparr>ws_cost = 0, ws_togo_cost = tg, ws_delay = getWireDelay ctx src_wire\<rparr>
      in ThreadContext.extend
           (t\<lparr>queue := queue t @ [\<lparr>qw_wire = src_wire, qw_pip = None, qw_loc = Loc_default,
                                    qw_score = base_score, qw_randtag = 0\<rparr>],
              visited := [src_wire \<mapsto> \<lparr>vi_score = base_score, vi_pip = None\<rparr>]\<rparr>)
           (AStar.fields (astar_budget (arc_bb ad)) 0 1))"

text \<open>
  Binding the arc along the visited map, from the sink back to the source.
\<close>

fun bind_backwards :: "nat \<Rightarrow> Context \<Rightarrow> NetInfo \<Rightarrow> nat \<Rightarrow> (WireId \<rightharpoonup> VisitInfo) \<Rightarrow> WireId \<Rightarrow> WireId \<Rightarrow> Router2 \<Rightarrow> (error + Router2) option" where
  "bind_backwards 0 ctx net i vis src_wire cursor_bwd s = None"
| "bind_backwards (Suc k) ctx net i vis src_wire cursor_bwd s =
     (case vis cursor_bwd of
        None \<Rightarrow> Some (Inr s)
      | Some v \<Rightarrow>
          (case bind_pip_internal net i cursor_bwd (vi_pip v) s of
             Inl e \<Rightarrow> Some (Inl e)
           | Inr s1 \<Rightarrow>
               if vi_pip v = None then
                 (if cursor_bwd = src_wire then Some (Inr s1) else Some (Inl AssertionFailure))
               else bind_backwards k ctx net i vis src_wire (getPipSrcWire ctx (vi_pip v)) s1))"

text \<open>The end of \<^verbatim>\<open>route_arc\<close>, after the forward loop.\<close>

definition route_arc_finish :: "nat \<Rightarrow> Context \<Rightarrow> NetInfo \<Rightarrow> nat \<Rightarrow> WireId \<Rightarrow> WireId \<Rightarrow> Router2 \<times> ThreadContext \<Rightarrow> (error + ArcRouteResult \<times> Router2 \<times> ThreadContext) option" where
  "route_arc_finish fuel ctx net i src_wire dst_wire st =
     (if visited (snd st) dst_wire \<noteq> None then
        (case bind_backwards fuel ctx net i (visited (snd st)) src_wire dst_wire (fst st) of
           None \<Rightarrow> None
         | Some (Inl e) \<Rightarrow> Some (Inl e)
         | Some (Inr s1) \<Rightarrow>
             Some (Inr (ARC_SUCCESS, s1,
                        (snd st)\<lparr>processed_sinks := insert dst_wire (processed_sinks (snd st))\<rparr>)))
      else Some (Inr (ARC_RETRY_WITHOUT_BB, st)))"

definition route_arc_forwards :: "nat \<Rightarrow> Context \<Rightarrow> NetInfo \<Rightarrow> nat \<Rightarrow> bool \<Rightarrow> WireId \<Rightarrow> WireId \<Rightarrow> PerArcData \<Rightarrow> Router2 \<times> ThreadContext \<Rightarrow> (error + ArcRouteResult \<times> Router2 \<times> ThreadContext) option" where
  "route_arc_forwards fuel ctx net i is_bb src_wire dst_wire ad st =
     (case get_togo_cost ctx (fst st) net i src_wire dst_wire of
        Inl e \<Rightarrow> Some (Inl e)
      | Inr tg \<Rightarrow>
          (case astar_loop fuel ctx (fst st) net i is_bb dst_wire ad (astar_init ctx src_wire ad tg (snd st)) of
             None \<Rightarrow> None
           | Some (Inl e) \<Rightarrow> Some (Inl e)
           | Some (Inr a1) \<Rightarrow>
               route_arc_finish fuel ctx net i src_wire dst_wire (fst st, ThreadContext.truncate a1)))"

section \<open>Per-arc search: \<^verbatim>\<open>route_arc\<close>\<close>

text \<open>
  \<^verbatim>\<open>nets[net->udata]\<close> and \<^verbatim>\<open>nd.arcs[i]\<close> are unchecked in the code; an index out of range is
  modelled as the error that the checked \<^verbatim>\<open>users.at(i)\<close> next to them throws.
\<close>

definition route_arc :: "nat \<Rightarrow> Context \<Rightarrow> NetInfo \<Rightarrow> nat \<Rightarrow> bool \<Rightarrow> bool \<Rightarrow> Router2 \<times> ThreadContext \<Rightarrow> (error + ArcRouteResult \<times> Router2 \<times> ThreadContext) option" where
  "route_arc fuel ctx net i is_mt is_bb st =
     (case nets_at (fst st) (udata net) of
        Inl e \<Rightarrow> Some (Inl e)
      | Inr nd \<Rightarrow>
          (case arcs_at nd i of
             Inl e \<Rightarrow> Some (Inl e)
           | Inr ad \<Rightarrow>
               if \<not> i < length (users net) then Some (Inl OutOfRange)
               else
                 (let src_wire = getNetinfoSourceWire ctx net;
                      dst_wire = getNetinfoSinkWire ctx net (users net ! i)
                  in if src_wire = None then
                       (if is_mt then Some (Inr (ARC_FATAL, st)) else Some (Inl NoSourceWire))
                     else if dst_wire = None then
                       (if is_mt then Some (Inr (ARC_FATAL, st)) else Some (Inl NoSinkWire))
                     else if dst_wire \<in> processed_sinks (snd st) then Some (Inr (ARC_SUCCESS, st))
                     else
                       (case bwd_loop fuel fuel ctx (fst st) net src_wire (bwd_init dst_wire (snd st)) of
                          None \<Rightarrow> None
                        | Some (Inl e) \<Rightarrow> Some (Inl e)
                        | Some (Inr t1) \<Rightarrow>
                            if backwards_pip t1 src_wire \<noteq> None then
                              route_arc_backwards fuel ctx net i src_wire dst_wire (fst st, t1)
                            else
                              route_arc_forwards fuel ctx net i is_bb src_wire dst_wire ad (fst st, t1)))))"

section \<open>Net loop: \<^verbatim>\<open>route_net\<close>\<close>

text \<open>\<^verbatim>\<open>check_arc_routing\<close>: the walk from the sink along the arc's own route.\<close>

fun check_arc_walk :: "nat \<Rightarrow> Context \<Rightarrow> Router2 \<Rightarrow> PerArcData \<Rightarrow> WireId \<Rightarrow> WireId \<Rightarrow> (error + bool) option" where
  "check_arc_walk 0 ctx s ad src_wire cursor = None"
| "check_arc_walk (Suc k) ctx s ad src_wire cursor =
     (case map_of (arc_wires ad) cursor of
        None \<Rightarrow> Some (Inr (cursor = src_wire))
      | Some uh \<Rightarrow>
          (case wires s cursor of
             None \<Rightarrow> Some (Inl OutOfRange)
           | Some wd \<Rightarrow>
               if bn_size (bound_nets wd) \<noteq> 1 then Some (Inr False)
               else if uh = None then Some (Inr (cursor = src_wire))
               else check_arc_walk k ctx s ad src_wire (getPipSrcWire ctx uh)))"

definition check_arc_routing :: "nat \<Rightarrow> Context \<Rightarrow> Router2 \<Rightarrow> NetInfo \<Rightarrow> nat \<Rightarrow> (error + bool) option" where
  "check_arc_routing fuel ctx s net usr =
     (case nets_at s (udata net) of
        Inl e \<Rightarrow> Some (Inl e)
      | Inr nd \<Rightarrow>
          (case arcs_at nd usr of
             Inl e \<Rightarrow> Some (Inl e)
           | Inr ad \<Rightarrow>
               if \<not> usr < length (users net) then Some (Inl OutOfRange)
               else check_arc_walk fuel ctx s ad (getNetinfoSourceWire ctx net)
                      (getNetinfoSinkWire ctx net (users net ! usr))))"

text \<open>
  The first loop of \<^verbatim>\<open>route_net\<close> over the user indices: keep the arcs that are routed
  legally, rip up and schedule the others.  \<open>Break\<close> carries the value of the
  \<^verbatim>\<open>return ARC_SUCCESS\<close> inside the loop, converted to the function's return type \<^verbatim>\<open>bool\<close>.
\<close>

fun route_net_schedule :: "nat \<Rightarrow> Context \<Rightarrow> NetInfo \<Rightarrow> nat list \<Rightarrow> Router2 \<times> ThreadContext \<Rightarrow> (error + (Router2 \<times> ThreadContext, bool \<times> Router2 \<times> ThreadContext) sum) option" where
  "route_net_schedule fuel ctx net [] st = Some (Inr (Inl st))"
| "route_net_schedule fuel ctx net (i # js) st =
     (case check_arc_routing fuel ctx (fst st) net i of
        None \<Rightarrow> None
      | Some (Inl e) \<Rightarrow> Some (Inl e)
      | Some (Inr True) \<Rightarrow> route_net_schedule fuel ctx net js st
      | Some (Inr False) \<Rightarrow>
          (let dst_wire = getNetinfoSinkWire ctx net (users net ! i)
           in if (case map_of (net_wires net) dst_wire of
                    None \<Rightarrow> False
                  | Some pm \<Rightarrow> strength_rank (pm_strength pm) > strength_rank STRENGTH_STRONG)
              then Some (Inr (Inr (bool_of_enum ARC_SUCCESS, st)))
              else
                (case ripup_arc net i (fst st) of
                   Inl e \<Rightarrow> Some (Inl e)
                 | Inr s1 \<Rightarrow>
                     route_net_schedule fuel ctx net js
                       (s1, (snd st)\<lparr>route_arcs := route_arcs (snd st) @ [i]\<rparr>))))"

text \<open>The second loop: route every scheduled arc; the flag is \<^verbatim>\<open>have_failures\<close>.\<close>

fun route_net_arcs :: "nat \<Rightarrow> Context \<Rightarrow> NetInfo \<Rightarrow> bool \<Rightarrow> nat list \<Rightarrow> bool \<Rightarrow> Router2 \<times> ThreadContext \<Rightarrow> (error + bool \<times> Router2 \<times> ThreadContext) option" where
  "route_net_arcs fuel ctx net is_mt [] have_failures st = Some (Inr (\<not> have_failures, st))"
| "route_net_arcs fuel ctx net is_mt (i # js) have_failures st =
     (case route_arc fuel ctx net i is_mt True st of
        None \<Rightarrow> None
      | Some (Inl e) \<Rightarrow> Some (Inl e)
      | Some (Inr (ARC_FATAL, st1)) \<Rightarrow> Some (Inr (False, st1))
      | Some (Inr (ARC_SUCCESS, st1)) \<Rightarrow> route_net_arcs fuel ctx net is_mt js have_failures st1
      | Some (Inr (ARC_RETRY_WITHOUT_BB, st1)) \<Rightarrow>
          if is_mt then route_net_arcs fuel ctx net is_mt js True st1
          else
            (case route_arc fuel ctx net i is_mt False st1 of
               None \<Rightarrow> None
             | Some (Inl e) \<Rightarrow> Some (Inl e)
             | Some (Inr (ARC_SUCCESS, st2)) \<Rightarrow> route_net_arcs fuel ctx net is_mt js have_failures st2
             | Some (Inr (res2, st2)) \<Rightarrow> Some (Inl FailedToRoute)))"

text \<open>
  \<^verbatim>\<open>route_net\<close>.  \<open>arch_ecp5\<close> says whether \<^verbatim>\<open>ARCH_ECP5\<close> is defined, in which case a global
  net is skipped.
\<close>

definition route_net :: "nat \<Rightarrow> Context \<Rightarrow> bool \<Rightarrow> NetInfo \<Rightarrow> bool \<Rightarrow> Router2 \<times> ThreadContext \<Rightarrow> (error + bool \<times> Router2 \<times> ThreadContext) option" where
  "route_net fuel ctx arch_ecp5 net is_mt st =
     (if arch_ecp5 \<and> is_global net then Some (Inr (True, st))
      else if pr_cell (driver net) = None then Some (Inr (True, st))
      else
        (case route_net_schedule fuel ctx net [0 ..< length (users net)]
                (fst st, (snd st)\<lparr>processed_sinks := {}, route_arcs := []\<rparr>) of
           None \<Rightarrow> None
         | Some (Inl e) \<Rightarrow> Some (Inl e)
         | Some (Inr (Inr r)) \<Rightarrow> Some (Inr r)
         | Some (Inr (Inl st1)) \<Rightarrow> route_net_arcs fuel ctx net is_mt (route_arcs (snd st1)) False st1))"

section \<open>Reserved wires\<close>

text \<open>
  The test \<^verbatim>\<open>wd.reserved_net != -1 && wd.reserved_net != net->udata\<close> of the two search loops, as
  a predicate on a wire of the router state; a wire without an entry is reserved for nobody.
\<close>

definition reserved_for_other :: "Router2 \<Rightarrow> int \<Rightarrow> WireId \<Rightarrow> bool" where
  "reserved_for_other s n w =
     (case wires s w of None \<Rightarrow> False | Some wd \<Rightarrow> reserved_net wd \<noteq> - 1 \<and> reserved_net wd \<noteq> n)"

text \<open>\<^verbatim>\<open>wires.at(w).bound_nets.count(n)\<close>, and the pip that arc \<open>i\<close> of net \<open>n\<close> records for the wire.\<close>

definition net_bound_on :: "Router2 \<Rightarrow> int \<Rightarrow> WireId \<Rightarrow> bool" where
  "net_bound_on s n w = (case wires s w of None \<Rightarrow> False | Some wd \<Rightarrow> bn_count (bound_nets wd) n)"

definition arc_route :: "Router2 \<Rightarrow> int \<Rightarrow> nat \<Rightarrow> WireId \<Rightarrow> PipId option" where
  "arc_route s n i w =
     (case nets_at s n of
        Inl e \<Rightarrow> None
      | Inr nd \<Rightarrow> (case arcs_at nd i of Inl e \<Rightarrow> None | Inr ad \<Rightarrow> map_of (arc_wires ad) w))"

text \<open>
  Consistency of the device and of the bindings: an uphill pip of a wire drives that wire, and
  the pip that a net records on a wire drives that wire.
\<close>

definition uphill_pips_drive :: "Context \<Rightarrow> bool" where
  "uphill_pips_drive ctx = (\<forall>w. \<forall>p \<in> set (getPipsUphill ctx w). getPipDstWire ctx p = w)"

definition bound_pips_drive :: "Context \<Rightarrow> Router2 \<Rightarrow> int \<Rightarrow> bool" where
  "bound_pips_drive ctx s n =
     (\<forall>w wd b. wires s w = Some wd \<longrightarrow> fmlookup (bound_nets wd) n = Some b \<longrightarrow> snd b \<noteq> None \<longrightarrow>
        getPipDstWire ctx (snd b) = w)"

text \<open>
  The states of the backwards loop of \<^verbatim>\<open>route_arc\<close>: the state it starts in and every state
  after a round that the loop condition admits; likewise for the forward loop.
\<close>

inductive bwd_reachable :: "nat \<Rightarrow> Context \<Rightarrow> Router2 \<Rightarrow> NetInfo \<Rightarrow> WireId \<Rightarrow> WireId \<Rightarrow> ThreadContext \<times> int \<Rightarrow> bool"
  for fuel ctx s net src_wire dst_wire where
    bwd_start: "bwd_reachable fuel ctx s net src_wire dst_wire (bwd_init dst_wire t)"
  | bwd_round: "bwd_reachable fuel ctx s net src_wire dst_wire st \<Longrightarrow> bwd_cond st \<Longrightarrow>
       bwd_step fuel ctx s net src_wire st = Some (Inr r) \<Longrightarrow>
       bwd_reachable fuel ctx s net src_wire dst_wire (case r of Continue st1 \<Rightarrow> st1 | Break st1 \<Rightarrow> st1)"

inductive astar_reachable :: "Context \<Rightarrow> Router2 \<Rightarrow> NetInfo \<Rightarrow> nat \<Rightarrow> bool \<Rightarrow> WireId \<Rightarrow> WireId \<Rightarrow> PerArcData \<Rightarrow> AStar \<Rightarrow> bool"
  for ctx s net i is_bb src_wire dst_wire ad where
    astar_start: "queue t = [] \<Longrightarrow> astar_reachable ctx s net i is_bb src_wire dst_wire ad (astar_init ctx src_wire ad tg t)"
  | astar_round: "astar_reachable ctx s net i is_bb src_wire dst_wire ad a \<Longrightarrow> astar_cond is_bb a \<Longrightarrow>
       astar_body ctx s net i is_bb dst_wire ad a = Inr a1 \<Longrightarrow>
       astar_reachable ctx s net i is_bb src_wire dst_wire ad a1"

section \<open>Example data\<close>

text \<open>Concrete inputs on which the theorems below are instantiated.\<close>

definition ex_bb :: ArcBounds where
  "ex_bb = \<lparr>bb_x0 = 0, bb_y0 = 0, bb_x1 = 1, bb_y1 = 0\<rparr>"

definition ex_net :: NetInfo where
  "ex_net = \<lparr>udata = 0, driver = \<lparr>pr_cell = Some 0, pr_bel = Some 0\<rparr>,
             users = [\<lparr>pr_cell = Some 1, pr_bel = Some 1\<rparr>], net_wires = [], is_global = False\<rparr>"

definition ex_wd :: PerWireData where
  "ex_wd = \<lparr>bound_nets = fmempty, hist_cong_cost = 1, unavailable = False, reserved_net = -1\<rparr>"

definition ex_router :: Router2 where
  "ex_router = \<lparr>nets = [\<lparr>arcs = [\<lparr>arc_wires = [], arc_bb = ex_bb\<rparr>], net_bb = ex_bb, cx = 0, cy = 0, hpwl = 1\<rparr>],
                wires = [Some 0 \<mapsto> ex_wd, Some 1 \<mapsto> ex_wd],
                curr_cong_weight = 1 / 2, hist_cong_weight = 1,
                total_wire_use = 0, overused_wires = 0, total_overuse = 0, failed_nets = {}\<rparr>"

definition ex_wd2 :: PerWireData where
  "ex_wd2 = \<lparr>bound_nets = fmupd 0 (1, None) (fmupd 1 (2, Some 3) fmempty),
             hist_cong_cost = 1, unavailable = False, reserved_net = -1\<rparr>"

definition ex_congested :: Router2 where
  "ex_congested = \<lparr>nets = [\<lparr>arcs = [\<lparr>arc_wires = [], arc_bb = ex_bb\<rparr>], net_bb = ex_bb, cx = 0, cy = 0, hpwl = 1\<rparr>],
                wires = [Some 0 \<mapsto> ex_wd2, Some 1 \<mapsto> ex_wd],
                curr_cong_weight = 1 / 2, hist_cong_weight = 1,
                total_wire_use = 0, overused_wires = 0, total_overuse = 0, failed_nets = {}\<rparr>"

definition ex_ctx :: Context where
  "ex_ctx = \<lparr>
     getPipsUphill = (\<lambda>w. if w = Some 1 then [Some 0] else if w = Some 2 then [Some 1] else []),
     getPipsDownhill = (\<lambda>w. if w = Some 0 then [Some 0] else if w = Some 1 then [Some 1] else []),
     getPipSrcWire = (\<lambda>p. p),
     getPipDstWire = (\<lambda>p. if p = Some 0 then Some 1 else if p = Some 1 then Some 2 else None),
     checkPipAvail = (\<lambda>p. True),
     getBoundPipNet = (\<lambda>p. None),
     getPipLocation = (\<lambda>p. \<lparr>loc_x = 2, loc_y = 1, loc_z = 0\<rparr>),
     getPipDelay = (\<lambda>p. 100),
     getWireDelay = (\<lambda>w. 50),
     getDelayEpsilon = 50,
     getDelayNS = (\<lambda>d. real_of_int d / 1000),
     estimateDelay = (\<lambda>a b. 0),
     getNetinfoSourceWire = (\<lambda>n. if pr_cell (driver n) = None then None else Some 0),
     getNetinfoSinkWire = (\<lambda>n u. if pr_bel u = Some 1 then Some 2 else None),
     getRouteBoundingBox = (\<lambda>a b. ex_bb),
     getBelLocation = (\<lambda>b. \<lparr>loc_x = 0, loc_y = 0, loc_z = 0\<rparr>),
     rng_seq = (\<lambda>n. 0)\<rparr>"

definition ex_anneal :: "int anneal_vars" where
  "ex_anneal = \<lparr>temp = 10, diameter = 35, n_move = 2, n_accept = 1, max_x = 50, max_y = 40,
                curr_wirelen_cost = 1000, avg_wirelen = 1000\<rparr>"




definition ex_bound_net :: NetInfo where
  "ex_bound_net = \<lparr>udata = 0, driver = \<lparr>pr_cell = Some 0, pr_bel = Some 0\<rparr>,
                   users = [\<lparr>pr_cell = Some 2, pr_bel = Some 2\<rparr>],
                   net_wires = [(Some 0, \<lparr>pm_pip = None, pm_strength = STRENGTH_WEAK\<rparr>),
                                (Some 2, \<lparr>pm_pip = Some 0, pm_strength = STRENGTH_STRONG\<rparr>),
                                (Some 3, \<lparr>pm_pip = Some 2, pm_strength = STRENGTH_USER\<rparr>)],
                   is_global = False\<rparr>"

definition ex_bindings :: ArchBindings where
  "ex_bindings = \<lparr>wire_to_net = (\<lambda>w. if w \<in> {Some 0, Some 2, Some 3} then Some 0 else None),
                  pip_to_net = (\<lambda>p. if p \<in> {Some 0, Some 2} then Some 0 else None),
                  nets_by_udata = [ex_bound_net]\<rparr>"

definition ex_ctx_unwired :: Context where
  "ex_ctx_unwired = ex_ctx\<lparr>getNetinfoSourceWire := (\<lambda>n. None)\<rparr>"

definition ex_dangling :: NetInfo where
  "ex_dangling = ex_net\<lparr>users := []\<rparr>"

definition ex_prerouted :: NetInfo where
  "ex_prerouted = ex_net\<lparr>net_wires := [(Some 2, \<lparr>pm_pip = Some 1, pm_strength = STRENGTH_USER\<rparr>)]\<rparr>"

definition ex_thread :: ThreadContext where
  "ex_thread = \<lparr>route_arcs = [], queue = [], visited = Map.empty, processed_sinks = {},
                backwards_queue = [], backwards_pip = Map.empty, rng_pos = 0\<rparr>"

definition ex_ctx_far :: Context where
  "ex_ctx_far = ex_ctx\<lparr>getPipLocation := (\<lambda>p. if p = Some (Suc 0) then \<lparr>loc_x = 100, loc_y = 0, loc_z = 0\<rparr>
                                             else \<lparr>loc_x = 0, loc_y = 0, loc_z = 0\<rparr>)\<rparr>"

definition ex_wd_other :: PerWireData where
  "ex_wd_other = \<lparr>bound_nets = fmupd 7 (2, Some 5) fmempty, hist_cong_cost = 1, unavailable = False,
                  reserved_net = - 1\<rparr>"

definition ex_search :: Router2 where
  "ex_search = ex_router\<lparr>wires := [Some 0 \<mapsto> ex_wd, Some (Suc 0) \<mapsto> ex_wd_other, Some 2 \<mapsto> ex_wd]\<rparr>"

abbreviation fuel3 :: nat where
  "fuel3 \<equiv> Suc (Suc (Suc 0))"

definition ex_arc :: PerArcData where
  "ex_arc = \<lparr>arc_wires = [], arc_bb = ex_bb\<rparr>"

definition ex_wd_resv :: PerWireData where
  "ex_wd_resv = \<lparr>bound_nets = fmempty, hist_cong_cost = 1, unavailable = False, reserved_net = 7\<rparr>"

definition ex_resv_sink :: Router2 where
  "ex_resv_sink = ex_router\<lparr>wires := [Some 0 \<mapsto> ex_wd, Some (Suc 0) \<mapsto> ex_wd, Some 2 \<mapsto> ex_wd_resv]\<rparr>"

definition ex_ctx_diamond :: Context where
  "ex_ctx_diamond = ex_ctx\<lparr>
     getPipsUphill := (\<lambda>w. if w = Some 3 then [Some 3] else if w = Some 4 then [Some 4]
                            else if w = Some 2 then [Some 5, Some 6] else []),
     getPipsDownhill := (\<lambda>w. if w = Some 0 then [Some 3, Some 4] else if w = Some 3 then [Some 5]
                              else if w = Some 4 then [Some 6] else []),
     getPipSrcWire := (\<lambda>p. if p = Some 3 \<or> p = Some 4 then Some 0 else if p = Some 5 then Some 3
                            else if p = Some 6 then Some 4 else None),
     getPipDstWire := (\<lambda>p. if p = Some 3 then Some 3 else if p = Some 4 then Some 4
                            else if p = Some 5 \<or> p = Some 6 then Some 2 else None)\<rparr>"

definition ex_diamond :: Router2 where
  "ex_diamond = ex_router\<lparr>wires := [Some 0 \<mapsto> ex_wd, Some 2 \<mapsto> ex_wd, Some 3 \<mapsto> ex_wd, Some 4 \<mapsto> ex_wd_resv]\<rparr>"

abbreviation fuel4 :: nat where
  "fuel4 \<equiv> Suc (Suc (Suc (Suc 0)))"

definition ex_diamond_round :: "ThreadContext \<times> int" where
  "ex_diamond_round = (ex_thread\<lparr>backwards_queue := [Some 3], backwards_pip := [Some 3 \<mapsto> Some 5]\<rparr>, 1)"

definition ex_resv_sink_routed :: Router2 where
  "ex_resv_sink_routed = ex_router\<lparr>
     nets := [\<lparr>arcs = [\<lparr>arc_wires = [(Some 0, None), (Some (Suc 0), Some 0), (Some 2, Some (Suc 0))],
                         arc_bb = ex_bb\<rparr>],
               net_bb = ex_bb, cx = 0, cy = 0, hpwl = 1\<rparr>],
     wires := [Some 0 \<mapsto> ex_wd\<lparr>bound_nets := fmupd 0 (1, None) fmempty\<rparr>,
               Some (Suc 0) \<mapsto> ex_wd\<lparr>bound_nets := fmupd 0 (1, Some 0) fmempty\<rparr>,
               Some 2 \<mapsto> ex_wd_resv\<lparr>bound_nets := fmupd 0 (1, Some (Suc 0)) fmempty\<rparr>]\<rparr>"

definition ex_thread_routed :: ThreadContext where
  "ex_thread_routed = ex_thread\<lparr>backwards_pip := [Some (Suc 0) \<mapsto> Some (Suc 0), Some 0 \<mapsto> Some 0],
                                 processed_sinks := {Some 2}\<rparr>"

definition ex_other_net :: NetInfo where
  "ex_other_net = \<lparr>udata = 1, driver = \<lparr>pr_cell = Some 3, pr_bel = Some 3\<rparr>,
                   users = [\<lparr>pr_cell = Some 4, pr_bel = Some 4\<rparr>],
                   net_wires = [(Some 5, \<lparr>pm_pip = None, pm_strength = STRENGTH_WEAK\<rparr>)],
                   is_global = False\<rparr>"

definition ex_bindings_two :: ArchBindings where
  "ex_bindings_two = \<lparr>wire_to_net = (\<lambda>w. if w \<in> {Some 0, Some 2, Some 3} then Some 0
                                           else if w = Some 5 then Some 1 else None),
                      pip_to_net = (\<lambda>p. if p \<in> {Some 0, Some 2} then Some 0 else None),
                      nets_by_udata = [ex_bound_net, ex_other_net]\<rparr>"

text \<open>
  Data for the placer examples.  In the examples \<^verbatim>\<open>wirelen_t\<close> is an integer type, converted
  exactly to \<^verbatim>\<open>double\<close> (all costs are far below \<open>2 ^ 53\<close>) and back by truncation.  Two cells
  on bels 0 and 2 with no placement constraints; cost changes of a swap that raise, or lower,
  the wire length by 4.
\<close>

definition wirelen_of_double :: "real \<Rightarrow> int" where
  "wirelen_of_double d = int_of_double (Finite d)"

definition ex_anneal_tie :: "int anneal_vars" where
  "ex_anneal_tie = \<lparr>temp = 10, diameter = 50, n_move = 100, n_accept = 57, max_x = 99, max_y = 99,
                    curr_wirelen_cost = 1000, avg_wirelen = 1000\<rparr>"

definition ex_anneal_tie_odd :: "int anneal_vars" where
  "ex_anneal_tie_odd = \<lparr>temp = 10, diameter = 50, n_move = 100, n_accept = 59, max_x = 99, max_y = 99,
                        curr_wirelen_cost = 1000, avg_wirelen = 1000\<rparr>"

definition ex_anneal_idle :: "int anneal_vars" where
  "ex_anneal_idle = \<lparr>temp = 10, diameter = 35, n_move = 0, n_accept = 0, max_x = 50, max_y = 40,
                     curr_wirelen_cost = 1000, avg_wirelen = 1000\<rparr>"

definition ex_anneal_drop :: "int anneal_vars" where
  "ex_anneal_drop = \<lparr>temp = 10, diameter = 35, n_move = 2, n_accept = 1, max_x = 50, max_y = 40,
                     curr_wirelen_cost = 900, avg_wirelen = 1000\<rparr>"






section \<open>Properties\<close>

lemma update_arc_wires: "update_arc i j f s = Inr s1 \<Longrightarrow> wires s1 = wires s"
  by (auto simp: update_arc_def split: sum.splits)

lemma update_arc_defined_iff:
  "(\<exists>s1. update_arc i j f s = Inr s1) \<longleftrightarrow> (0 \<le> i \<and> nat i < length (nets s) \<and> j < length (arcs (nets s ! nat i)))"
  by (auto simp: update_arc_def nets_at_def arcs_at_def split: sum.splits if_splits)

lemma update_arc_shape:
  "update_arc i j f s = Inr s1 \<Longrightarrow>
     0 \<le> i \<and> nat i < length (nets s1) \<and> j < length (arcs (nets s1 ! nat i))"
  by (auto simp: update_arc_def nets_at_def arcs_at_def split: sum.splits if_splits)

lemma bind_wires:
  assumes "bind_pip_internal net user w p s = Inr s1"
  shows "\<exists>wd. wires s w = Some wd \<and>
           (fmlookup (bound_nets wd) (udata net) = None
            \<or> (\<exists>c. fmlookup (bound_nets wd) (udata net) = Some (c, p))
            \<or> (\<exists>q. fmlookup (bound_nets wd) (udata net) = Some (0, q))) \<and>
           wires s1 = (wires s)(w \<mapsto> wd\<lparr>bound_nets :=
              fmupd (udata net) (fst (bn_entry (bound_nets wd) (udata net)) + 1, p) (bound_nets wd)\<rparr>)"
  using assms
  by (auto simp: bind_pip_internal_def Let_def bn_entry_def dest!: update_arc_wires split: option.splits if_splits)

lemma bind_shape:
  assumes "bind_pip_internal net user w p s = Inr s1"
  shows "0 \<le> udata net \<and> nat (udata net) < length (nets s1) \<and> user < length (arcs (nets s1 ! nat (udata net)))"
proof -
  from assms obtain s0 f where "update_arc (udata net) user f s0 = Inr s1"
    by (auto simp: bind_pip_internal_def Let_def split: option.splits if_splits)
  then show ?thesis by (rule update_arc_shape)
qed

lemma unbind_wires:
  assumes "unbind_pip_internal net user w d s = Inr s1"
  shows "\<exists>wd. wires s w = Some wd \<and>
           wires s1 = (wires s)(w \<mapsto> wd\<lparr>bound_nets :=
              (if fst (bn_entry (bound_nets wd) (udata net)) = 1 then fmdrop (udata net) (bound_nets wd)
               else fmupd (udata net) (fst (bn_entry (bound_nets wd) (udata net)) - 1, snd (bn_entry (bound_nets wd) (udata net))) (bound_nets wd))\<rparr>)"
proof (cases "wires s w")
  case None
  with assms show ?thesis by (simp add: unbind_pip_internal_def)
next
  case (Some wd)
  define bn where "bn = (if fst (bn_entry (bound_nets wd) (udata net)) - 1 = 0 then fmdrop (udata net) (bound_nets wd)
               else fmupd (udata net) (fst (bn_entry (bound_nets wd) (udata net)) - 1, snd (bn_entry (bound_nets wd) (udata net))) (bound_nets wd))"
  define s0 where "s0 = s\<lparr>wires := (wires s)(w \<mapsto> wd\<lparr>bound_nets := bn\<rparr>)\<rparr>"
  have u: "unbind_pip_internal net user w d s =
          (if \<not> d then update_arc (udata net) user (\<lambda>ad. ad\<lparr>arc_wires := AList.delete w (arc_wires ad)\<rparr>) s0
           else Inr s0)"
    using Some by (simp add: unbind_pip_internal_def Let_def bn_def s0_def)
  have "wires s1 = wires s0"
  proof (cases d)
    case True with u assms show ?thesis by simp
  next
    case False
    with u assms have "update_arc (udata net) user (\<lambda>ad. ad\<lparr>arc_wires := AList.delete w (arc_wires ad)\<rparr>) s0 = Inr s1"
      by simp
    then show ?thesis by (rule update_arc_wires)
  qed
  then show ?thesis using Some by (simp add: s0_def bn_def)
qed

lemma refcount_invD:
  "refcount_inv s \<Longrightarrow> wires s w = Some wd \<Longrightarrow> fmlookup (bound_nets wd) n = Some b \<Longrightarrow> 1 \<le> fst b"
  unfolding refcount_inv_def by blast

lemma refcount_inv_upd:
  assumes "refcount_inv s" "wires s w = Some wd"
    and "wires s1 = (wires s)(w \<mapsto> wd\<lparr>bound_nets := bn\<rparr>)"
    and "\<And>n b. fmlookup bn n = Some b \<Longrightarrow> n \<noteq> k \<Longrightarrow> fmlookup (bound_nets wd) n = Some b"
    and "\<And>b. fmlookup bn k = Some b \<Longrightarrow> 1 \<le> fst b"
  shows "refcount_inv s1"
  unfolding refcount_inv_def
proof (intro allI impI)
  fix w' wd' n b
  assume a: "wires s1 w' = Some wd'" "fmlookup (bound_nets wd') n = Some b"
  show "1 \<le> fst b"
  proof (cases "w' = w")
    case True
    with a assms(3) have l: "fmlookup bn n = Some b" by auto
    show ?thesis
    proof (cases "n = k")
      case True with l assms(5) show ?thesis by blast
    next
      case False
      with l assms(4) have "fmlookup (bound_nets wd) n = Some b" by blast
      with assms(1,2) show ?thesis by (rule refcount_invD)
    qed
  next
    case False
    with a(1) assms(3) have "wires s w' = Some wd'" by auto
    with assms(1) show ?thesis using a(2) by (rule refcount_invD)
  qed
qed

lemma bind_preserves_inv:
  assumes "refcount_inv s" "bind_pip_internal net user w p s = Inr s1"
  shows "refcount_inv s1"
proof -
  from bind_wires[OF assms(2)] obtain wd where
    wd: "wires s w = Some wd" and
    w1: "wires s1 = (wires s)(w \<mapsto> wd\<lparr>bound_nets :=
              fmupd (udata net) (fst (bn_entry (bound_nets wd) (udata net)) + 1, p) (bound_nets wd)\<rparr>)"
    by blast
  have ge: "0 \<le> fst (bn_entry (bound_nets wd) (udata net))"
  proof (cases "fmlookup (bound_nets wd) (udata net)")
    case None then show ?thesis by (simp add: bn_entry_def)
  next
    case (Some b)
    with refcount_invD[OF assms(1) wd Some] show ?thesis by (simp add: bn_entry_def)
  qed
  show ?thesis
    by (rule refcount_inv_upd[OF assms(1) wd w1, where k = "udata net"]) (use ge in \<open>auto split: if_splits\<close>)
qed

lemma unbind_preserves_inv:
  assumes "refcount_inv s" "unbind_pip_internal net user w d s = Inr s1"
    and "wires s w = Some wd" "fmlookup (bound_nets wd) (udata net) = Some (c, q)"
  shows "refcount_inv s1 \<and> (\<exists>wd1. wires s1 w = Some wd1 \<and>
           fmlookup (bound_nets wd1) (udata net) = (if c = 1 then None else Some (c - 1, q)))"
proof -
  have e: "bn_entry (bound_nets wd) (udata net) = (c, q)"
    using assms(4) by (simp add: bn_entry_def)
  from unbind_wires[OF assms(2)] assms(3) e have
    w1: "wires s1 = (wires s)(w \<mapsto> wd\<lparr>bound_nets :=
              (if c = 1 then fmdrop (udata net) (bound_nets wd)
               else fmupd (udata net) (c - 1, q) (bound_nets wd))\<rparr>)"
    by auto
  have c1: "1 \<le> c" using refcount_invD[OF assms(1,3,4)] by simp
  have inv: "refcount_inv s1"
    by (rule refcount_inv_upd[OF assms(1,3) w1, where k = "udata net"]) (use c1 in \<open>auto split: if_splits\<close>)
  show ?thesis using inv w1 by auto
qed

lemma bind_then_unbind:
  assumes "refcount_inv s" "bind_pip_internal net user w p s = Inr s1"
  shows "\<exists>s2. unbind_pip_internal net user w d s1 = Inr s2 \<and> wires s2 = wires s"
proof -
  from bind_wires[OF assms(2)] obtain wd where
    wd: "wires s w = Some wd" and
    cases: "fmlookup (bound_nets wd) (udata net) = None
            \<or> (\<exists>c. fmlookup (bound_nets wd) (udata net) = Some (c, p))
            \<or> (\<exists>q. fmlookup (bound_nets wd) (udata net) = Some (0, q))" and
    w1: "wires s1 = (wires s)(w \<mapsto> wd\<lparr>bound_nets :=
              fmupd (udata net) (fst (bn_entry (bound_nets wd) (udata net)) + 1, p) (bound_nets wd)\<rparr>)"
    by blast
  let ?bn = "bound_nets wd" and ?n = "udata net"
  have no0: "\<And>q. fmlookup ?bn ?n \<noteq> Some (0, q)"
    using refcount_invD[OF assms(1) wd] by fastforce
  define bn2 where "bn2 = (if fst (bn_entry ?bn ?n) + 1 - 1 = 0 then fmdrop ?n (fmupd ?n (fst (bn_entry ?bn ?n) + 1, p) ?bn)
                     else fmupd ?n (fst (bn_entry ?bn ?n) + 1 - 1, p) (fmupd ?n (fst (bn_entry ?bn ?n) + 1, p) ?bn))"
  have bn2: "bn2 = ?bn"
  proof (cases "fmlookup ?bn ?n")
    case None
    then have "fmdrop ?n (fmupd ?n (1, p) ?bn) = ?bn"
      by (simp add: fmdrop_fmupd_same fmdrop_idle' fmdom'_notI)
    with None show ?thesis by (simp add: bn2_def bn_entry_def)
  next
    case (Some b)
    with cases no0 obtain c where c: "fmlookup ?bn ?n = Some (c, p)" by auto
    with refcount_invD[OF assms(1) wd] have "1 \<le> c" by fastforce
    moreover have "fmupd ?n (c, p) ?bn = ?bn"
      using c by (intro fmap_ext) auto
    ultimately show ?thesis using c by (simp add: bn2_def bn_entry_def)
  qed
  let ?s1' = "s1\<lparr>wires := (wires s1)(w \<mapsto> (the (wires s1 w))\<lparr>bound_nets := bn2\<rparr>)\<rparr>"
  have ws: "(wires s1)(w \<mapsto> (the (wires s1 w))\<lparr>bound_nets := bn2\<rparr>) = wires s"
    using w1 wd bn2 by (auto simp: fun_upd_idem)
  have "unbind_pip_internal net user w d s1 =
          (if \<not> d then update_arc ?n user (\<lambda>ad. ad\<lparr>arc_wires := AList.delete w (arc_wires ad)\<rparr>) ?s1'
           else Inr ?s1')"
    using w1 by (simp add: unbind_pip_internal_def Let_def bn2_def bn_entry_def)
  moreover obtain s2 where "update_arc ?n user (\<lambda>ad. ad\<lparr>arc_wires := AList.delete w (arc_wires ad)\<rparr>) ?s1' = Inr s2"
    using bind_shape[OF assms(2)] update_arc_defined_iff[of ?n user _ ?s1'] by auto
  ultimately show ?thesis
    using ws by (cases d) (auto dest: update_arc_wires)
qed

lemma bind_assert:
  assumes "refcount_inv s" "wires s w = Some wd" "fmlookup (bound_nets wd) (udata net) = Some (c, q)" "q \<noteq> p"
  shows "bind_pip_internal net user w p s = Inl AssertionFailure"
proof -
  have "1 \<le> c" using refcount_invD[OF assms(1-3)] by simp
  then show ?thesis using assms(2-4)
    by (simp add: bind_pip_internal_def Let_def bn_entry_def)
qed

lemma bind_returns:
  assumes "wires s w = Some wd"
    and "0 \<le> udata net" "nat (udata net) < length (nets s)" "user < length (arcs (nets s ! nat (udata net)))"
    and "fmlookup (bound_nets wd) (udata net) = None \<or> (\<exists>c. fmlookup (bound_nets wd) (udata net) = Some (c, p))"
  shows "\<exists>s1 wd1. bind_pip_internal net user w p s = Inr s1 \<and> wires s1 w = Some wd1
           \<and> fmlookup (bound_nets wd1) (udata net)
                = Some (case fmlookup (bound_nets wd) (udata net) of None \<Rightarrow> 1 | Some b \<Rightarrow> fst b + 1, p)"
proof -
  let ?n = "udata net"
  let ?c = "fst (bn_entry (bound_nets wd) ?n)"
  let ?s0 = "s\<lparr>wires := (wires s)(w \<mapsto> wd\<lparr>bound_nets := fmupd ?n (?c + 1, p) (bound_nets wd)\<rparr>)\<rparr>"
  let ?f = "\<lambda>ad. ad\<lparr>arc_wires := AList.update w p (arc_wires ad)\<rparr>"
  have e: "bind_pip_internal net user w p s = update_arc ?n user ?f ?s0"
  proof (cases "fmlookup (bound_nets wd) ?n")
    case None
    then show ?thesis using assms(1) by (simp add: bind_pip_internal_def Let_def bn_entry_def)
  next
    case (Some b)
    with assms(5) obtain c where c: "fmlookup (bound_nets wd) ?n = Some (c, p)" by auto
    then show ?thesis using assms(1) by (simp add: bind_pip_internal_def Let_def bn_entry_def)
  qed
  from assms(2-4) obtain s1 where s1: "update_arc ?n user ?f ?s0 = Inr s1"
    using update_arc_defined_iff[of ?n user ?f ?s0] by auto
  from update_arc_wires[OF s1] have "wires s1 w = Some (wd\<lparr>bound_nets := fmupd ?n (?c + 1, p) (bound_nets wd)\<rparr>)"
    by simp
  moreover have "fmlookup (fmupd ?n (?c + 1, p) (bound_nets wd)) ?n
      = Some (case fmlookup (bound_nets wd) ?n of None \<Rightarrow> 1 | Some b \<Rightarrow> fst b + 1, p)"
    by (simp add: bn_entry_def split: option.splits)
  ultimately have "bind_pip_internal net user w p s = Inr s1
      \<and> wires s1 w = Some (wd\<lparr>bound_nets := fmupd ?n (?c + 1, p) (bound_nets wd)\<rparr>)
      \<and> fmlookup (bound_nets (wd\<lparr>bound_nets := fmupd ?n (?c + 1, p) (bound_nets wd)\<rparr>)) ?n
           = Some (case fmlookup (bound_nets wd) ?n of None \<Rightarrow> 1 | Some b \<Rightarrow> fst b + 1, p)"
    using e s1 by simp
  then show ?thesis by (intro exI)
qed

lemma filter_length_update:
  "j < length xs \<Longrightarrow>
     int (length (filter P (xs[j := x])))
       = int (length (filter P xs)) - (if P (xs ! j) then 1 else 0) + (if P x then 1 else 0)"
proof (induction xs arbitrary: j)
  case Nil
  then show ?case by simp
next
  case (Cons a xs)
  show ?case
  proof (cases j)
    case 0
    then show ?thesis by simp
  next
    case (Suc k)
    with Cons.prems have "k < length xs" by simp
    from Cons.IH[OF this] Suc show ?thesis by (auto split: if_splits)
  qed
qed

lemma filter_length_pos: "x \<in> set xs \<Longrightarrow> P x \<Longrightarrow> 1 \<le> int (length (filter P xs))"
proof -
  assume "x \<in> set xs" "P x"
  then have "x \<in> set (filter P xs)" by simp
  then have "0 < length (filter P xs)" by (rule length_pos_if_in_set)
  then show ?thesis by linarith
qed

lemma update_arc_nets:
  assumes "update_arc n user f s = Inr s1"
  shows "0 \<le> n \<and> nat n < length (nets s) \<and> user < length (arcs (nets s ! nat n))
       \<and> s1 = s\<lparr>nets := (nets s)[nat n := (nets s ! nat n)\<lparr>arcs := (arcs (nets s ! nat n))[user := f (arcs (nets s ! nat n) ! user)]\<rparr>]\<rparr>"
  using assms by (auto simp: update_arc_def nets_at_def arcs_at_def split: if_splits)

lemma arc_uses_update_arc:
  assumes "update_arc n user f s = Inr s1"
  shows "arc_uses s1 m w = arc_uses s m w
           + (if m = n then (if w \<in> fst ` set (arc_wires (f (arcs (nets s ! nat n) ! user))) then 1 else 0)
                           - (if w \<in> fst ` set (arc_wires (arcs (nets s ! nat n) ! user)) then 1 else 0)
              else 0)"
proof -
  note u = update_arc_nets[OF assms]
  let ?nd = "nets s ! nat n"
  let ?ad = "arcs ?nd ! user"
  from u have s1: "nets s1 = (nets s)[nat n := ?nd\<lparr>arcs := (arcs ?nd)[user := f ?ad]\<rparr>]" by simp
  have len: "length (nets s1) = length (nets s)" by (simp add: s1)
  show ?thesis
  proof (cases "m = n")
    case True
    have "nets s1 ! nat n = ?nd\<lparr>arcs := (arcs ?nd)[user := f ?ad]\<rparr>" using u by (simp add: s1)
    then have "arc_uses s1 n w = int (length (filter (\<lambda>ad. w \<in> fst ` set (arc_wires ad)) ((arcs ?nd)[user := f ?ad])))"
      using u len by (simp add: arc_uses_def nets_at_def)
    also have "\<dots> = int (length (filter (\<lambda>ad. w \<in> fst ` set (arc_wires ad)) (arcs ?nd)))
                      - (if w \<in> fst ` set (arc_wires ?ad) then 1 else 0)
                      + (if w \<in> fst ` set (arc_wires (f ?ad)) then 1 else 0)"
      using u by (simp add: filter_length_update)
    also have "int (length (filter (\<lambda>ad. w \<in> fst ` set (arc_wires ad)) (arcs ?nd))) = arc_uses s n w"
      using u by (simp add: arc_uses_def nets_at_def)
    finally show ?thesis using True by simp
  next
    case False
    show ?thesis
    proof (cases "0 \<le> m \<and> nat m < length (nets s)")
      case True
      with False u have "nat m \<noteq> nat n" by auto
      then have "nets s1 ! nat m = nets s ! nat m" by (simp add: s1)
      then show ?thesis using False True len by (simp add: arc_uses_def nets_at_def)
    next
      case False
      then show ?thesis using \<open>m \<noteq> n\<close> len by (auto simp: arc_uses_def nets_at_def)
    qed
  qed
qed

lemma update_arc_distinct:
  assumes "update_arc n user f s = Inr s1"
    and "\<forall>nd \<in> set (nets s). \<forall>ad \<in> set (arcs nd). distinct (map fst (arc_wires ad))"
    and "distinct (map fst (arc_wires (f (arcs (nets s ! nat n) ! user))))"
  shows "\<forall>nd \<in> set (nets s1). \<forall>ad \<in> set (arcs nd). distinct (map fst (arc_wires ad))"
proof (intro ballI)
  fix nd ad assume a: "nd \<in> set (nets s1)" "ad \<in> set (arcs nd)"
  note u = update_arc_nets[OF assms(1)]
  let ?nd = "nets s ! nat n"
  let ?ad = "arcs ?nd ! user"
  from u have s1: "nets s1 = (nets s)[nat n := ?nd\<lparr>arcs := (arcs ?nd)[user := f ?ad]\<rparr>]" by simp
  from a(1) have "nd \<in> set (nets s) \<or> nd = ?nd\<lparr>arcs := (arcs ?nd)[user := f ?ad]\<rparr>"
    unfolding s1 using set_update_subset_insert[of "nets s" "nat n"] by blast
  then show "distinct (map fst (arc_wires ad))"
  proof
    assume "nd \<in> set (nets s)"
    with assms(2) a(2) show ?thesis by blast
  next
    assume e: "nd = ?nd\<lparr>arcs := (arcs ?nd)[user := f ?ad]\<rparr>"
    with a(2) have "ad \<in> set (arcs ?nd) \<or> ad = f ?ad"
      using set_update_subset_insert[of "arcs ?nd" user] by auto
    moreover have "?nd \<in> set (nets s)" using u by simp
    ultimately show ?thesis using assms(2,3) by blast
  qed
qed

lemma source_uses_nonneg:
  "refcount_inv s \<Longrightarrow> wires s w = Some wd \<Longrightarrow> 0 \<le> source_uses wd n"
  by (auto simp: source_uses_def dest: refcount_invD split: option.splits)

lemma bind_keeps_covered:
  assumes "refcount_inv s" "arcs_covered s" "bind_pip_internal net user w p s = Inr s1"
  shows "arcs_covered s1"
proof -
  let ?n = "udata net"
  let ?f = "\<lambda>ad. ad\<lparr>arc_wires := AList.update w p (arc_wires ad)\<rparr>"
  from bind_wires[OF assms(3)] obtain wd where
    wd: "wires s w = Some wd" and
    w1: "wires s1 = (wires s)(w \<mapsto> wd\<lparr>bound_nets :=
              fmupd ?n (fst (bn_entry (bound_nets wd) ?n) + 1, p) (bound_nets wd)\<rparr>)"
    by blast
  let ?wd1 = "wd\<lparr>bound_nets := fmupd ?n (fst (bn_entry (bound_nets wd) ?n) + 1, p) (bound_nets wd)\<rparr>"
  let ?s0 = "s\<lparr>wires := (wires s)(w \<mapsto> ?wd1)\<rparr>"
  have u: "update_arc ?n user ?f ?s0 = Inr s1"
    using assms(3) wd
    by (auto simp: bind_pip_internal_def Let_def bn_entry_def split: option.splits if_splits)
  let ?ad = "arcs (nets s ! nat ?n) ! user"
  note un = update_arc_nets[OF u]
  have su: "source_uses ?wd1 m = source_uses wd m + (if m = ?n then 1 else 0)" for m
    by (simp add: source_uses_def bn_entry_def split: option.splits)
  have au0: "arc_uses ?s0 m w' = arc_uses s m w'" for m w'
    by (simp add: arc_uses_def nets_at_def)
  have keys: "fst ` set (AList.update w p al) = insert w (fst ` set al)" for al :: "(WireId \<times> PipId) list"
    using AList.dom_update[of w p al] by simp
  have au: "arc_uses s1 m w' = arc_uses s m w'
              + (if m = ?n \<and> w' = w \<and> w \<notin> fst ` set (arc_wires ?ad) then 1 else 0)" for m w'
    using arc_uses_update_arc[OF u, of m w'] by (auto simp: au0 keys)
  have d: "\<forall>nd \<in> set (nets s1). \<forall>ad \<in> set (arcs nd). distinct (map fst (arc_wires ad))"
  proof (rule update_arc_distinct[OF u])
    show "\<forall>nd \<in> set (nets ?s0). \<forall>ad \<in> set (arcs nd). distinct (map fst (arc_wires ad))"
      using assms(2) by (simp add: arcs_covered_def)
    have "nets s ! nat ?n \<in> set (nets s)" "?ad \<in> set (arcs (nets s ! nat ?n))" using un by simp_all
    with assms(2) have "distinct (map fst (arc_wires ?ad))" unfolding arcs_covered_def by blast
    then show "distinct (map fst (arc_wires (?f (arcs (nets ?s0 ! nat ?n) ! user))))"
      by (simp add: AList.distinct_update)
  qed
  have c: "\<exists>wd'. wires s1 w' = Some wd' \<and> arc_uses s1 m w' \<le> source_uses wd' m" if p: "0 < arc_uses s1 m w'" for m w'
  proof (cases "w' = w")
    case True
    have "arc_uses s m w \<le> source_uses wd m"
    proof (cases "0 < arc_uses s m w")
      case True
      with assms(2) wd show ?thesis unfolding arcs_covered_def by fastforce
    next
      case False
      then show ?thesis using source_uses_nonneg[OF assms(1) wd, of m] by simp
    qed
    moreover have "wires s1 w = Some ?wd1" using w1 by simp
    ultimately show ?thesis using True au[of m w] su[of m] by auto
  next
    case False
    then have e: "arc_uses s1 m w' = arc_uses s m w'" using au[of m w'] by simp
    with p assms(2) obtain wd' where "wires s w' = Some wd'" "arc_uses s m w' \<le> source_uses wd' m"
      unfolding arcs_covered_def by fastforce
    then show ?thesis using False w1 e by simp
  qed
  show ?thesis unfolding arcs_covered_def using d c by blast
qed

lemma arcs_coveredD:
  "arcs_covered s \<Longrightarrow> 0 < arc_uses s n w \<Longrightarrow>
     \<exists>wd. wires s w = Some wd \<and> arc_uses s n w \<le> source_uses wd n"
  unfolding arcs_covered_def by blast

lemma unbind_keep_arc:
  assumes "wires s w = Some wd" "fmlookup (bound_nets wd) (udata net) = Some (c, q)"
  shows "unbind_pip_internal net user w True s
           = Inr (s\<lparr>wires := (wires s)(w \<mapsto> wd\<lparr>bound_nets :=
                     (if c = 1 then fmdrop (udata net) (bound_nets wd)
                      else fmupd (udata net) (c - 1, q) (bound_nets wd))\<rparr>)\<rparr>)"
  using assms by (simp add: unbind_pip_internal_def Let_def bn_entry_def)

lemma unbind_all_effect:
  assumes "refcount_inv s" "distinct ws"
    and "\<forall>w \<in> set ws. \<exists>wd. wires s w = Some wd \<and> 1 \<le> source_uses wd (udata net)"
  shows "\<exists>s1. unbind_all net user ws s = Inr s1 \<and> nets s1 = nets s \<and> refcount_inv s1
           \<and> (\<forall>w. w \<notin> set ws \<longrightarrow> wires s1 w = wires s w)
           \<and> (\<forall>w \<in> set ws. \<exists>wd wd1. wires s w = Some wd \<and> wires s1 w = Some wd1
                  \<and> (\<forall>m. source_uses wd1 m = source_uses wd m - (if m = udata net then 1 else 0)))"
  using assms
proof (induction ws arbitrary: s)
  case Nil
  then show ?case by simp
next
  case (Cons w ws)
  let ?n = "udata net"
  from Cons.prems(3) obtain wd where wd: "wires s w = Some wd" and ge: "1 \<le> source_uses wd ?n" by auto
  from ge obtain c q where l: "fmlookup (bound_nets wd) ?n = Some (c, q)"
    by (auto simp: source_uses_def split: option.splits)
  define wd1 where "wd1 = wd\<lparr>bound_nets := (if c = 1 then fmdrop ?n (bound_nets wd)
                                              else fmupd ?n (c - 1, q) (bound_nets wd))\<rparr>"
  define s' where "s' = s\<lparr>wires := (wires s)(w \<mapsto> wd1)\<rparr>"
  have u: "unbind_pip_internal net user w True s = Inr s'"
    using unbind_keep_arc[OF wd l] by (simp add: s'_def wd1_def)
  from unbind_preserves_inv[OF Cons.prems(1) u wd l] have inv': "refcount_inv s'" by blast
  have su: "source_uses wd1 m = source_uses wd m - (if m = ?n then 1 else 0)" for m
    using l by (simp add: wd1_def source_uses_def)
  have dis: "distinct ws" "w \<notin> set ws" using Cons.prems(2) by simp_all
  have pre: "\<forall>v \<in> set ws. \<exists>wd. wires s' v = Some wd \<and> 1 \<le> source_uses wd ?n"
    using Cons.prems(3) dis(2) by (auto simp: s'_def)
  from Cons.IH[OF inv' dis(1) pre] obtain s1 where
    r: "unbind_all net user ws s' = Inr s1" "nets s1 = nets s'" "refcount_inv s1"
       "\<forall>v. v \<notin> set ws \<longrightarrow> wires s1 v = wires s' v"
       "\<forall>v \<in> set ws. \<exists>wd wd1. wires s' v = Some wd \<and> wires s1 v = Some wd1
                  \<and> (\<forall>m. source_uses wd1 m = source_uses wd m - (if m = ?n then 1 else 0))"
    by blast
  have a: "unbind_all net user (w # ws) s = Inr s1" using u r(1) by simp
  have b: "nets s1 = nets s" using r(2) by (simp add: s'_def)
  have c: "\<forall>v. v \<notin> set (w # ws) \<longrightarrow> wires s1 v = wires s v"
    using r(4) by (auto simp: s'_def)
  have d: "\<forall>v \<in> set (w # ws). \<exists>wd wd1. wires s v = Some wd \<and> wires s1 v = Some wd1
                  \<and> (\<forall>m. source_uses wd1 m = source_uses wd m - (if m = ?n then 1 else 0))"
  proof
    fix v assume v: "v \<in> set (w # ws)"
    show "\<exists>wd wd1. wires s v = Some wd \<and> wires s1 v = Some wd1
                  \<and> (\<forall>m. source_uses wd1 m = source_uses wd m - (if m = ?n then 1 else 0))"
    proof (cases "v = w")
      case True
      have "wires s1 w = Some wd1" using r(4) dis(2) by (simp add: s'_def)
      with wd su True show ?thesis by blast
    next
      case False
      with v have vs: "v \<in> set ws" by simp
      with r(5) obtain wa wb where "wires s' v = Some wa" "wires s1 v = Some wb"
        "\<forall>m. source_uses wb m = source_uses wa m - (if m = ?n then 1 else 0)" by blast
      moreover have "wires s' v = wires s v" using False by (simp add: s'_def)
      ultimately show ?thesis by auto
    qed
  qed
  from a b r(3) c d show ?case by blast
qed

lemma ripup_arc_keeps_covered:
  assumes "refcount_inv s" "arcs_covered s"
    and "0 \<le> udata net" "nat (udata net) < length (nets s)"
    and "user < length (arcs (nets s ! nat (udata net)))"
  shows "\<exists>s1. ripup_arc net user s = Inr s1 \<and> refcount_inv s1 \<and> arcs_covered s1
           \<and> arc_wires (arcs (nets s1 ! nat (udata net)) ! user) = []
           \<and> (\<forall>w. w \<notin> fst ` set (arc_wires (arcs (nets s ! nat (udata net)) ! user)) \<longrightarrow> wires s1 w = wires s w)
           \<and> (\<forall>w \<in> fst ` set (arc_wires (arcs (nets s ! nat (udata net)) ! user)).
                \<exists>wd wd1. wires s w = Some wd \<and> wires s1 w = Some wd1
                  \<and> 1 \<le> source_uses wd (udata net)
                  \<and> source_uses wd1 (udata net) = source_uses wd (udata net) - 1)"
proof -
  let ?n = "udata net"
  let ?nd = "nets s ! nat ?n"
  let ?ad = "arcs ?nd ! user"
  let ?ws = "map fst (arc_wires ?ad)"
  have mem: "?nd \<in> set (nets s)" "?ad \<in> set (arcs ?nd)" using assms(4,5) by simp_all
  with assms(2) have dis: "distinct ?ws" unfolding arcs_covered_def by blast
  have pre: "\<forall>w \<in> set ?ws. \<exists>wd. wires s w = Some wd \<and> 1 \<le> source_uses wd ?n"
  proof
    fix w assume "w \<in> set ?ws"
    then have "w \<in> fst ` set (arc_wires ?ad)" by simp
    with mem(2) have "1 \<le> int (length (filter (\<lambda>ad. w \<in> fst ` set (arc_wires ad)) (arcs ?nd)))"
      by (rule filter_length_pos)
    then have ge: "1 \<le> arc_uses s ?n w" using assms(3,4) by (simp add: arc_uses_def nets_at_def)
    then have "0 < arc_uses s ?n w" by simp
    from arcs_coveredD[OF assms(2) this] obtain wd where
      "wires s w = Some wd" "arc_uses s ?n w \<le> source_uses wd ?n" by blast
    with ge have "wires s w = Some wd \<and> 1 \<le> source_uses wd ?n" by simp
    then show "\<exists>wd. wires s w = Some wd \<and> 1 \<le> source_uses wd ?n" by (rule exI)
  qed
  from unbind_all_effect[OF assms(1) dis pre, of user] obtain s' where
    r: "unbind_all net user ?ws s = Inr s'" "nets s' = nets s" "refcount_inv s'"
       "\<forall>w. w \<notin> set ?ws \<longrightarrow> wires s' w = wires s w"
       "\<forall>w \<in> set ?ws. \<exists>wd wd1. wires s w = Some wd \<and> wires s' w = Some wd1
                  \<and> (\<forall>m. source_uses wd1 m = source_uses wd m - (if m = ?n then 1 else 0))"
    by blast
  let ?f = "\<lambda>ad :: PerArcData. ad\<lparr>arc_wires := []\<rparr>"
  from assms(3-5) r(2) obtain s1 where u: "update_arc ?n user ?f s' = Inr s1"
    using update_arc_defined_iff[of ?n user ?f s'] by auto
  have rip: "ripup_arc net user s = Inr s1"
    using assms(3-5) r(1) u by (simp add: ripup_arc_def nets_at_def arcs_at_def)
  have w1: "wires s1 = wires s'" using u by (rule update_arc_wires)
  have inv1: "refcount_inv s1" using r(3) w1 by (simp add: refcount_inv_def)
  note un = update_arc_nets[OF u]
  have empty: "arc_wires (arcs (nets s1 ! nat ?n) ! user) = []"
    using un by simp
  have au': "arc_uses s' m w = arc_uses s m w" for m w
    using r(2) by (simp add: arc_uses_def nets_at_def)
  have au: "arc_uses s1 m w = arc_uses s m w - (if m = ?n \<and> w \<in> set ?ws then 1 else 0)" for m w
    using arc_uses_update_arc[OF u, of m w] r(2) by (auto simp: au')
  have d: "\<forall>nd \<in> set (nets s1). \<forall>ad \<in> set (arcs nd). distinct (map fst (arc_wires ad))"
  proof (rule update_arc_distinct[OF u])
    show "\<forall>nd \<in> set (nets s'). \<forall>ad \<in> set (arcs nd). distinct (map fst (arc_wires ad))"
      using assms(2) r(2) by (simp add: arcs_covered_def)
    show "distinct (map fst (arc_wires (?f (arcs (nets s' ! nat ?n) ! user))))" by simp
  qed
  have c: "\<exists>wd'. wires s1 w = Some wd' \<and> arc_uses s1 m w \<le> source_uses wd' m" if p: "0 < arc_uses s1 m w" for m w
  proof -
    from p au[of m w] have "0 < arc_uses s m w" by (auto split: if_splits)
    from arcs_coveredD[OF assms(2) this] obtain wd where
      wd: "wires s w = Some wd" "arc_uses s m w \<le> source_uses wd m" by blast
    show ?thesis
    proof (cases "w \<in> set ?ws")
      case True
      with r(5) obtain wa wb where "wires s w = Some wa" "wires s' w = Some wb"
        "\<forall>m. source_uses wb m = source_uses wa m - (if m = ?n then 1 else 0)" by blast
      with wd w1 au[of m w] True show ?thesis by auto
    next
      case False
      with r(4) w1 wd au[of m w] show ?thesis by auto
    qed
  qed
  have cov: "arcs_covered s1" unfolding arcs_covered_def using d c by blast
  have fr: "\<forall>w. w \<notin> fst ` set (arc_wires ?ad) \<longrightarrow> wires s1 w = wires s w"
    using r(4) w1 by simp
  have ch: "\<forall>w \<in> fst ` set (arc_wires ?ad).
                \<exists>wd wd1. wires s w = Some wd \<and> wires s1 w = Some wd1
                  \<and> 1 \<le> source_uses wd ?n
                  \<and> source_uses wd1 ?n = source_uses wd ?n - 1"
  proof
    fix w assume w: "w \<in> fst ` set (arc_wires ?ad)"
    then have ws: "w \<in> set ?ws" by simp
    with r(5) obtain wa wb where x: "wires s w = Some wa" "wires s' w = Some wb"
        "\<forall>m. source_uses wb m = source_uses wa m - (if m = ?n then 1 else 0)" by blast
    moreover from pre ws x(1) have "1 \<le> source_uses wa ?n" by auto
    ultimately show "\<exists>wd wd1. wires s w = Some wd \<and> wires s1 w = Some wd1
                  \<and> 1 \<le> source_uses wd ?n
                  \<and> source_uses wd1 ?n = source_uses wd ?n - 1"
      using w1 by auto
  qed
  from rip inv1 cov empty fr ch show ?thesis by blast
qed

lemma bind_arc_table:
  assumes "bind_pip_internal net user w p s = Inr s1"
  shows "arc_wires (arcs (nets s1 ! nat (udata net)) ! user)
           = AList.update w p (arc_wires (arcs (nets s ! nat (udata net)) ! user))"
proof -
  from assms obtain s0 where
    u: "update_arc (udata net) user (\<lambda>ad. ad\<lparr>arc_wires := AList.update w p (arc_wires ad)\<rparr>) s0 = Inr s1"
    and n: "nets s0 = nets s"
    by (auto simp: bind_pip_internal_def Let_def split: option.splits if_splits)
  from update_arc_nets[OF u] show ?thesis by (simp add: n)
qed

text \<open>
  C10.  Under the reference-count invariant (every entry of \<^verbatim>\<open>bound_nets\<close> has a count of
  at least one, so that a net has an entry on a wire exactly when its count there is at
  least one): a \<^verbatim>\<open>bind_pip_internal\<close> that returns keeps the invariant, raises the net's count
  on the wire by one, records the pip when the net had no entry and otherwise found the
  recorded pip equal to the one passed.  On a wire of the table and an arc that exists, the
  first bind of a net returns and leaves the entry with count 1 and the pip passed, and a
  later bind with the recorded pip returns and leaves the entry with its count raised by
  one; a bind with a pip other than the recorded one fails its assertion.  An
  \<^verbatim>\<open>unbind_pip_internal\<close> on a wire where the net has an entry with count \<open>c\<close> keeps the
  invariant and leaves the entry with count \<open>c - 1\<close>, erased exactly when \<open>c = 1\<close>; and an
  unbind directly after a bind for the same net, user and wire returns and leaves the whole
  wire table, hence every \<^verbatim>\<open>bound_nets\<close>, as it was before the bind.  A bind that returns
  enters the wire with the pip into the arc's own table and keeps \<open>arcs_covered\<close>; under
  \<open>arcs_covered\<close> a \<^verbatim>\<open>ripup_arc\<close> of an arc that exists returns, finds a count of at least one
  on every wire it unbinds and lowers it by one, leaves every other wire entry as it was,
  empties the arc's table and keeps both invariants: the router never unbinds a net from a
  wire where it has no entry.
\<close>

theorem bind_unbind_refcount:
  assumes "refcount_inv s"
  shows "(\<forall>s1. bind_pip_internal net user w p s = Inr s1 \<longrightarrow>
            refcount_inv s1
          \<and> (\<exists>wd wd1. wires s w = Some wd \<and> wires s1 w = Some wd1
                \<and> source_uses wd1 (udata net) = source_uses wd (udata net) + 1
                \<and> (fmlookup (bound_nets wd) (udata net) = None \<longrightarrow>
                      fmlookup (bound_nets wd1) (udata net) = Some (1, p))
                \<and> (\<forall>c q. fmlookup (bound_nets wd) (udata net) = Some (c, q) \<longrightarrow>
                      q = p \<and> fmlookup (bound_nets wd1) (udata net) = Some (c + 1, q)))
          \<and> (\<exists>s2. unbind_pip_internal net user w d s1 = Inr s2 \<and> wires s2 = wires s))
       \<and> (\<forall>wd. wires s w = Some wd \<and> fmlookup (bound_nets wd) (udata net) = None
              \<and> 0 \<le> udata net \<and> nat (udata net) < length (nets s)
              \<and> user < length (arcs (nets s ! nat (udata net))) \<longrightarrow>
            (\<exists>s1 wd1. bind_pip_internal net user w p s = Inr s1 \<and> wires s1 w = Some wd1
                \<and> fmlookup (bound_nets wd1) (udata net) = Some (1, p)))
       \<and> (\<forall>wd c. wires s w = Some wd \<and> fmlookup (bound_nets wd) (udata net) = Some (c, p)
              \<and> 0 \<le> udata net \<and> nat (udata net) < length (nets s)
              \<and> user < length (arcs (nets s ! nat (udata net))) \<longrightarrow>
            (\<exists>s1 wd1. bind_pip_internal net user w p s = Inr s1 \<and> wires s1 w = Some wd1
                \<and> fmlookup (bound_nets wd1) (udata net) = Some (c + 1, p)))
       \<and> (\<forall>wd c q. wires s w = Some wd \<and> fmlookup (bound_nets wd) (udata net) = Some (c, q) \<and> q \<noteq> p \<longrightarrow>
            bind_pip_internal net user w p s = Inl AssertionFailure)
       \<and> (\<forall>wd c q s1. wires s w = Some wd \<and> fmlookup (bound_nets wd) (udata net) = Some (c, q)
              \<and> unbind_pip_internal net user w d s = Inr s1 \<longrightarrow>
            refcount_inv s1
          \<and> (\<exists>wd1. wires s1 w = Some wd1 \<and>
                fmlookup (bound_nets wd1) (udata net) = (if c = 1 then None else Some (c - 1, q))))
       \<and> (\<forall>s1. bind_pip_internal net user w p s = Inr s1 \<longrightarrow>
            arc_wires (arcs (nets s1 ! nat (udata net)) ! user)
              = AList.update w p (arc_wires (arcs (nets s ! nat (udata net)) ! user))
          \<and> (arcs_covered s \<longrightarrow> arcs_covered s1))
       \<and> (arcs_covered s \<and> 0 \<le> udata net \<and> nat (udata net) < length (nets s)
              \<and> user < length (arcs (nets s ! nat (udata net))) \<longrightarrow>
            (\<exists>s1. ripup_arc net user s = Inr s1 \<and> refcount_inv s1 \<and> arcs_covered s1
               \<and> arc_wires (arcs (nets s1 ! nat (udata net)) ! user) = []
               \<and> (\<forall>v. v \<notin> fst ` set (arc_wires (arcs (nets s ! nat (udata net)) ! user)) \<longrightarrow>
                      wires s1 v = wires s v)
               \<and> (\<forall>v \<in> fst ` set (arc_wires (arcs (nets s ! nat (udata net)) ! user)).
                      \<exists>wd wd1. wires s v = Some wd \<and> wires s1 v = Some wd1
                        \<and> 1 \<le> source_uses wd (udata net)
                        \<and> source_uses wd1 (udata net) = source_uses wd (udata net) - 1)))"
proof (intro conjI allI impI)
  fix s1 assume b: "bind_pip_internal net user w p s = Inr s1"
  show "refcount_inv s1" using assms b by (rule bind_preserves_inv)
  show "\<exists>s2. unbind_pip_internal net user w d s1 = Inr s2 \<and> wires s2 = wires s"
    using assms b by (rule bind_then_unbind)
  from bind_wires[OF b] obtain wd where
    wd: "wires s w = Some wd" and
    cases: "fmlookup (bound_nets wd) (udata net) = None
            \<or> (\<exists>c. fmlookup (bound_nets wd) (udata net) = Some (c, p))
            \<or> (\<exists>q. fmlookup (bound_nets wd) (udata net) = Some (0, q))" and
    w1: "wires s1 = (wires s)(w \<mapsto> wd\<lparr>bound_nets :=
              fmupd (udata net) (fst (bn_entry (bound_nets wd) (udata net)) + 1, p) (bound_nets wd)\<rparr>)"
    by blast
  have no0: "\<And>q. fmlookup (bound_nets wd) (udata net) \<noteq> Some (0, q)"
    using refcount_invD[OF assms wd] by fastforce
  let ?wd1 = "wd\<lparr>bound_nets :=
              fmupd (udata net) (fst (bn_entry (bound_nets wd) (udata net)) + 1, p) (bound_nets wd)\<rparr>"
  have "wires s1 w = Some ?wd1" using w1 by simp
  moreover have "source_uses ?wd1 (udata net) = source_uses wd (udata net) + 1"
    by (simp add: source_uses_def bn_entry_def split: option.splits)
  moreover have "fmlookup (bound_nets wd) (udata net) = None \<longrightarrow>
                      fmlookup (bound_nets ?wd1) (udata net) = Some (1, p)"
    by (simp add: bn_entry_def)
  moreover have "\<forall>c q. fmlookup (bound_nets wd) (udata net) = Some (c, q) \<longrightarrow>
                      q = p \<and> fmlookup (bound_nets ?wd1) (udata net) = Some (c + 1, q)"
    using cases no0 by (auto simp: bn_entry_def)
  ultimately have "wires s w = Some wd \<and> wires s1 w = Some ?wd1
                \<and> source_uses ?wd1 (udata net) = source_uses wd (udata net) + 1
                \<and> (fmlookup (bound_nets wd) (udata net) = None \<longrightarrow>
                      fmlookup (bound_nets ?wd1) (udata net) = Some (1, p))
                \<and> (\<forall>c q. fmlookup (bound_nets wd) (udata net) = Some (c, q) \<longrightarrow>
                      q = p \<and> fmlookup (bound_nets ?wd1) (udata net) = Some (c + 1, q))"
    using wd by (intro conjI)
  then show "\<exists>wd wd1. wires s w = Some wd \<and> wires s1 w = Some wd1
                \<and> source_uses wd1 (udata net) = source_uses wd (udata net) + 1
                \<and> (fmlookup (bound_nets wd) (udata net) = None \<longrightarrow>
                      fmlookup (bound_nets wd1) (udata net) = Some (1, p))
                \<and> (\<forall>c q. fmlookup (bound_nets wd) (udata net) = Some (c, q) \<longrightarrow>
                      q = p \<and> fmlookup (bound_nets wd1) (udata net) = Some (c + 1, q))"
    by (intro exI)
next
  fix wd
  assume a: "wires s w = Some wd \<and> fmlookup (bound_nets wd) (udata net) = None
              \<and> 0 \<le> udata net \<and> nat (udata net) < length (nets s)
              \<and> user < length (arcs (nets s ! nat (udata net)))"
  then have "fmlookup (bound_nets wd) (udata net) = None
              \<or> (\<exists>c. fmlookup (bound_nets wd) (udata net) = Some (c, p))"
    by simp
  with a bind_returns[of s w wd net user p]
  show "\<exists>s1 wd1. bind_pip_internal net user w p s = Inr s1 \<and> wires s1 w = Some wd1
                \<and> fmlookup (bound_nets wd1) (udata net) = Some (1, p)"
    by simp
next
  fix wd c
  assume a: "wires s w = Some wd \<and> fmlookup (bound_nets wd) (udata net) = Some (c, p)
              \<and> 0 \<le> udata net \<and> nat (udata net) < length (nets s)
              \<and> user < length (arcs (nets s ! nat (udata net)))"
  then have "fmlookup (bound_nets wd) (udata net) = None
              \<or> (\<exists>c. fmlookup (bound_nets wd) (udata net) = Some (c, p))"
    by simp
  with a bind_returns[of s w wd net user p]
  show "\<exists>s1 wd1. bind_pip_internal net user w p s = Inr s1 \<and> wires s1 w = Some wd1
                \<and> fmlookup (bound_nets wd1) (udata net) = Some (c + 1, p)"
    by simp
next
  fix wd c q
  assume "wires s w = Some wd \<and> fmlookup (bound_nets wd) (udata net) = Some (c, q) \<and> q \<noteq> p"
  then show "bind_pip_internal net user w p s = Inl AssertionFailure"
    using bind_assert[OF assms] by blast
next
  fix wd c q s1
  assume a: "wires s w = Some wd \<and> fmlookup (bound_nets wd) (udata net) = Some (c, q)
              \<and> unbind_pip_internal net user w d s = Inr s1"
  then have r: "refcount_inv s1 \<and> (\<exists>wd1. wires s1 w = Some wd1 \<and>
           fmlookup (bound_nets wd1) (udata net) = (if c = 1 then None else Some (c - 1, q)))"
    using unbind_preserves_inv[OF assms] by blast
  from r show "refcount_inv s1" by blast
  from r show "\<exists>wd1. wires s1 w = Some wd1 \<and>
           fmlookup (bound_nets wd1) (udata net) = (if c = 1 then None else Some (c - 1, q))" by blast
next
  fix s1 assume b: "bind_pip_internal net user w p s = Inr s1"
  then show "arc_wires (arcs (nets s1 ! nat (udata net)) ! user)
              = AList.update w p (arc_wires (arcs (nets s ! nat (udata net)) ! user))"
    by (rule bind_arc_table)
next
  fix s1 assume b: "bind_pip_internal net user w p s = Inr s1" and c: "arcs_covered s"
  from assms c b show "arcs_covered s1" by (rule bind_keeps_covered)
next
  assume a: "arcs_covered s \<and> 0 \<le> udata net \<and> nat (udata net) < length (nets s)
              \<and> user < length (arcs (nets s ! nat (udata net)))"
  then have "arcs_covered s" "0 \<le> udata net" "nat (udata net) < length (nets s)"
    "user < length (arcs (nets s ! nat (udata net)))" by simp_all
  from ripup_arc_keeps_covered[OF assms this]
  show "\<exists>s1. ripup_arc net user s = Inr s1 \<and> refcount_inv s1 \<and> arcs_covered s1
               \<and> arc_wires (arcs (nets s1 ! nat (udata net)) ! user) = []
               \<and> (\<forall>v. v \<notin> fst ` set (arc_wires (arcs (nets s ! nat (udata net)) ! user)) \<longrightarrow>
                      wires s1 v = wires s v)
               \<and> (\<forall>v \<in> fst ` set (arc_wires (arcs (nets s ! nat (udata net)) ! user)).
                      \<exists>wd wd1. wires s v = Some wd \<and> wires s1 v = Some wd1
                        \<and> 1 \<le> source_uses wd (udata net)
                        \<and> source_uses wd1 (udata net) = source_uses wd (udata net) - 1)" .
qed

lemma ex_router_inv: "refcount_inv ex_router"
  by (simp add: refcount_inv_def ex_router_def ex_wd_def)

theorem bind_unbind_refcount_witness:
  "refcount_inv ex_router \<and> arcs_covered ex_router
   \<and> (\<exists>s1 s2 s3 s4 s5 wd1 wd2 wd3 wd5.
          bind_pip_internal ex_net 0 (Some 1) (Some 7) ex_router = Inr s1
        \<and> refcount_inv s1
        \<and> wires s1 (Some 1) = Some wd1 \<and> fmlookup (bound_nets wd1) 0 = Some (1, Some 7)
        \<and> bind_pip_internal ex_net 0 (Some 1) (Some 7) s1 = Inr s2
        \<and> refcount_inv s2
        \<and> wires s2 (Some 1) = Some wd2 \<and> fmlookup (bound_nets wd2) 0 = Some (2, Some 7)
        \<and> bind_pip_internal ex_net 0 (Some 1) (Some 8) s1 = Inl AssertionFailure
        \<and> unbind_pip_internal ex_net 0 (Some 1) False s2 = Inr s3
        \<and> refcount_inv s3
        \<and> wires s3 (Some 1) = Some wd3 \<and> fmlookup (bound_nets wd3) 0 = Some (1, Some 7)
        \<and> wires s3 = wires s1
        \<and> unbind_pip_internal ex_net 0 (Some 1) False s1 = Inr s4
        \<and> wires s4 = wires ex_router
        \<and> arcs_covered s2
        \<and> arc_wires (arcs (nets s2 ! 0) ! 0) = [(Some 1, Some 7)]
        \<and> ripup_arc ex_net 0 s2 = Inr s5
        \<and> refcount_inv s5 \<and> arcs_covered s5
        \<and> arc_wires (arcs (nets s5 ! 0) ! 0) = []
        \<and> wires s5 (Some 1) = Some wd5 \<and> source_uses wd5 0 = 1
        \<and> wires s5 (Some 0) = wires s2 (Some 0))"
proof -
  have inv: "refcount_inv ex_router" by (rule ex_router_inv)
  have u: "udata ex_net = 0" by (simp add: ex_net_def)
  have w0: "wires ex_router (Some 1) = Some ex_wd" by (simp add: ex_router_def)
  have l0: "fmlookup (bound_nets ex_wd) (udata ex_net) = None" by (simp add: ex_wd_def)
  have r0: "0 \<le> udata ex_net \<and> nat (udata ex_net) < length (nets ex_router)
              \<and> 0 < length (arcs (nets ex_router ! nat (udata ex_net)))"
    by (simp add: ex_net_def ex_router_def)
  note t0 = bind_unbind_refcount[OF inv, of ex_net 0 "Some 1" "Some 7" False]
  note t0_eff = t0[THEN conjunct1]
  note t0_first = t0[THEN conjunct2, THEN conjunct1]
  from t0_first w0 l0 r0 obtain s1 wd1 where
    b1: "bind_pip_internal ex_net 0 (Some 1) (Some 7) ex_router = Inr s1"
    and w1: "wires s1 (Some 1) = Some wd1"
    and l1: "fmlookup (bound_nets wd1) (udata ex_net) = Some (1, Some 7)"
    by blast
  from t0_eff b1 have inv1: "refcount_inv s1" by blast
  from bind_shape[OF b1] have r1: "0 \<le> udata ex_net \<and> nat (udata ex_net) < length (nets s1)
              \<and> 0 < length (arcs (nets s1 ! nat (udata ex_net)))" .
  note t1 = bind_unbind_refcount[OF inv1, of ex_net 0 "Some 1" "Some 7" False]
  note t1_eff = t1[THEN conjunct1]
  note t1_later = t1[THEN conjunct2, THEN conjunct2, THEN conjunct1]
  from t1_later w1 l1 r1 obtain s2 wd2 where
    b2: "bind_pip_internal ex_net 0 (Some 1) (Some 7) s1 = Inr s2"
    and w2: "wires s2 (Some 1) = Some wd2"
    and l2: "fmlookup (bound_nets wd2) (udata ex_net) = Some (1 + 1, Some 7)"
    by blast
  from t1_eff b2 have inv2: "refcount_inv s2" by blast
  from t0_eff b1 obtain s4 where u4: "unbind_pip_internal ex_net 0 (Some 1) False s1 = Inr s4"
    and w4: "wires s4 = wires ex_router"
    by blast
  from t1_eff b2 obtain s3 where u3: "unbind_pip_internal ex_net 0 (Some 1) False s2 = Inr s3"
    and ws: "wires s3 = wires s1"
    by blast
  have ne: "Some (7::nat) \<noteq> Some 8" by simp
  from bind_unbind_refcount[OF inv1, of ex_net 0 "Some 1" "Some 8" False,
         THEN conjunct2, THEN conjunct2, THEN conjunct2, THEN conjunct1] w1 l1 ne
  have af: "bind_pip_internal ex_net 0 (Some 1) (Some 8) s1 = Inl AssertionFailure"
    by blast
  note t2 = bind_unbind_refcount[OF inv2, of ex_net 0 "Some 1" "Some 7" False,
         THEN conjunct2, THEN conjunct2, THEN conjunct2, THEN conjunct2, THEN conjunct1]
  from t2 w2 l2 u3 have inv3: "refcount_inv s3"
    and "\<exists>wd3. wires s3 (Some 1) = Some wd3 \<and>
           fmlookup (bound_nets wd3) (udata ex_net) = (if (1::int) + 1 = 1 then None else Some (1 + 1 - 1, Some 7))"
    by blast+
  then obtain wd3 where w3: "wires s3 (Some 1) = Some wd3"
    and l3: "fmlookup (bound_nets wd3) (udata ex_net) = Some (1, Some 7)"
    by auto
  have cov: "arcs_covered ex_router"
    by (simp add: arcs_covered_def arc_uses_def nets_at_def ex_router_def)
  from t0[THEN conjunct2, THEN conjunct2, THEN conjunct2, THEN conjunct2, THEN conjunct2, THEN conjunct1] b1 cov
  have tb1: "arc_wires (arcs (nets s1 ! nat (udata ex_net)) ! 0)
               = AList.update (Some 1) (Some 7) (arc_wires (arcs (nets ex_router ! nat (udata ex_net)) ! 0))"
    and cov1: "arcs_covered s1"
    by blast+
  from t1[THEN conjunct2, THEN conjunct2, THEN conjunct2, THEN conjunct2, THEN conjunct2, THEN conjunct1] b2 cov1
  have tb2: "arc_wires (arcs (nets s2 ! nat (udata ex_net)) ! 0)
               = AList.update (Some 1) (Some 7) (arc_wires (arcs (nets s1 ! nat (udata ex_net)) ! 0))"
    and cov2: "arcs_covered s2"
    by blast+
  have tb: "arc_wires (arcs (nets s2 ! 0) ! 0) = [(Some 1, Some 7)]"
    using tb1 tb2 by (simp add: u ex_router_def)
  from bind_shape[OF b2] have r2: "0 \<le> udata ex_net \<and> nat (udata ex_net) < length (nets s2)
              \<and> 0 < length (arcs (nets s2 ! nat (udata ex_net)))" .
  from bind_unbind_refcount[OF inv2, of ex_net 0 "Some 1" "Some 7" False,
         THEN conjunct2, THEN conjunct2, THEN conjunct2, THEN conjunct2, THEN conjunct2, THEN conjunct2] cov2 r2
  obtain s5 where rp: "ripup_arc ex_net 0 s2 = Inr s5" and inv5: "refcount_inv s5" and cov5: "arcs_covered s5"
    and tb5: "arc_wires (arcs (nets s5 ! nat (udata ex_net)) ! 0) = []"
    and fr5: "\<forall>v. v \<notin> fst ` set (arc_wires (arcs (nets s2 ! nat (udata ex_net)) ! 0)) \<longrightarrow> wires s5 v = wires s2 v"
    and ch5: "\<forall>v \<in> fst ` set (arc_wires (arcs (nets s2 ! nat (udata ex_net)) ! 0)).
                \<exists>wd wd1. wires s2 v = Some wd \<and> wires s5 v = Some wd1
                  \<and> 1 \<le> source_uses wd (udata ex_net)
                  \<and> source_uses wd1 (udata ex_net) = source_uses wd (udata ex_net) - 1"
    by blast
  from ch5 tb obtain wd5 where w5: "wires s5 (Some 1) = Some wd5"
    and l5: "source_uses wd5 0 = source_uses wd2 0 - 1"
    using w2 by (auto simp: u)
  have su2: "source_uses wd2 0 = 2" using l2 by (simp add: source_uses_def u)
  have l5': "source_uses wd5 0 = 1" using l5 su2 by simp
  have f5: "wires s5 (Some 0) = wires s2 (Some 0)" using fr5 tb by (simp add: u)
  have tb5': "arc_wires (arcs (nets s5 ! 0) ! 0) = []" using tb5 by (simp add: u)
  from b1 inv1 w1 l1 b2 inv2 w2 l2 af u3 inv3 w3 l3 ws u4 w4 cov2 tb rp inv5 cov5 tb5' w5 l5' f5
  have "bind_pip_internal ex_net 0 (Some 1) (Some 7) ex_router = Inr s1
        \<and> refcount_inv s1
        \<and> wires s1 (Some 1) = Some wd1 \<and> fmlookup (bound_nets wd1) 0 = Some (1, Some 7)
        \<and> bind_pip_internal ex_net 0 (Some 1) (Some 7) s1 = Inr s2
        \<and> refcount_inv s2
        \<and> wires s2 (Some 1) = Some wd2 \<and> fmlookup (bound_nets wd2) 0 = Some (2, Some 7)
        \<and> bind_pip_internal ex_net 0 (Some 1) (Some 8) s1 = Inl AssertionFailure
        \<and> unbind_pip_internal ex_net 0 (Some 1) False s2 = Inr s3
        \<and> refcount_inv s3
        \<and> wires s3 (Some 1) = Some wd3 \<and> fmlookup (bound_nets wd3) 0 = Some (1, Some 7)
        \<and> wires s3 = wires s1
        \<and> unbind_pip_internal ex_net 0 (Some 1) False s1 = Inr s4
        \<and> wires s4 = wires ex_router
        \<and> arcs_covered s2
        \<and> arc_wires (arcs (nets s2 ! 0) ! 0) = [(Some 1, Some 7)]
        \<and> ripup_arc ex_net 0 s2 = Inr s5
        \<and> refcount_inv s5 \<and> arcs_covered s5
        \<and> arc_wires (arcs (nets s5 ! 0) ! 0) = []
        \<and> wires s5 (Some 1) = Some wd5 \<and> source_uses wd5 0 = 1
        \<and> wires s5 (Some 0) = wires s2 (Some 0)"
    by (simp add: u)
  then have "\<exists>s1 s2 s3 s4 s5 wd1 wd2 wd3 wd5.
          bind_pip_internal ex_net 0 (Some 1) (Some 7) ex_router = Inr s1
        \<and> refcount_inv s1
        \<and> wires s1 (Some 1) = Some wd1 \<and> fmlookup (bound_nets wd1) 0 = Some (1, Some 7)
        \<and> bind_pip_internal ex_net 0 (Some 1) (Some 7) s1 = Inr s2
        \<and> refcount_inv s2
        \<and> wires s2 (Some 1) = Some wd2 \<and> fmlookup (bound_nets wd2) 0 = Some (2, Some 7)
        \<and> bind_pip_internal ex_net 0 (Some 1) (Some 8) s1 = Inl AssertionFailure
        \<and> unbind_pip_internal ex_net 0 (Some 1) False s2 = Inr s3
        \<and> refcount_inv s3
        \<and> wires s3 (Some 1) = Some wd3 \<and> fmlookup (bound_nets wd3) 0 = Some (1, Some 7)
        \<and> wires s3 = wires s1
        \<and> unbind_pip_internal ex_net 0 (Some 1) False s1 = Inr s4
        \<and> wires s4 = wires ex_router
        \<and> arcs_covered s2
        \<and> arc_wires (arcs (nets s2 ! 0) ! 0) = [(Some 1, Some 7)]
        \<and> ripup_arc ex_net 0 s2 = Inr s5
        \<and> refcount_inv s5 \<and> arcs_covered s5
        \<and> arc_wires (arcs (nets s5 ! 0) ! 0) = []
        \<and> wires s5 (Some 1) = Some wd5 \<and> source_uses wd5 0 = 1
        \<and> wires s5 (Some 0) = wires s2 (Some 0)"
    by (intro exI)
  with inv cov show ?thesis by (intro conjI)
qed

subsection \<open>Congestion history and wire costs\<close>

lemma ucw_wires:
  "wires (update_congestion_wire w t) = (wires t)(w := map_option (add_history (hist_cong_weight t)) (wires t w))"
  by (cases "wires t w") (auto simp: update_congestion_wire_def Let_def add_history_def)

lemma ucw_weight: "hist_cong_weight (update_congestion_wire w t) = hist_cong_weight t"
  by (cases "wires t w") (auto simp: update_congestion_wire_def Let_def)

lemma ucw_failed_mono: "failed_nets t \<subseteq> failed_nets (update_congestion_wire w t)"
  by (cases "wires t w") (auto simp: update_congestion_wire_def Let_def)

lemma ucw_failed:
  "wires t w = Some wd \<Longrightarrow> bn_size (bound_nets wd) > 1 \<Longrightarrow>
     fmdom' (bound_nets wd) \<subseteq> failed_nets (update_congestion_wire w t)"
  by (auto simp: update_congestion_wire_def Let_def)

lemma fold_ucw_weight: "hist_cong_weight (fold update_congestion_wire ws t) = hist_cong_weight t"
  by (induction ws arbitrary: t) (simp_all add: ucw_weight)

lemma fold_ucw_failed_mono: "failed_nets t \<subseteq> failed_nets (fold update_congestion_wire ws t)"
proof (induction ws arbitrary: t)
  case Nil show ?case by simp
next
  case (Cons w ws)
  have "failed_nets t \<subseteq> failed_nets (update_congestion_wire w t)" by (rule ucw_failed_mono)
  also have "\<dots> \<subseteq> failed_nets (fold update_congestion_wire ws (update_congestion_wire w t))" by (rule Cons.IH)
  finally show ?case by simp
qed

lemma fold_ucw_wires:
  "distinct ws \<Longrightarrow>
   wires (fold update_congestion_wire ws t) w =
     (if w \<in> set ws then map_option (add_history (hist_cong_weight t)) (wires t w) else wires t w)"
proof (induction ws arbitrary: t)
  case Nil show ?case by simp
next
  case (Cons a ws)
  then have d: "distinct ws" and na: "a \<notin> set ws" by auto
  show ?case
    using Cons.IH[OF d, of "update_congestion_wire a t"] na
    by (auto simp: ucw_wires ucw_weight)
qed

lemma fold_ucw_failed:
  "distinct ws \<Longrightarrow> w \<in> set ws \<Longrightarrow> wires t w = Some wd \<Longrightarrow> bn_size (bound_nets wd) > 1 \<Longrightarrow>
     fmdom' (bound_nets wd) \<subseteq> failed_nets (fold update_congestion_wire ws t)"
proof (induction ws arbitrary: t)
  case Nil then show ?case by simp
next
  case (Cons a ws)
  show ?case
  proof (cases "a = w")
    case True
    have "fmdom' (bound_nets wd) \<subseteq> failed_nets (update_congestion_wire w t)"
      using Cons.prems(3,4) by (rule ucw_failed)
    also have "\<dots> \<subseteq> failed_nets (fold update_congestion_wire ws (update_congestion_wire w t))"
      by (rule fold_ucw_failed_mono)
    finally show ?thesis using True by simp
  next
    case False
    with Cons.prems have "w \<in> set ws" "distinct ws" by auto
    moreover have "wires (update_congestion_wire a t) w = Some wd"
      using False Cons.prems(3) by (simp add: ucw_wires)
    ultimately have "fmdom' (bound_nets wd) \<subseteq> failed_nets (fold update_congestion_wire ws (update_congestion_wire a t))"
      using Cons.prems(4) by (intro Cons.IH)
    then show ?thesis by simp
  qed
qed

text \<open>
  C1.  \<^verbatim>\<open>update_congestion\<close>, for any order in which the loop walks the wire table: a wire
  whose \<^verbatim>\<open>bound_nets\<close> has size \<open>k > 1\<close> has its \<^verbatim>\<open>hist_cong_cost\<close> raised by exactly
  \<open>(k - 1) * hist_cong_weight\<close> (nothing else of the entry changes) and every net with an
  entry on it is in the failed-net set afterwards; a wire with \<open>k \<le> 1\<close> is unchanged.
  Hence, with a non-negative history weight (the router sets it to 1 and never changes it;
  \<^verbatim>\<open>update_congestion\<close> leaves it as it is), no wire's \<^verbatim>\<open>hist_cong_cost\<close> decreases.
\<close>

theorem update_congestion_history:
  assumes "distinct order" "set order = dom (wires s)"
  shows "(\<forall>w wd. wires s w = Some wd \<longrightarrow>
            (1 < bn_size (bound_nets wd) \<longrightarrow>
               wires (update_congestion order s) w =
                 Some (wd\<lparr>hist_cong_cost := hist_cong_cost wd
                           + real_of_int (bn_size (bound_nets wd) - 1) * hist_cong_weight s\<rparr>)
             \<and> fmdom' (bound_nets wd) \<subseteq> failed_nets (update_congestion order s))
          \<and> (bn_size (bound_nets wd) \<le> 1 \<longrightarrow> wires (update_congestion order s) w = Some wd))
       \<and> (0 \<le> hist_cong_weight s \<longrightarrow>
            (\<forall>w wd. wires s w = Some wd \<longrightarrow>
               (\<exists>wd'. wires (update_congestion order s) w = Some wd'
                    \<and> hist_cong_cost wd \<le> hist_cong_cost wd')))
       \<and> hist_cong_weight (update_congestion order s) = hist_cong_weight s"
proof -
  let ?t = "s\<lparr>total_overuse := 0, overused_wires := 0, total_wire_use := 0, failed_nets := {}\<rparr>"
  have W: "\<And>w wd. wires s w = Some wd \<Longrightarrow>
             wires (update_congestion order s) w = Some (add_history (hist_cong_weight s) wd)"
  proof -
    fix w wd assume a: "wires s w = Some wd"
    then have "w \<in> set order" using assms(2) by auto
    then show "wires (update_congestion order s) w = Some (add_history (hist_cong_weight s) wd)"
      using fold_ucw_wires[OF assms(1), of ?t w] a by (simp add: update_congestion_def)
  qed
  have F: "\<And>w wd. wires s w = Some wd \<Longrightarrow> 1 < bn_size (bound_nets wd) \<Longrightarrow>
             fmdom' (bound_nets wd) \<subseteq> failed_nets (update_congestion order s)"
  proof -
    fix w wd assume a: "wires s w = Some wd" "1 < bn_size (bound_nets wd)"
    then have "w \<in> set order" using assms(2) by auto
    then show "fmdom' (bound_nets wd) \<subseteq> failed_nets (update_congestion order s)"
      using fold_ucw_failed[OF assms(1), of w ?t wd] a by (simp add: update_congestion_def)
  qed
  have M: "0 \<le> hist_cong_weight s \<Longrightarrow> hist_cong_cost wd \<le> hist_cong_cost (add_history (hist_cong_weight s) wd)" for wd
    by (simp add: add_history_def)
  show ?thesis
  proof (intro conjI allI impI)
    fix w wd assume a: "wires s w = Some wd"
    { assume k: "1 < bn_size (bound_nets wd)"
      show "wires (update_congestion order s) w =
                 Some (wd\<lparr>hist_cong_cost := hist_cong_cost wd
                           + real_of_int (bn_size (bound_nets wd) - 1) * hist_cong_weight s\<rparr>)"
        using W[OF a] k by (simp add: add_history_def)
      show "fmdom' (bound_nets wd) \<subseteq> failed_nets (update_congestion order s)"
        using F[OF a k] . }
    { assume "bn_size (bound_nets wd) \<le> 1"
      then show "wires (update_congestion order s) w = Some wd"
        using W[OF a] by (simp add: add_history_def) }
    { assume "0 \<le> hist_cong_weight s"
      then show "\<exists>wd'. wires (update_congestion order s) w = Some wd' \<and> hist_cong_cost wd \<le> hist_cong_cost wd'"
        using W[OF a] M[of wd] by blast }
  next
    show "hist_cong_weight (update_congestion order s) = hist_cong_weight s"
      by (simp add: update_congestion_def fold_ucw_weight)
  qed
qed

lemma ex_wd2_size: "bn_size (bound_nets ex_wd2) = 2"
  by (simp add: bn_size_def ex_wd2_def)

theorem update_congestion_history_witness:
  "distinct [Some 0, Some (1::nat)] \<and> set [Some 0, Some 1] = dom (wires ex_congested)
   \<and> wires ex_congested (Some 0) = Some ex_wd2 \<and> 1 < bn_size (bound_nets ex_wd2)
   \<and> 0 \<le> hist_cong_weight ex_congested
   \<and> wires (update_congestion [Some 0, Some 1] ex_congested) (Some 0) = Some (ex_wd2\<lparr>hist_cong_cost := 2\<rparr>)
   \<and> {0, 1} \<subseteq> failed_nets (update_congestion [Some 0, Some 1] ex_congested)
   \<and> wires (update_congestion [Some 0, Some 1] ex_congested) (Some 1) = Some ex_wd"
proof -
  have d: "distinct [Some 0, Some (1::nat)]" by simp
  have o: "set [Some 0, Some 1] = dom (wires ex_congested)"
    by (auto simp: ex_congested_def)
  have w0: "wires ex_congested (Some 0) = Some ex_wd2" and w1: "wires ex_congested (Some 1) = Some ex_wd"
    by (simp_all add: ex_congested_def)
  have k1: "bn_size (bound_nets ex_wd) \<le> 1" by (simp add: bn_size_def ex_wd_def)
  have hw: "hist_cong_weight ex_congested = 1" by (simp add: ex_congested_def)
  have dm: "fmdom' (bound_nets ex_wd2) = {0, 1}" by (simp add: ex_wd2_def)
  have h: "hist_cong_cost ex_wd2 = 1" by (simp add: ex_wd2_def)
  note t = update_congestion_history[OF d o]
  from t w0 ex_wd2_size have "wires (update_congestion [Some 0, Some 1] ex_congested) (Some 0) =
                 Some (ex_wd2\<lparr>hist_cong_cost := hist_cong_cost ex_wd2
                           + real_of_int (bn_size (bound_nets ex_wd2) - 1) * hist_cong_weight ex_congested\<rparr>)
             \<and> fmdom' (bound_nets ex_wd2) \<subseteq> failed_nets (update_congestion [Some 0, Some 1] ex_congested)"
    by simp
  moreover from t w1 k1 have "wires (update_congestion [Some 0, Some 1] ex_congested) (Some 1) = Some ex_wd"
    by blast
  ultimately show ?thesis
    using d o w0 by (simp add: ex_wd2_size hw dm h)
qed

lemma card_others:
  "int (card (fmdom' bn - {n})) = bn_size bn - (if n \<in> fmdom' bn then 1 else 0)"
proof (cases "n \<in> fmdom' bn")
  case True
  have "finite (fmdom' bn)" by simp
  with True have "card (fmdom' bn - {n}) = card (fmdom' bn) - 1" "0 < card (fmdom' bn)"
    by (auto simp: card_gt_0_iff)
  then show ?thesis using True by (simp add: bn_size_def)
next
  case False then show ?thesis by (simp add: bn_size_def)
qed

lemma present_wire_cost_others:
  "present_wire_cost s wd n =
     (if fmdom' (bound_nets wd) \<subseteq> {n} then 1
      else 1 + real (card (fmdom' (bound_nets wd) - {n})) * curr_cong_weight s)"
proof -
  let ?bn = "bound_nets wd"
  have c: "bn_count ?bn n \<longleftrightarrow> n \<in> fmdom' ?bn"
    by (simp add: bn_count_def fmlookup_dom'_iff)
  have fin: "finite (fmdom' ?bn - {n})" by simp
  have z: "card (fmdom' ?bn - {n}) = 0 \<longleftrightarrow> fmdom' ?bn \<subseteq> {n}"
    using fin by (auto simp: card_eq_0_iff)
  have "present_wire_cost s wd n =
          (if int (card (fmdom' ?bn - {n})) = 0 then 1
           else 1 + real_of_int (int (card (fmdom' ?bn - {n}))) * curr_cong_weight s)"
    unfolding card_others by (simp add: present_wire_cost_def Let_def c)
  then show ?thesis using z by simp
qed

text \<open>
  C2.  For a wire \<open>w\<close> of the wire table and a net whose index is in range,
  \<^verbatim>\<open>score_wire_for_arc\<close> returns
  \<open>base_cost * hist_cong_cost * present_cost / (1 + su) + bias_cost\<close>, where \<open>su\<close> is the net's
  count on \<open>w\<close> (0 without an entry) and \<open>present_cost\<close> is \<^verbatim>\<open>present_wire_cost\<close>: 1 when no
  net other than this one is bound on \<open>w\<close>, otherwise \<open>1 + other_sources * curr_cong_weight\<close>,
  \<open>other_sources\<close> being the number of other nets, that is \<^verbatim>\<open>bound_nets.size()\<close> minus 1 if
  the net itself is present.
\<close>

theorem score_wire_for_arc_formula:
  assumes "wires s w = Some wd" "nets_at s (udata net) = Inr nd"
  shows "score_wire_for_arc ctx s net user w p =
           Inr (base_cost ctx w p * hist_cong_cost wd * present_wire_cost s wd (udata net)
                  / real_of_int (1 + (case fmlookup (bound_nets wd) (udata net) of None \<Rightarrow> 0 | Some (c, q) \<Rightarrow> c))
                + bias_cost ctx net nd w p)
       \<and> present_wire_cost s wd (udata net) =
           (if fmdom' (bound_nets wd) \<subseteq> {udata net} then 1
            else 1 + real (card (fmdom' (bound_nets wd) - {udata net})) * curr_cong_weight s)
       \<and> int (card (fmdom' (bound_nets wd) - {udata net})) =
           bn_size (bound_nets wd) - (if udata net \<in> fmdom' (bound_nets wd) then 1 else 0)"
proof (intro conjI)
  show "score_wire_for_arc ctx s net user w p =
           Inr (base_cost ctx w p * hist_cong_cost wd * present_wire_cost s wd (udata net)
                  / real_of_int (1 + (case fmlookup (bound_nets wd) (udata net) of None \<Rightarrow> 0 | Some (c, q) \<Rightarrow> c))
                + bias_cost ctx net nd w p)"
    using assms by (simp add: score_wire_for_arc_def source_uses_def split: option.splits prod.splits)
  show "present_wire_cost s wd (udata net) =
           (if fmdom' (bound_nets wd) \<subseteq> {udata net} then 1
            else 1 + real (card (fmdom' (bound_nets wd) - {udata net})) * curr_cong_weight s)"
    by (rule present_wire_cost_others)
  show "int (card (fmdom' (bound_nets wd) - {udata net})) =
           bn_size (bound_nets wd) - (if udata net \<in> fmdom' (bound_nets wd) then 1 else 0)"
    by (rule card_others)
qed

theorem score_wire_for_arc_formula_witness:
  "wires ex_congested (Some 0) = Some ex_wd2 \<and> nets_at ex_congested (udata ex_net) = Inr (nets ex_congested ! 0)
   \<and> present_wire_cost ex_congested ex_wd2 (udata ex_net) = 3 / 2
   \<and> score_wire_for_arc ex_ctx ex_congested ex_net 0 (Some 0) (Some 0) = Inr (9 / 20)"
proof -
  have w0: "wires ex_congested (Some 0) = Some ex_wd2" by (simp add: ex_congested_def)
  have n0: "nets_at ex_congested (udata ex_net) = Inr (nets ex_congested ! 0)"
    by (simp add: nets_at_def ex_congested_def ex_net_def)
  have dm: "fmdom' (bound_nets ex_wd2) = {0, 1}" by (simp add: ex_wd2_def)
  have u: "udata ex_net = 0" by (simp add: ex_net_def)
  have l: "fmlookup (bound_nets ex_wd2) 0 = Some (1, None)" by (simp add: ex_wd2_def)
  have cw: "curr_cong_weight ex_congested = 1 / 2" by (simp add: ex_congested_def)
  have h: "hist_cong_cost ex_wd2 = 1" by (simp add: ex_wd2_def)
  have b: "base_cost ex_ctx (Some 0) (Some 0) = 1 / 5" by (simp add: base_cost_def ex_ctx_def)
  have bi: "bias_cost ex_ctx ex_net (nets ex_congested ! 0) (Some 0) (Some 0) = 3 / 10"
    by (simp add: bias_cost_def b) (simp add: ex_ctx_def ex_net_def ex_congested_def)
  note t = score_wire_for_arc_formula[OF w0 n0, of ex_ctx 0 "Some 0"]
  have o1: "\<not> fmdom' (bound_nets ex_wd2) \<subseteq> {udata ex_net}" by (simp add: dm u)
  have o2: "fmdom' (bound_nets ex_wd2) - {udata ex_net} = {1}" by (auto simp: dm u)
  from t have e: "present_wire_cost ex_congested ex_wd2 (udata ex_net) =
           (if fmdom' (bound_nets ex_wd2) \<subseteq> {udata ex_net} then 1
            else 1 + real (card (fmdom' (bound_nets ex_wd2) - {udata ex_net})) * curr_cong_weight ex_congested)"
    by blast
  have pc: "present_wire_cost ex_congested ex_wd2 (udata ex_net) = 3 / 2"
    unfolding e o2 using o1 by (simp add: cw)
  from t have "score_wire_for_arc ex_ctx ex_congested ex_net 0 (Some 0) (Some 0) =
           Inr (base_cost ex_ctx (Some 0) (Some 0) * hist_cong_cost ex_wd2 * present_wire_cost ex_congested ex_wd2 (udata ex_net)
                  / real_of_int (1 + (case fmlookup (bound_nets ex_wd2) (udata ex_net) of None \<Rightarrow> 0 | Some (c, q) \<Rightarrow> c))
                + bias_cost ex_ctx ex_net (nets ex_congested ! 0) (Some 0) (Some 0))"
    by blast
  then have "score_wire_for_arc ex_ctx ex_congested ex_net 0 (Some 0) (Some 0) = Inr (9 / 20)"
    unfolding pc by (simp add: u l h b bi)
  with pc have "present_wire_cost ex_congested ex_wd2 (udata ex_net) = 3 / 2
     \<and> score_wire_for_arc ex_ctx ex_congested ex_net 0 (Some 0) (Some 0) = Inr (9 / 20)" by blast
  moreover note w0 n0
  ultimately show ?thesis by blast
qed

subsection \<open>Rounding\<close>

text \<open>
  Evaluating a rounding: a number strictly inside the half-interval around \<open>n * 2 ^ k\<close> rounds
  to it, and a number half-way between two neighbours rounds to the even one.  Rounding keeps
  the sign and does not cross a power of two.
\<close>

lemma fp_round_eval:
  assumes "2 powi k \<le> \<bar>x\<bar>" "\<bar>x\<bar> < 2 powi (k + 1)"
  shows "fp_round p x = real_of_int (round_even (x / 2 powi (k - int p + 1))) * 2 powi (k - int p + 1)"
proof -
  have pos: "0 < \<bar>x\<bar>" using assms(1) by (smt (verit) zero_less_power_int)
  then have nz: "x \<noteq> 0" by simp
  have "(2::real) powr real_of_int k \<le> \<bar>x\<bar> \<and> \<bar>x\<bar> < 2 powr (real_of_int k + 1)"
    using assms by (simp add: powr_real_of_int' add.commute) (metis of_int_1 of_int_add powr_real_of_int' zero_le_numeral zero_neq_numeral add.commute)
  then have "\<lfloor>log 2 \<bar>x\<bar>\<rfloor> = k"
    using floor_log_eq_powr_iff[of "\<bar>x\<bar>" 2 k] pos by simp
  then show ?thesis using nz by (simp add: fp_round_def Let_def)
qed

lemma round_even_down: "real_of_int f \<le> x \<Longrightarrow> x < real_of_int f + 1 / 2 \<Longrightarrow> round_even x = f"
proof -
  assume a: "real_of_int f \<le> x" "x < real_of_int f + 1 / 2"
  then have "\<lfloor>x\<rfloor> = f" by linarith
  then show ?thesis using a by (simp add: round_even_def Let_def)
qed

lemma round_even_up: "real_of_int f - 1 / 2 < x \<Longrightarrow> x \<le> real_of_int f \<Longrightarrow> round_even x = f"
proof -
  assume a: "real_of_int f - 1 / 2 < x" "x \<le> real_of_int f"
  show ?thesis
  proof (cases "x = real_of_int f")
    case True
    then show ?thesis by (simp add: round_even_def Let_def)
  next
    case False
    with a have "\<lfloor>x\<rfloor> = f - 1" by linarith
    then show ?thesis using a False by (simp add: round_even_def Let_def)
  qed
qed

lemma fp_round_near:
  assumes "2 powi k \<le> \<bar>x\<bar>" "\<bar>x\<bar> < 2 powi (k + 1)"
    and "\<bar>x / 2 powi (k - int p + 1) - real_of_int n\<bar> < 1 / 2"
  shows "fp_round p x = real_of_int n * 2 powi (k - int p + 1)"
proof -
  let ?m = "x / 2 powi (k - int p + 1)"
  have "round_even ?m = n"
  proof (cases "real_of_int n \<le> ?m")
    case True
    with assms(3) show ?thesis by (intro round_even_down) linarith+
  next
    case False
    with assms(3) show ?thesis by (intro round_even_up) linarith+
  qed
  with fp_round_eval[OF assms(1,2), of p] show ?thesis by simp
qed

lemma round_even_tie:
  "x = real_of_int f + 1 / 2 \<Longrightarrow> round_even x = (if even f then f else f + 1)"
proof -
  assume a: "x = real_of_int f + 1 / 2"
  then have "\<lfloor>x\<rfloor> = f" by linarith
  then show ?thesis using a by (simp add: round_even_def Let_def)
qed

lemma fp_round_tie:
  assumes "2 powi k \<le> \<bar>x\<bar>" "\<bar>x\<bar> < 2 powi (k + 1)"
    and "x / 2 powi (k - int p + 1) = real_of_int f + 1 / 2"
  shows "fp_round p x = real_of_int (if even f then f else f + 1) * 2 powi (k - int p + 1)"
  using fp_round_eval[OF assms(1,2), of p] round_even_tie[OF assms(3)] by simp





lemma int_of_double_floor:
  "0 \<le> d \<Longrightarrow> d < 2147483648 \<Longrightarrow> int_of_double (Finite d) = \<lfloor>d\<rfloor>"
proof -
  assume a: "0 \<le> d" "d < 2147483648"
  then have "0 \<le> \<lfloor>d\<rfloor>" "\<lfloor>d\<rfloor> < 2147483648" by linarith+
  then show ?thesis using a by (simp add: int_of_double_def Let_def INT_MIN_def INT_MAX_def)
qed

lemma clamp_spec_max_min: "lo \<le> hi \<Longrightarrow> max lo (min hi x) = clamp_spec lo hi x"
  by (auto simp: clamp_spec_def)

lemma clamp_spec_below: "lo \<le> hi \<Longrightarrow> x \<le> lo \<Longrightarrow> clamp_spec lo hi x = lo"
  by (auto simp: clamp_spec_def)

subsection \<open>Annealing schedule\<close>

text \<open>
  C8 (as amended).  The schedule at the end of a simulated-annealing iteration, on a grid
  with \<open>0 \<le> max max_x max_y < INT_MAX\<close>, so that \<open>M = max max_x max_y + 1\<close> does not wrap.  Let
  \<open>R\<close> be the \<^verbatim>\<open>double\<close> quotient of the accept count by the move count.  When
  \<^verbatim>\<open>curr_wirelen_cost\<close> is not below 95% of the running average (product and comparison in
  \<^verbatim>\<open>double\<close>):

    \<^item> if a move was counted, the diameter becomes \<open>clamp 1 M (int D)\<close>, where
      \<open>D = diameter * (1 - 0.44 + R) + 0.5\<close> with every literal and every operation rounded to
      \<^verbatim>\<open>double\<close> and \<open>int\<close> the truncating conversion, which is \<open>clamp 1 M \<lfloor>D\<rfloor>\<close> for
      \<open>0 \<le> D < 2 ^ 31\<close>; the temperature is multiplied, the product rounded to \<^verbatim>\<open>double\<close> and
      then to \<^verbatim>\<open>float\<close>, by 0.5 if \<open>R > 0.96\<close>, else by 0.9 if \<open>R > 0.8\<close>, else by 0.95 if
      \<open>R > 0.15\<close> and the diameter just set exceeds 1, else by 0.8;
    \<^item> if no move was counted, \<open>R\<close> is a NaN or an infinity, the diameter becomes 1 and the
      temperature is multiplied by 0.8 (by 0.5 for a positive accept count);
    \<^item> the running average stays.

  When it is below: the running average becomes the rounded \<open>0.8 * avg + 0.2 * curr\<close>, and
  nothing else changes; diameter and temperature stay.
\<close>

theorem anneal_schedule_step:
  assumes "0 \<le> max (max_x v) (max_y v)" "max (max_x v) (max_y v) < INT_MAX"
  shows "(let R = to_double (real_of_int (n_accept v) / real_of_int (n_move v));
              M = max (max_x v) (max_y v) + 1;
              D = to_double (to_double (real_of_int (diameter v) * to_double (to_double (1 - to_double 0.44) + R)) + 1 / 2);
              v' = anneal_schedule of_wirelen to_wirelen v
          in (\<not> of_wirelen (curr_wirelen_cost v) < to_double (to_double 0.95 * of_wirelen (avg_wirelen v)) \<longrightarrow>
                 (n_move v \<noteq> 0 \<longrightarrow>
                     diameter v' = clamp_spec 1 M (int_of_double (Finite D))
                   \<and> (0 \<le> D \<and> D < 2147483648 \<longrightarrow> diameter v' = clamp_spec 1 M \<lfloor>D\<rfloor>)
                   \<and> temp v' = to_float (to_double (temp v *
                        (if to_double 0.96 < R then 0.5 else if to_double 0.8 < R then to_double 0.9
                         else if to_double 0.15 < R \<and> diameter v' > 1 then to_double 0.95
                         else to_double 0.8))))
               \<and> (n_move v = 0 \<longrightarrow>
                     diameter v' = 1
                   \<and> temp v' = to_float (to_double (temp v * (if 0 < n_accept v then 0.5 else to_double 0.8))))
               \<and> avg_wirelen v' = avg_wirelen v)
           \<and> (of_wirelen (curr_wirelen_cost v) < to_double (to_double 0.95 * of_wirelen (avg_wirelen v)) \<longrightarrow>
                 v' = v\<lparr>avg_wirelen := to_wirelen (to_double (to_double (to_double 0.8 * of_wirelen (avg_wirelen v))
                                                   + to_double (to_double 0.2 * of_wirelen (curr_wirelen_cost v))))\<rparr>
               \<and> diameter v' = diameter v \<and> temp v' = temp v))"
proof -
  define R where "R = to_double (real_of_int (n_accept v) / real_of_int (n_move v))"
  define M where "M = max (max_x v) (max_y v) + 1"
  define D where "D = to_double (to_double (real_of_int (diameter v) * to_double (to_double (1 - to_double 0.44) + R)) + 1 / 2)"
  define c where "c = (of_wirelen (curr_wirelen_cost v) < to_double (to_double 0.95 * of_wirelen (avg_wirelen v)))"
  let ?v' = "anneal_schedule of_wirelen to_wirelen v"
  have Mw: "wrap32 (max (max_x v) (max_y v) + 1) = M"
    using assms by (simp add: M_def wrap32_def INT_MAX_def)
  have M1: "1 \<le> M" using assms(1) by (simp add: M_def)
  have cf: "(of_wirelen (curr_wirelen_cost v) < to_double (to_double (19 / 20) * of_wirelen (avg_wirelen v))) = c"
    by (simp add: c_def)
  have Df: "to_double (to_double (real_of_int (diameter v) * to_double (to_double (1 - to_double (11 / 25)) + R)) + 1 / 2) = D"
    by (simp add: D_def)
  have below: "?v' = v\<lparr>avg_wirelen := to_wirelen (to_double (to_double (to_double 0.8 * of_wirelen (avg_wirelen v))
                                                   + to_double (to_double 0.2 * of_wirelen (curr_wirelen_cost v))))\<rparr>"
    if c
    using that by (simp add: anneal_schedule_def Let_def cf)
  have avg: "avg_wirelen ?v' = avg_wirelen v" if "\<not> c"
    using that by (simp add: anneal_schedule_def Let_def cf)
  have nz: "diameter ?v' = clamp_spec 1 M (int_of_double (Finite D))
          \<and> temp ?v' = to_float (to_double (temp v *
                        (if to_double 0.96 < R then 0.5 else if to_double 0.8 < R then to_double 0.9
                         else if to_double 0.15 < R \<and> diameter ?v' > 1 then to_double 0.95
                         else to_double 0.8)))"
    if "\<not> c" "n_move v \<noteq> 0"
    using that
    by (simp add: anneal_schedule_def Let_def cf Mw fp_div_def fp_add_def fp_mul_def fp_less_def
          R_def[symmetric] Df clamp_spec_max_min[OF M1])
  have z: "diameter ?v' = 1
          \<and> temp ?v' = to_float (to_double (temp v * (if 0 < n_accept v then 0.5 else to_double 0.8)))"
    if "\<not> c" "n_move v = 0"
    using that M1
    by (simp add: anneal_schedule_def Let_def cf Mw fp_div_def fp_add_def fp_mul_def fp_less_def
          fp_inf_def int_of_double_def INT_MIN_def)
  have fl: "diameter ?v' = clamp_spec 1 M \<lfloor>D\<rfloor>" if "\<not> c" "n_move v \<noteq> 0" "0 \<le> D \<and> D < 2147483648"
    using nz[OF that(1,2)] that(3) by (simp add: int_of_double_floor)
  show ?thesis
    unfolding Let_def R_def[symmetric] M_def[symmetric] D_def[symmetric] c_def[symmetric]
    using below avg nz z fl by (cases c) auto
qed

lemma dbl_044: "to_double (11 / 25) = 7926335344172073 / 18014398509481984"
  unfolding to_double_def
  by (subst fp_round_near[where k = "- 2" and n = "7926335344172073"])
     (simp_all add: power_int_def power_divide inverse_eq_divide)

lemma dbl_056: "to_double (10088063165309911 / 18014398509481984) = 1261007895663739 / 2251799813685248"
  unfolding to_double_def
  by (subst fp_round_tie[where k = "- 1" and f = "5044031582654955"])
     (simp_all add: power_int_def power_divide inverse_eq_divide)

lemma dbl_095: "to_double (19 / 20) = 4278419646001971 / 4503599627370496"
  unfolding to_double_def
  by (subst fp_round_near[where k = "- 1" and n = "8556839292003942"])
     (simp_all add: power_int_def power_divide inverse_eq_divide)

lemma dbl_096: "to_double (24 / 25) = 1080863910568919 / 1125899906842624"
  unfolding to_double_def
  by (subst fp_round_near[where k = "- 1" and n = "8646911284551352"])
     (simp_all add: power_int_def power_divide inverse_eq_divide)

lemma dbl_08: "to_double (4 / 5) = 3602879701896397 / 4503599627370496"
  unfolding to_double_def
  by (subst fp_round_near[where k = "- 1" and n = "7205759403792794"])
     (simp_all add: power_int_def power_divide inverse_eq_divide)

lemma dbl_015: "to_double (3 / 20) = 5404319552844595 / 36028797018963968"
  unfolding to_double_def
  by (subst fp_round_near[where k = "- 3" and n = "5404319552844595"])
     (simp_all add: power_int_def power_divide inverse_eq_divide)

lemma dbl_09: "to_double (9 / 10) = 8106479329266893 / 9007199254740992"
  unfolding to_double_def
  by (subst fp_round_near[where k = "- 1" and n = "8106479329266893"])
     (simp_all add: power_int_def power_divide inverse_eq_divide)

lemma dbl_02: "to_double (1 / 5) = 3602879701896397 / 18014398509481984"
  unfolding to_double_def
  by (subst fp_round_near[where k = "- 3" and n = "7205759403792794"])
     (simp_all add: power_int_def power_divide inverse_eq_divide)

lemma ex_anneal_R: "to_double (1 / 2) = 1 / 2"
  unfolding to_double_def
  by (subst fp_round_near[where k = "- 1" and n = "4503599627370496"])
     (simp_all add: power_int_def power_divide inverse_eq_divide)

lemma ex_anneal_sum: "to_double (2386907802506363 / 2251799813685248) = 2386907802506363 / 2251799813685248"
  unfolding to_double_def
  by (subst fp_round_near[where k = "0" and n = "4773815605012726"])
     (simp_all add: power_int_def power_divide inverse_eq_divide)

lemma ex_anneal_prod: "to_double (83541773087722705 / 2251799813685248) = 5221360817982669 / 140737488355328"
  unfolding to_double_def
  by (subst fp_round_near[where k = "5" and n = "5221360817982669"])
     (simp_all add: power_int_def power_divide inverse_eq_divide)

lemma ex_anneal_half: "to_double (5291729562160333 / 140737488355328) = 5291729562160333 / 140737488355328"
  unfolding to_double_def
  by (subst fp_round_near[where k = "5" and n = "5291729562160333"])
     (simp_all add: power_int_def power_divide inverse_eq_divide)

lemma ex_anneal_temp_dbl: "to_double (21392098230009855 / 2251799813685248) = 19 / 2"
  unfolding to_double_def
  by (subst fp_round_near[where k = "3" and n = "5348024557502464"])
     (simp_all add: power_int_def power_divide inverse_eq_divide)

lemma ex_anneal_temp_flt: "to_float (19 / 2) = 19 / 2"
  unfolding to_float_def
  by (subst fp_round_near[where k = "3" and n = "9961472"])
     (simp_all add: power_int_def power_divide inverse_eq_divide)

lemma ex_anneal_avg: "to_double (534802455750246375 / 562949953421312) = 950"
  unfolding to_double_def
  by (subst fp_round_near[where k = "9" and n = "8356288371097600"])
     (simp_all add: power_int_def power_divide inverse_eq_divide)

lemma ex_tie_R: "to_double (57 / 100) = 5134103575202365 / 9007199254740992"
  unfolding to_double_def
  by (subst fp_round_near[where k = "- 1" and n = "5134103575202365"])
     (simp_all add: power_int_def power_divide inverse_eq_divide)

lemma ex_tie_sum: "to_double (10178135157857321 / 9007199254740992) = 1272266894732165 / 1125899906842624"
  unfolding to_double_def
  by (subst fp_round_tie[where k = "0" and f = "5089067578928660"])
     (simp_all add: power_int_def power_divide inverse_eq_divide)

lemma ex_tie_prod: "to_double (31806672368304125 / 562949953421312) = 7951668092076031 / 140737488355328"
  unfolding to_double_def
  by (subst fp_round_near[where k = "5" and n = "7951668092076031"])
     (simp_all add: power_int_def power_divide inverse_eq_divide)

lemma ex_tie_half: "to_double (8022036836253695 / 140737488355328) = 8022036836253695 / 140737488355328"
  unfolding to_double_def
  by (subst fp_round_near[where k = "5" and n = "8022036836253695"])
     (simp_all add: power_int_def power_divide inverse_eq_divide)

lemmas dbl_consts = dbl_044 dbl_056 dbl_095 dbl_096 dbl_08 dbl_015 dbl_09 dbl_02

lemma ex_anneal_D:
  "to_double (to_double (real_of_int (diameter ex_anneal) *
      to_double (to_double (1 - to_double 0.44)
                 + to_double (real_of_int (n_accept ex_anneal) / real_of_int (n_move ex_anneal)))) + 1 / 2)
   = 5291729562160333 / 140737488355328"
  by (simp add: ex_anneal_def dbl_consts ex_anneal_R ex_anneal_sum ex_anneal_prod ex_anneal_half)

lemma ex_anneal_above:
  "\<not> real_of_int (curr_wirelen_cost ex_anneal)
       < to_double (to_double 0.95 * real_of_int (avg_wirelen ex_anneal))"
  by (simp add: ex_anneal_def dbl_consts ex_anneal_avg)

lemma ex_idle_temp_dbl: "to_double (18014398509481985 / 2251799813685248) = 8"
  unfolding to_double_def
  by (subst fp_round_near[where k = "3" and n = "4503599627370496"])
     (simp_all add: power_int_def power_divide inverse_eq_divide)

lemma ex_idle_temp_flt: "to_float 8 = 8"
  unfolding to_float_def
  by (subst fp_round_near[where k = "3" and n = "8388608"])
     (simp_all add: power_int_def power_divide inverse_eq_divide)

lemma ex_drop_avg_old: "to_double (450359962737049625 / 562949953421312) = 800"
  unfolding to_double_def
  by (subst fp_round_near[where k = "9" and n = "7036874417766400"])
     (simp_all add: power_int_def power_divide inverse_eq_divide)

lemma ex_drop_avg_new: "to_double (810647932926689325 / 4503599627370496) = 180"
  unfolding to_double_def
  by (subst fp_round_near[where k = "7" and n = "6333186975989760"])
     (simp_all add: power_int_def power_divide inverse_eq_divide)

lemma ex_drop_avg_sum: "to_double 980 = 980"
  unfolding to_double_def
  by (subst fp_round_near[where k = "9" and n = "8620171161763840"])
     (simp_all add: power_int_def power_divide inverse_eq_divide)

lemma ex_idle_above:
  "\<not> real_of_int (curr_wirelen_cost ex_anneal_idle)
       < to_double (to_double 0.95 * real_of_int (avg_wirelen ex_anneal_idle))"
  by (simp add: ex_anneal_idle_def dbl_consts ex_anneal_avg)

lemma ex_drop_below:
  "real_of_int (curr_wirelen_cost ex_anneal_drop)
       < to_double (to_double 0.95 * real_of_int (avg_wirelen ex_anneal_drop))"
  by (simp add: ex_anneal_drop_def dbl_consts ex_anneal_avg)

lemma ex_drop_avg:
  "wirelen_of_double (to_double (to_double (to_double 0.8 * real_of_int (avg_wirelen ex_anneal_drop))
                                 + to_double (to_double 0.2 * real_of_int (curr_wirelen_cost ex_anneal_drop))))
     = 980"
  by (simp add: ex_anneal_drop_def dbl_consts ex_drop_avg_old ex_drop_avg_new ex_drop_avg_sum
        wirelen_of_double_def int_of_double_def Let_def INT_MIN_def INT_MAX_def)

text \<open>
  Three iterations.  With one of two moves accepted, diameter 35 and temperature 10 on a
  51-wide grid: the diameter becomes 37 and the temperature 9.5.  With no move counted: the
  diameter becomes 1 and the temperature 8.  With the wire length 900 below 95% of the
  average 1000: only the average changes, to 980.
\<close>

theorem anneal_schedule_step_witness:
  "0 \<le> max (max_x ex_anneal) (max_y ex_anneal) \<and> max (max_x ex_anneal) (max_y ex_anneal) < INT_MAX
   \<and> n_move ex_anneal \<noteq> 0
   \<and> \<not> real_of_int (curr_wirelen_cost ex_anneal)
         < to_double (to_double 0.95 * real_of_int (avg_wirelen ex_anneal))
   \<and> diameter (anneal_schedule real_of_int wirelen_of_double ex_anneal) = 37
   \<and> temp (anneal_schedule real_of_int wirelen_of_double ex_anneal) = 19 / 2
   \<and> avg_wirelen (anneal_schedule real_of_int wirelen_of_double ex_anneal) = avg_wirelen ex_anneal
   \<and> n_move ex_anneal_idle = 0
   \<and> \<not> real_of_int (curr_wirelen_cost ex_anneal_idle)
         < to_double (to_double 0.95 * real_of_int (avg_wirelen ex_anneal_idle))
   \<and> diameter (anneal_schedule real_of_int wirelen_of_double ex_anneal_idle) = 1
   \<and> temp (anneal_schedule real_of_int wirelen_of_double ex_anneal_idle) = 8
   \<and> real_of_int (curr_wirelen_cost ex_anneal_drop)
         < to_double (to_double 0.95 * real_of_int (avg_wirelen ex_anneal_drop))
   \<and> anneal_schedule real_of_int wirelen_of_double ex_anneal_drop = ex_anneal_drop\<lparr>avg_wirelen := 980\<rparr>"
proof -
  have h: "0 \<le> max (max_x ex_anneal) (max_y ex_anneal)" "max (max_x ex_anneal) (max_y ex_anneal) < INT_MAX"
    by (simp_all add: ex_anneal_def INT_MAX_def)
  have hi: "0 \<le> max (max_x ex_anneal_idle) (max_y ex_anneal_idle)"
           "max (max_x ex_anneal_idle) (max_y ex_anneal_idle) < INT_MAX"
    by (simp_all add: ex_anneal_idle_def INT_MAX_def)
  have hd: "0 \<le> max (max_x ex_anneal_drop) (max_y ex_anneal_drop)"
           "max (max_x ex_anneal_drop) (max_y ex_anneal_drop) < INT_MAX"
    by (simp_all add: ex_anneal_drop_def INT_MAX_def)
  have n: "n_move ex_anneal \<noteq> 0" by (simp add: ex_anneal_def)
  have m: "max (max_x ex_anneal) (max_y ex_anneal) + 1 = 51" by (simp add: ex_anneal_def)
  have R: "to_double (real_of_int (n_accept ex_anneal) / real_of_int (n_move ex_anneal)) = 1 / 2"
    by (simp add: ex_anneal_def ex_anneal_R)
  have i: "int_of_double (Finite (5291729562160333 / 140737488355328)) = 37"
    by (simp add: int_of_double_def Let_def INT_MIN_def INT_MAX_def)
  have c: "\<not> to_double 0.96 < (1 / 2 :: real)" "\<not> to_double 0.8 < (1 / 2 :: real)" "to_double 0.15 < (1 / 2 :: real)"
    by (simp_all add: dbl_consts)
  have t: "temp ex_anneal = 10" by (simp add: ex_anneal_def)
  have tt: "to_float (to_double (10 * to_double 0.95)) = 19 / 2"
    by (simp add: dbl_consts ex_anneal_temp_dbl ex_anneal_temp_flt)
  note s = anneal_schedule_step[OF h, of real_of_int wirelen_of_double]
  from s ex_anneal_above n
  have d: "diameter (anneal_schedule real_of_int wirelen_of_double ex_anneal) = 37"
    unfolding Let_def ex_anneal_D m i by (simp add: clamp_spec_def)
  from s ex_anneal_above n
  have "temp (anneal_schedule real_of_int wirelen_of_double ex_anneal) =
          to_float (to_double (temp ex_anneal *
                        (if to_double 0.96 < to_double (real_of_int (n_accept ex_anneal) / real_of_int (n_move ex_anneal))
                         then 0.5
                         else if to_double 0.8 < to_double (real_of_int (n_accept ex_anneal) / real_of_int (n_move ex_anneal))
                         then to_double 0.9
                         else if to_double 0.15 < to_double (real_of_int (n_accept ex_anneal) / real_of_int (n_move ex_anneal))
                                 \<and> diameter (anneal_schedule real_of_int wirelen_of_double ex_anneal) > 1
                         then to_double 0.95
                         else to_double 0.8)))"
    unfolding Let_def by blast
  then have e: "temp (anneal_schedule real_of_int wirelen_of_double ex_anneal) = 19 / 2"
    unfolding R d t using c tt by simp
  from s ex_anneal_above
  have a: "avg_wirelen (anneal_schedule real_of_int wirelen_of_double ex_anneal) = avg_wirelen ex_anneal"
    unfolding Let_def by blast
  have ni: "n_move ex_anneal_idle = 0" by (simp add: ex_anneal_idle_def)
  have ti: "to_float (to_double (temp ex_anneal_idle * (if 0 < n_accept ex_anneal_idle then 0.5 else to_double 0.8))) = 8"
    by (simp add: ex_anneal_idle_def dbl_consts ex_idle_temp_dbl ex_idle_temp_flt)
  note si = anneal_schedule_step[OF hi, of real_of_int wirelen_of_double]
  from si ex_idle_above ni
  have di: "diameter (anneal_schedule real_of_int wirelen_of_double ex_anneal_idle) = 1"
    and "temp (anneal_schedule real_of_int wirelen_of_double ex_anneal_idle)
           = to_float (to_double (temp ex_anneal_idle * (if 0 < n_accept ex_anneal_idle then 0.5 else to_double 0.8)))"
    unfolding Let_def by blast+
  then have ei: "temp (anneal_schedule real_of_int wirelen_of_double ex_anneal_idle) = 8"
    unfolding ti by simp
  note sd = anneal_schedule_step[OF hd, of real_of_int wirelen_of_double]
  from sd ex_drop_below
  have "anneal_schedule real_of_int wirelen_of_double ex_anneal_drop
          = ex_anneal_drop\<lparr>avg_wirelen :=
              wirelen_of_double (to_double (to_double (to_double 0.8 * real_of_int (avg_wirelen ex_anneal_drop))
                                 + to_double (to_double 0.2 * real_of_int (curr_wirelen_cost ex_anneal_drop))))\<rparr>"
    unfolding Let_def by blast
  then have dd: "anneal_schedule real_of_int wirelen_of_double ex_anneal_drop = ex_anneal_drop\<lparr>avg_wirelen := 980\<rparr>"
    unfolding ex_drop_avg .
  from h n ex_anneal_above d e a ni ex_idle_above di ei ex_drop_below dd show ?thesis by (intro conjI)
qed

lemma ex_odd_R: "to_double (59 / 100) = 5314247560297185 / 9007199254740992"
  unfolding to_double_def
  by (subst fp_round_near[where k = "- 1" and n = "5314247560297185"])
     (simp_all add: power_int_def power_divide inverse_eq_divide)

lemma ex_odd_sum: "to_double (10358279142952141 / 9007199254740992) = 2589569785738035 / 2251799813685248"
  unfolding to_double_def
  by (subst fp_round_tie[where k = "0" and f = "5179139571476070"])
     (simp_all add: power_int_def power_divide inverse_eq_divide)

lemma ex_odd_prod: "to_double (64739244643450875 / 1125899906842624) = 8092405580431359 / 140737488355328"
  unfolding to_double_def
  by (subst fp_round_near[where k = "5" and n = "8092405580431359"])
     (simp_all add: power_int_def power_divide inverse_eq_divide)

lemma ex_odd_half: "to_double (8162774324609023 / 140737488355328) = 8162774324609023 / 140737488355328"
  unfolding to_double_def
  by (subst fp_round_near[where k = "5" and n = "8162774324609023"])
     (simp_all add: power_int_def power_divide inverse_eq_divide)

lemma round_even_odd_tie: "round_even (115 / 2) = 58"
proof -
  have "(115 / 2 :: real) = real_of_int 57 + 1 / 2" by simp
  from round_even_tie[OF this] show ?thesis by simp
qed

text \<open>
  The claim as stated, with \<open>round (diameter * (1 - 0.44 + R))\<close> read in exact arithmetic,
  fails where the exact product lies half-way between two integers and the \<^verbatim>\<open>double\<close> product
  just below.  At diameter 50 with 57 of 100 moves accepted the exact product is 56.5, which
  rounds to 57, and the code sets the diameter to 56.  With 59 of 100 moves accepted the exact
  product is 57.5, which rounds to 58 whether a tie goes up or to the even neighbour, and the
  code sets the diameter to 57.
\<close>

theorem anneal_schedule_rounding_counterexample:
  "\<not> real_of_int (curr_wirelen_cost ex_anneal_tie) < 0.95 * real_of_int (avg_wirelen ex_anneal_tie)
   \<and> clamp_spec 1 (max (max_x ex_anneal_tie) (max_y ex_anneal_tie) + 1)
        (round (real_of_int (diameter ex_anneal_tie)
                  * (1 - 0.44 + real_of_int (n_accept ex_anneal_tie) / real_of_int (n_move ex_anneal_tie)))) = 57
   \<and> diameter (anneal_schedule real_of_int wirelen_of_double ex_anneal_tie) = 56
   \<and> \<not> real_of_int (curr_wirelen_cost ex_anneal_tie_odd) < 0.95 * real_of_int (avg_wirelen ex_anneal_tie_odd)
   \<and> real_of_int (diameter ex_anneal_tie_odd)
        * (1 - 0.44 + real_of_int (n_accept ex_anneal_tie_odd) / real_of_int (n_move ex_anneal_tie_odd)) = 57.5
   \<and> round (57.5 :: real) = 58 \<and> round_even 57.5 = 58
   \<and> clamp_spec 1 (max (max_x ex_anneal_tie_odd) (max_y ex_anneal_tie_odd) + 1) 58 = 58
   \<and> diameter (anneal_schedule real_of_int wirelen_of_double ex_anneal_tie_odd) = 57"
proof (intro conjI)
  show "\<not> real_of_int (curr_wirelen_cost ex_anneal_tie) < 0.95 * real_of_int (avg_wirelen ex_anneal_tie)"
    by (simp add: ex_anneal_tie_def)
  show "clamp_spec 1 (max (max_x ex_anneal_tie) (max_y ex_anneal_tie) + 1)
        (round (real_of_int (diameter ex_anneal_tie)
                  * (1 - 0.44 + real_of_int (n_accept ex_anneal_tie) / real_of_int (n_move ex_anneal_tie)))) = 57"
    by (simp add: ex_anneal_tie_def clamp_spec_def round_def)
  show "diameter (anneal_schedule real_of_int wirelen_of_double ex_anneal_tie) = 56"
    by (simp add: anneal_schedule_def Let_def ex_anneal_tie_def wrap32_def
          fp_div_def fp_add_def fp_mul_def fp_less_def int_of_double_def INT_MIN_def INT_MAX_def
          dbl_consts ex_anneal_avg ex_tie_R ex_tie_sum ex_tie_prod ex_tie_half)
  show "\<not> real_of_int (curr_wirelen_cost ex_anneal_tie_odd) < 0.95 * real_of_int (avg_wirelen ex_anneal_tie_odd)"
    by (simp add: ex_anneal_tie_odd_def)
  show "real_of_int (diameter ex_anneal_tie_odd)
        * (1 - 0.44 + real_of_int (n_accept ex_anneal_tie_odd) / real_of_int (n_move ex_anneal_tie_odd)) = 57.5"
    by (simp add: ex_anneal_tie_odd_def)
  show "round (57.5 :: real) = 58" by (simp add: round_def)
  show "round_even 57.5 = 58" using round_even_odd_tie by simp
  show "clamp_spec 1 (max (max_x ex_anneal_tie_odd) (max_y ex_anneal_tie_odd) + 1) 58 = 58"
    by (simp add: ex_anneal_tie_odd_def clamp_spec_def)
  show "diameter (anneal_schedule real_of_int wirelen_of_double ex_anneal_tie_odd) = 57"
    by (simp add: anneal_schedule_def Let_def ex_anneal_tie_odd_def wrap32_def
          fp_div_def fp_add_def fp_mul_def fp_less_def int_of_double_def INT_MIN_def INT_MAX_def
          dbl_consts ex_anneal_avg ex_odd_R ex_odd_sum ex_odd_prod ex_odd_half)
qed

subsection \<open>Acceptance of a position swap\<close>








lemma flt_draw_rounded_int: "to_float 16777217 = 16777216"
  unfolding to_float_def
  by (subst fp_round_tie[where k = "24" and f = "8388608"])
     (simp_all add: power_int_def power_divide inverse_eq_divide)




















subsection \<open>Releasing wires before the arch commit\<close>

lemma unbindWire_bound:
  assumes "wire_to_net ab a = Some (int i)" "i < length (nets_by_udata ab)"
  shows "wire_to_net (unbindWire a ab) = (wire_to_net ab)(a := None)"
    and "length (nets_by_udata (unbindWire a ab)) = length (nets_by_udata ab)"
    and "net_wires (nets_by_udata (unbindWire a ab) ! i) = filter (\<lambda>e. fst e \<noteq> a) (net_wires (nets_by_udata ab ! i))"
  using assms by (auto simp: unbindWire_def Let_def AList.delete_eq case_prod_unfold intro!: filter_cong)

lemma fold_unbindWire:
  assumes "i < length (nets_by_udata ab)" "distinct ws" "\<forall>w \<in> set ws. wire_to_net ab w = Some (int i)"
  shows "wire_to_net (fold unbindWire ws ab) = (\<lambda>w. if w \<in> set ws then None else wire_to_net ab w)
       \<and> length (nets_by_udata (fold unbindWire ws ab)) = length (nets_by_udata ab)
       \<and> net_wires (nets_by_udata (fold unbindWire ws ab) ! i)
           = filter (\<lambda>e. fst e \<notin> set ws) (net_wires (nets_by_udata ab ! i))"
  using assms
proof (induction ws arbitrary: ab)
  case Nil
  then show ?case by simp
next
  case (Cons a ws)
  let ?ab1 = "unbindWire a ab"
  have a: "wire_to_net ab a = Some (int i)" using Cons.prems(3) by simp
  note u = unbindWire_bound[OF a Cons.prems(1)]
  have p1: "i < length (nets_by_udata ?ab1)" using u(2) Cons.prems(1) by simp
  have p2: "distinct ws" and na: "a \<notin> set ws" using Cons.prems(2) by auto
  have p3: "\<forall>w \<in> set ws. wire_to_net ?ab1 w = Some (int i)"
    using Cons.prems(3) na by (auto simp: u(1))
  from Cons.IH[OF p1 p2 p3] show ?case
    by (auto simp: u fun_eq_iff intro!: filter_cong)
qed

lemma collect_net_wires_iff:
  "w \<in> set (collect_net_wires net) \<longleftrightarrow>
     (\<exists>pm. (w, pm) \<in> set (net_wires net) \<and> strength_rank (pm_strength pm) \<le> strength_rank STRENGTH_STRONG)"
  by (force simp: collect_net_wires_def)

lemma collect_net_wires_distinct:
  "distinct (map fst (net_wires net)) \<Longrightarrow> distinct (collect_net_wires net)"
  by (simp add: collect_net_wires_def distinct_map_filter)

lemma unbindWire_others:
  assumes "wire_to_net ab a = Some (int i)" "i < length (nets_by_udata ab)" "j \<noteq> i"
  shows "nets_by_udata (unbindWire a ab) ! j = nets_by_udata ab ! j"
  using assms by (simp add: unbindWire_def Let_def)

lemma fold_unbindWire_others:
  assumes "i < length (nets_by_udata ab)" "distinct ws" "\<forall>w \<in> set ws. wire_to_net ab w = Some (int i)"
    and "j \<noteq> i"
  shows "nets_by_udata (fold unbindWire ws ab) ! j = nets_by_udata ab ! j"
  using assms(1-3)
proof (induction ws arbitrary: ab)
  case Nil
  then show ?case by simp
next
  case (Cons a ws)
  let ?ab1 = "unbindWire a ab"
  have a: "wire_to_net ab a = Some (int i)" using Cons.prems(3) by simp
  note u = unbindWire_bound[OF a Cons.prems(1)]
  have p1: "i < length (nets_by_udata ?ab1)" using u(2) Cons.prems(1) by simp
  have p2: "distinct ws" and na: "a \<notin> set ws" using Cons.prems(2) by auto
  have p3: "\<forall>w \<in> set ws. wire_to_net ?ab1 w = Some (int i)"
    using Cons.prems(3) na by (auto simp: u(1))
  from Cons.IH[OF p1 p2 p3] unbindWire_others[OF a Cons.prems(1) assms(4)] show ?case
    by simp
qed

lemma ripup_net_wires_frame:
  assumes "net_bindings_agree i ab"
  shows "(\<forall>w. map_of (net_wires (nets_by_udata ab ! i)) w = None \<longrightarrow>
            wire_to_net (ripup_net_wires arch_ecp5 i ab) w = wire_to_net ab w)
       \<and> length (nets_by_udata (ripup_net_wires arch_ecp5 i ab)) = length (nets_by_udata ab)
       \<and> (\<forall>j. j \<noteq> i \<longrightarrow> nets_by_udata (ripup_net_wires arch_ecp5 i ab) ! j = nets_by_udata ab ! j)"
proof (cases "arch_ecp5 \<and> is_global (nets_by_udata ab ! i)")
  case True
  then show ?thesis by (simp add: ripup_net_wires_def Let_def)
next
  case False
  let ?net = "nets_by_udata ab ! i"
  let ?ws = "collect_net_wires ?net"
  have i: "i < length (nets_by_udata ab)" and d: "distinct (map fst (net_wires ?net))"
    and b: "\<forall>w \<in> set (map fst (net_wires ?net)). wire_to_net ab w = Some (int i)"
    using assms(1) by (auto simp: net_bindings_agree_def)
  have sub: "set ?ws \<subseteq> set (map fst (net_wires ?net))"
    by (auto simp: collect_net_wires_def)
  have r: "ripup_net_wires arch_ecp5 i ab = fold unbindWire ?ws ab"
    using False by (auto simp: ripup_net_wires_def Let_def)
  have b': "\<forall>w \<in> set ?ws. wire_to_net ab w = Some (int i)"
    using b sub by blast
  note fw = fold_unbindWire[OF i collect_net_wires_distinct[OF d] b']
  note fo = fold_unbindWire_others[OF i collect_net_wires_distinct[OF d] b']
  have n: "\<And>w. map_of (net_wires ?net) w = None \<Longrightarrow> w \<notin> set ?ws"
    using sub by (auto simp: map_of_eq_None_iff)
  show ?thesis unfolding r using fw fo n by simp
qed

lemma ripup_net_wires_own:
  assumes "net_bindings_agree i ab"
    and "\<not> (arch_ecp5 \<and> is_global (nets_by_udata ab ! i))"
  shows "\<forall>w pm. map_of (net_wires (nets_by_udata ab ! i)) w = Some pm \<longrightarrow>
           (strength_rank (pm_strength pm) \<le> strength_rank STRENGTH_STRONG \<longrightarrow>
              wire_to_net (ripup_net_wires arch_ecp5 i ab) w = None
              \<and> map_of (net_wires (nets_by_udata (ripup_net_wires arch_ecp5 i ab) ! i)) w = None)
         \<and> (strength_rank STRENGTH_STRONG < strength_rank (pm_strength pm) \<longrightarrow>
              wire_to_net (ripup_net_wires arch_ecp5 i ab) w = Some (int i)
              \<and> map_of (net_wires (nets_by_udata (ripup_net_wires arch_ecp5 i ab) ! i)) w = Some pm)"
proof (intro allI impI)
  fix w pm
  let ?net = "nets_by_udata ab ! i"
  let ?ws = "collect_net_wires ?net"
  assume m: "map_of (net_wires ?net) w = Some pm"
  have i: "i < length (nets_by_udata ab)" and d: "distinct (map fst (net_wires ?net))"
    and b: "\<forall>w \<in> set (map fst (net_wires ?net)). wire_to_net ab w = Some (int i)"
    using assms(1) by (auto simp: net_bindings_agree_def)
  have sub: "set ?ws \<subseteq> set (map fst (net_wires ?net))"
    by (auto simp: collect_net_wires_def)
  have r: "ripup_net_wires arch_ecp5 i ab = fold unbindWire ?ws ab"
    using assms(2) by (auto simp: ripup_net_wires_def Let_def)
  have b': "\<forall>w \<in> set ?ws. wire_to_net ab w = Some (int i)"
    using b sub by blast
  note fw = fold_unbindWire[OF i collect_net_wires_distinct[OF d] b']
  have f: "wire_to_net (fold unbindWire ?ws ab) = (\<lambda>w. if w \<in> set ?ws then None else wire_to_net ab w)"
    by (rule fw[THEN conjunct1])
  have g: "net_wires (nets_by_udata (fold unbindWire ?ws ab) ! i)
           = filter (\<lambda>e. fst e \<notin> set ?ws) (net_wires ?net)"
    by (rule fw[THEN conjunct2, THEN conjunct2])
  have mem: "(w, pm) \<in> set (net_wires ?net)" using m by (rule map_of_SomeD)
  have uniq: "\<And>pm'. (w, pm') \<in> set (net_wires ?net) \<Longrightarrow> pm' = pm"
    using d m by (simp add: map_of_eq_Some_iff)
  have c: "w \<in> set ?ws \<longleftrightarrow> strength_rank (pm_strength pm) \<le> strength_rank STRENGTH_STRONG"
    unfolding collect_net_wires_iff using mem uniq by blast
  have "w \<in> set (map fst (net_wires ?net))"
    using mem by (simp add: image_iff) (rule bexI[of _ "(w, pm)"], simp_all)
  then have bw: "wire_to_net ab w = Some (int i)" using b by blast
  have d': "distinct (map fst (filter (\<lambda>e. fst e \<notin> set ?ws) (net_wires ?net)))"
    using d by (rule distinct_map_filter)
  show "(strength_rank (pm_strength pm) \<le> strength_rank STRENGTH_STRONG \<longrightarrow>
              wire_to_net (ripup_net_wires arch_ecp5 i ab) w = None
              \<and> map_of (net_wires (nets_by_udata (ripup_net_wires arch_ecp5 i ab) ! i)) w = None)
         \<and> (strength_rank STRENGTH_STRONG < strength_rank (pm_strength pm) \<longrightarrow>
              wire_to_net (ripup_net_wires arch_ecp5 i ab) w = Some (int i)
              \<and> map_of (net_wires (nets_by_udata (ripup_net_wires arch_ecp5 i ab) ! i)) w = Some pm)"
  proof (cases "strength_rank (pm_strength pm) \<le> strength_rank STRENGTH_STRONG")
    case True
    then have "w \<in> set ?ws" using c by simp
    then have "map_of (filter (\<lambda>e. fst e \<notin> set ?ws) (net_wires ?net)) w = None"
      by (auto simp: map_of_eq_None_iff)
    with True \<open>w \<in> set ?ws\<close> show ?thesis unfolding r by (simp add: f g)
  next
    case False
    then have nw: "w \<notin> set ?ws" using c by simp
    then have "(w, pm) \<in> set (filter (\<lambda>e. fst e \<notin> set ?ws) (net_wires ?net))"
      using mem by simp
    then have "map_of (filter (\<lambda>e. fst e \<notin> set ?ws) (net_wires ?net)) w = Some pm"
      using d' by (simp add: map_of_eq_Some_iff)
    with False nw bw show ?thesis unfolding r by (simp add: f g)
  qed
qed

text \<open>
  C5 (as amended).  For a net that is not skipped as global, with a binding table that
  agrees with the net's own wire table: the unbind phase of \<^verbatim>\<open>bind_and_check_all\<close> unbinds from
  the device's binding table every wire of the net bound with strength at most
  \<^verbatim>\<open>STRENGTH_STRONG\<close> (weak and strong alike), and only those: a wire of the net bound with a
  strength above \<^verbatim>\<open>STRENGTH_STRONG\<close> remains bound to the net, with its entry; a wire that is
  not in the net's table keeps the binding it had; and the tables of the other nets are as
  they were.
\<close>

theorem ripup_net_wires_strength:
  assumes "net_bindings_agree i ab"
    and "\<not> (arch_ecp5 \<and> is_global (nets_by_udata ab ! i))"
  shows "(\<forall>w pm. map_of (net_wires (nets_by_udata ab ! i)) w = Some pm \<longrightarrow>
           (strength_rank (pm_strength pm) \<le> strength_rank STRENGTH_STRONG \<longrightarrow>
              wire_to_net (ripup_net_wires arch_ecp5 i ab) w = None
              \<and> map_of (net_wires (nets_by_udata (ripup_net_wires arch_ecp5 i ab) ! i)) w = None)
         \<and> (strength_rank STRENGTH_STRONG < strength_rank (pm_strength pm) \<longrightarrow>
              wire_to_net (ripup_net_wires arch_ecp5 i ab) w = Some (int i)
              \<and> map_of (net_wires (nets_by_udata (ripup_net_wires arch_ecp5 i ab) ! i)) w = Some pm))
       \<and> (\<forall>w. map_of (net_wires (nets_by_udata ab ! i)) w = None \<longrightarrow>
            wire_to_net (ripup_net_wires arch_ecp5 i ab) w = wire_to_net ab w)
       \<and> length (nets_by_udata (ripup_net_wires arch_ecp5 i ab)) = length (nets_by_udata ab)
       \<and> (\<forall>j. j \<noteq> i \<longrightarrow> nets_by_udata (ripup_net_wires arch_ecp5 i ab) ! j = nets_by_udata ab ! j)"
  using ripup_net_wires_own[OF assms] ripup_net_wires_frame[OF assms(1), of arch_ecp5] by (intro conjI) blast+

lemma ex_bindings_two_agree: "net_bindings_agree 0 ex_bindings_two"
  by (simp add: net_bindings_agree_def ex_bindings_two_def ex_bound_net_def)

lemma ex_bindings_two_not_global: "\<not> (True \<and> is_global (nets_by_udata ex_bindings_two ! 0))"
  by (simp add: ex_bindings_two_def ex_bound_net_def)

theorem ripup_net_wires_strength_witness:
  "net_bindings_agree 0 ex_bindings_two
   \<and> \<not> (True \<and> is_global (nets_by_udata ex_bindings_two ! 0))
   \<and> wire_to_net (ripup_net_wires True 0 ex_bindings_two) (Some 0) = None
   \<and> wire_to_net (ripup_net_wires True 0 ex_bindings_two) (Some 3) = Some 0
   \<and> wire_to_net ex_bindings_two (Some 5) = Some 1
   \<and> wire_to_net (ripup_net_wires True 0 ex_bindings_two) (Some 5) = Some 1
   \<and> nets_by_udata (ripup_net_wires True 0 ex_bindings_two) ! Suc 0 = ex_other_net"
proof -
  have m0: "map_of (net_wires (nets_by_udata ex_bindings_two ! 0)) (Some 0) = Some \<lparr>pm_pip = None, pm_strength = STRENGTH_WEAK\<rparr>"
    and m3: "map_of (net_wires (nets_by_udata ex_bindings_two ! 0)) (Some 3) = Some \<lparr>pm_pip = Some 2, pm_strength = STRENGTH_USER\<rparr>"
    and m5: "map_of (net_wires (nets_by_udata ex_bindings_two ! 0)) (Some 5) = None"
    by (simp_all add: ex_bindings_two_def ex_bound_net_def)
  have w5: "wire_to_net ex_bindings_two (Some 5) = Some 1"
    and n1: "nets_by_udata ex_bindings_two ! Suc 0 = ex_other_net"
    by (simp_all add: ex_bindings_two_def)
  note t = ripup_net_wires_strength[OF ex_bindings_two_agree ex_bindings_two_not_global]
  from t m0 have a: "wire_to_net (ripup_net_wires True 0 ex_bindings_two) (Some 0) = None" by fastforce
  from t m3 have b: "wire_to_net (ripup_net_wires True 0 ex_bindings_two) (Some 3) = Some 0" by fastforce
  from t m5 w5 have c: "wire_to_net (ripup_net_wires True 0 ex_bindings_two) (Some 5) = Some 1" by simp
  from t have "nets_by_udata (ripup_net_wires True 0 ex_bindings_two) ! Suc 0 = nets_by_udata ex_bindings_two ! Suc 0"
    by simp
  with n1 have d: "nets_by_udata (ripup_net_wires True 0 ex_bindings_two) ! Suc 0 = ex_other_net" by simp
  from a b c d w5 ex_bindings_two_agree ex_bindings_two_not_global show ?thesis by (intro conjI)
qed

text \<open>
  The claim as stated fails for strength \<^verbatim>\<open>STRENGTH_STRONG\<close> itself: a wire bound to the net
  with that strength is unbound by the unbind phase.
\<close>

theorem ripup_net_wires_strong_counterexample:
  "map_of (net_wires (nets_by_udata ex_bindings ! 0)) (Some 2) = Some \<lparr>pm_pip = Some 0, pm_strength = STRENGTH_STRONG\<rparr>
   \<and> wire_to_net ex_bindings (Some 2) = Some 0
   \<and> wire_to_net (ripup_net_wires True 0 ex_bindings) (Some 2) = None
   \<and> map_of (net_wires (nets_by_udata (ripup_net_wires True 0 ex_bindings) ! 0)) (Some 2) = None"
  by (simp add: ripup_net_wires_def collect_net_wires_def unbindWire_def ex_bindings_def ex_bound_net_def Let_def)

subsection \<open>Per-net data after set-up\<close>

lemma setup_user_defined:
  "(\<exists>nd'. setup_user ctx ni usr nd = Inr nd') \<longleftrightarrow> \<not> arc_wire_missing ctx ni usr"
  by (auto simp: setup_user_def arc_wire_missing_def Let_def)

lemma setup_user_effect:
  assumes "setup_user ctx ni usr nd = Inr nd'"
  shows "arcs nd' = arcs nd @ [\<lparr>arc_wires = [], arc_bb = getRouteBoundingBox ctx (arc_src_wire ctx ni usr) (getNetinfoSinkWire ctx ni usr)\<rparr>]"
    and "encloses (net_bb nd') (net_bb nd)"
    and "encloses (net_bb nd') (getRouteBoundingBox ctx (arc_src_wire ctx ni usr) (getNetinfoSinkWire ctx ni usr))"
    and "cx nd' = wrap32 (cx nd + loc_x (getBelLocation ctx (pr_bel usr)))"
    and "cy nd' = wrap32 (cy nd + loc_y (getBelLocation ctx (pr_bel usr)))"
  using assms by (auto simp: setup_user_def Let_def encloses_def split: if_splits)

lemma encloses_trans: "encloses a b \<Longrightarrow> encloses b c \<Longrightarrow> encloses a c"
  by (auto simp: encloses_def)

lemma encloses_refl: "encloses a a"
  by (simp add: encloses_def)

lemma setup_users_defined:
  "(\<exists>nd'. setup_users ctx ni us nd = Inr nd') \<longleftrightarrow> (\<forall>usr \<in> set us. \<not> arc_wire_missing ctx ni usr)"
proof (induction us arbitrary: nd)
  case Nil show ?case by simp
next
  case (Cons usr us)
  show ?case
  proof (cases "setup_user ctx ni usr nd")
    case (Inl e)
    then have "arc_wire_missing ctx ni usr" using setup_user_defined[of ctx ni usr nd] by auto
    with Inl show ?thesis by simp
  next
    case (Inr nd1)
    then have "\<not> arc_wire_missing ctx ni usr" using setup_user_defined[of ctx ni usr nd] by auto
    with Inr Cons.IH[of nd1] show ?thesis by simp
  qed
qed

lemma setup_users_effect:
  assumes "setup_users ctx ni us nd = Inr nd'"
  shows "arcs nd' = arcs nd @ map (\<lambda>usr. \<lparr>arc_wires = [], arc_bb = getRouteBoundingBox ctx (arc_src_wire ctx ni usr) (getNetinfoSinkWire ctx ni usr)\<rparr>) us
       \<and> encloses (net_bb nd') (net_bb nd)
       \<and> (\<forall>usr \<in> set us. encloses (net_bb nd') (getRouteBoundingBox ctx (arc_src_wire ctx ni usr) (getNetinfoSinkWire ctx ni usr)))
       \<and> cx nd' = fold (\<lambda>usr a. wrap32 (a + loc_x (getBelLocation ctx (pr_bel usr)))) us (cx nd)
       \<and> cy nd' = fold (\<lambda>usr a. wrap32 (a + loc_y (getBelLocation ctx (pr_bel usr)))) us (cy nd)"
  using assms
proof (induction us arbitrary: nd)
  case Nil
  then show ?case by (simp add: encloses_refl)
next
  case (Cons usr us)
  from Cons.prems obtain nd1 where 1: "setup_user ctx ni usr nd = Inr nd1"
    and 2: "setup_users ctx ni us nd1 = Inr nd'"
    by (auto split: sum.splits)
  note e = setup_user_effect[OF 1]
  note ih = Cons.IH[OF 2]
  have a: "encloses (net_bb nd') (net_bb nd1)" using ih by blast
  show ?case
    using ih e(1) encloses_trans[OF a e(2)] encloses_trans[OF a e(3)] e(4) e(5) by simp
qed

lemma setup_net_defined:
  "(\<exists>nd. setup_net ctx ni = Inr nd) \<longleftrightarrow> (\<forall>usr \<in> set (users ni). \<not> arc_wire_missing ctx ni usr)"
proof -
  have "(\<exists>nd. setup_net ctx ni = Inr nd) \<longleftrightarrow>
        (\<exists>nd'. setup_users ctx ni (users ni)
           (if pr_cell (driver ni) \<noteq> None then
                   (let drv_loc = getBelLocation ctx (pr_bel (driver ni))
                    in \<lparr>arcs = [],
                 net_bb = \<lparr>bb_x0 = INT_MAX, bb_y0 = INT_MAX, bb_x1 = INT_MIN, bb_y1 = INT_MIN\<rparr>,
                 cx = 0, cy = 0, hpwl = 0\<rparr>\<lparr>cx := wrap32 (0 + loc_x drv_loc), cy := wrap32 (0 + loc_y drv_loc)\<rparr>)
                 else \<lparr>arcs = [],
                 net_bb = \<lparr>bb_x0 = INT_MAX, bb_y0 = INT_MAX, bb_x1 = INT_MIN, bb_y1 = INT_MIN\<rparr>,
                 cx = 0, cy = 0, hpwl = 0\<rparr>) = Inr nd')"
    by (auto simp: setup_net_def Let_def split: sum.splits)
  then show ?thesis unfolding setup_users_defined .
qed

lemma setup_net_populated:
  assumes "setup_net ctx ni = Inr nd"
  shows "net_data_populated ctx ni nd"
proof -
  from assms obtain nd1 nd2 where
    u: "setup_users ctx ni (users ni) nd1 = Inr nd2" and a0: "arcs nd1 = []"
    and c0: "cx nd1 = (if pr_cell (driver ni) \<noteq> None then wrap32 (0 + loc_x (getBelLocation ctx (pr_bel (driver ni)))) else 0)"
            "cy nd1 = (if pr_cell (driver ni) \<noteq> None then wrap32 (0 + loc_y (getBelLocation ctx (pr_bel (driver ni)))) else 0)"
    and nd: "nd = nd2\<lparr>hpwl := max (wrap32 (abs32 (wrap32 (bb_y1 (net_bb nd2) - bb_y0 (net_bb nd2)))
                                         + abs32 (wrap32 (bb_x1 (net_bb nd2) - bb_x0 (net_bb nd2))))) 1,
                      cx := cpp_div (cx nd2) (int (length (users ni) + 1)),
                      cy := cpp_div (cy nd2) (int (length (users ni) + 1))\<rparr>"
    by (auto simp: setup_net_def Let_def split: sum.splits if_splits)
  from setup_users_effect[OF u] a0 have
    ar: "arcs nd2 = map (\<lambda>usr. \<lparr>arc_wires = [], arc_bb = getRouteBoundingBox ctx (arc_src_wire ctx ni usr) (getNetinfoSinkWire ctx ni usr)\<rparr>) (users ni)"
    and en: "\<forall>usr \<in> set (users ni). encloses (net_bb nd2) (getRouteBoundingBox ctx (arc_src_wire ctx ni usr) (getNetinfoSinkWire ctx ni usr))"
    and cc: "cx nd2 = centroid_sum ctx ni loc_x" "cy nd2 = centroid_sum ctx ni loc_y"
    unfolding centroid_sum_def c0[symmetric] by auto
  show ?thesis
    unfolding net_data_populated_def nd using ar en cc by simp
qed

lemma setup_nets_from_defined:
  "(\<exists>r. setup_nets_from ctx i netlist = Inr r) \<longleftrightarrow>
     (\<forall>k < length netlist. \<forall>usr \<in> set (users (netlist ! k)).
         \<not> arc_wire_missing ctx ((netlist ! k)\<lparr>udata := int (i + k)\<rparr>) usr)"
proof (induction netlist arbitrary: i)
  case Nil show ?case by simp
next
  case (Cons ni rest)
  have A: "(\<exists>r. setup_nets_from ctx i (ni # rest) = Inr r) \<longleftrightarrow>
           (\<exists>nd. setup_net ctx (ni\<lparr>udata := int i\<rparr>) = Inr nd) \<and> (\<exists>r. setup_nets_from ctx (Suc i) rest = Inr r)"
    by (cases "setup_net ctx (ni\<lparr>udata := int i\<rparr>)"; cases "setup_nets_from ctx (Suc i) rest") simp_all
  have e: "\<And>k. int (Suc i + k) = int (i + Suc k)" by simp
  have B: "(\<exists>r. setup_nets_from ctx (Suc i) rest = Inr r) \<longleftrightarrow>
           (\<forall>k < length rest. \<forall>usr \<in> set (users (rest ! k)).
               \<not> arc_wire_missing ctx ((rest ! k)\<lparr>udata := int (i + Suc k)\<rparr>) usr)"
    unfolding Cons.IH[of "Suc i"] e ..
  have C: "(\<exists>nd. setup_net ctx (ni\<lparr>udata := int i\<rparr>) = Inr nd) \<longleftrightarrow>
           (\<forall>usr \<in> set (users ni). \<not> arc_wire_missing ctx (ni\<lparr>udata := int i\<rparr>) usr)"
    by (simp add: setup_net_defined)
  show ?case unfolding A B C by (simp add: All_less_Suc2 add.commute add.left_commute)
qed

lemma setup_nets_from_result:
  assumes "setup_nets_from ctx i netlist = Inr (nds, nis)"
  shows "length nds = length netlist \<and> length nis = length netlist
       \<and> (\<forall>k < length netlist. nis ! k = (netlist ! k)\<lparr>udata := int (i + k)\<rparr>
            \<and> net_data_populated ctx ((netlist ! k)\<lparr>udata := int (i + k)\<rparr>) (nds ! k))"
  using assms
proof (induction netlist arbitrary: i nds nis)
  case Nil then show ?case by simp
next
  case (Cons ni rest)
  from Cons.prems obtain nd nds' nis' where
    1: "setup_net ctx (ni\<lparr>udata := int i\<rparr>) = Inr nd"
    and 2: "setup_nets_from ctx (Suc i) rest = Inr (nds', nis')"
    and 3: "nds = nd # nds'" "nis = ni\<lparr>udata := int i\<rparr> # nis'"
    by (auto split: sum.splits)
  note ih = Cons.IH[OF 2]
  note p = setup_net_populated[OF 1]
  have len: "length nds = length (ni # rest)" "length nis = length (ni # rest)"
    using ih 3 by simp_all
  have each: "nis ! k = ((ni # rest) ! k)\<lparr>udata := int (i + k)\<rparr>
            \<and> net_data_populated ctx (((ni # rest) ! k)\<lparr>udata := int (i + k)\<rparr>) (nds ! k)"
    if k: "k < length (ni # rest)" for k
  proof (cases k)
    case 0
    then show ?thesis using 3 p by simp
  next
    case (Suc n)
    then have n: "n < length rest" using k by simp
    have e: "int (Suc i + n) = int (i + Suc n)" by simp
    from ih n have "nis' ! n = (rest ! n)\<lparr>udata := int (Suc i + n)\<rparr>
            \<and> net_data_populated ctx ((rest ! n)\<lparr>udata := int (Suc i + n)\<rparr>) (nds' ! n)"
      by blast
    then show ?thesis unfolding e using Suc 3 by simp
  qed
  show ?case using len each by blast
qed

text \<open>
  C9 (as amended).  \<^verbatim>\<open>setup_nets\<close> fails with an error exactly when some net has a user for
  which the source wire (the driver's wire; for an undriven net the sink wire stands in) or
  the user's sink wire is missing; a net without users cannot make it fail.  Otherwise it
  returns, and it has populated the per-net and per-arc data of every net: net number \<open>k\<close>
  has \<^verbatim>\<open>udata = k\<close>, one arc per user with its bounding box, the net bounding box around
  them, the centroid and \<^verbatim>\<open>hpwl \<ge> 1\<close>.
\<close>

theorem setup_nets_result:
  "((\<exists>r. setup_nets ctx netlist = Inr r) \<longleftrightarrow>
      (\<forall>k < length netlist. \<forall>usr \<in> set (users (netlist ! k)).
          \<not> arc_wire_missing ctx ((netlist ! k)\<lparr>udata := int k\<rparr>) usr))
   \<and> (\<forall>nds nis. setup_nets ctx netlist = Inr (nds, nis) \<longrightarrow>
         length nds = length netlist \<and> length nis = length netlist
       \<and> (\<forall>k < length netlist. nis ! k = (netlist ! k)\<lparr>udata := int k\<rparr>
            \<and> net_data_populated ctx ((netlist ! k)\<lparr>udata := int k\<rparr>) (nds ! k)))"
proof (intro conjI allI impI)
  show "(\<exists>r. setup_nets ctx netlist = Inr r) \<longleftrightarrow>
      (\<forall>k < length netlist. \<forall>usr \<in> set (users (netlist ! k)).
          \<not> arc_wire_missing ctx ((netlist ! k)\<lparr>udata := int k\<rparr>) usr)"
    using setup_nets_from_defined[of ctx 0 netlist] by (simp add: setup_nets_def)
next
  fix nds nis assume "setup_nets ctx netlist = Inr (nds, nis)"
  then have r: "setup_nets_from ctx 0 netlist = Inr (nds, nis)" by (simp add: setup_nets_def)
  note t = setup_nets_from_result[OF r]
  show "length nds = length netlist" "length nis = length netlist" using t by blast+
  fix k assume "k < length netlist"
  with t show "nis ! k = (netlist ! k)\<lparr>udata := int k\<rparr>"
    and "net_data_populated ctx ((netlist ! k)\<lparr>udata := int k\<rparr>) (nds ! k)" by simp_all
qed

theorem setup_nets_result_witness:
  "(\<exists>nds nis. setup_nets ex_ctx [ex_net] = Inr (nds, nis)
       \<and> length nds = 1 \<and> nis ! 0 = ex_net\<lparr>udata := 0\<rparr>
       \<and> net_data_populated ex_ctx (ex_net\<lparr>udata := 0\<rparr>) (nds ! 0))
   \<and> setup_nets ex_ctx_unwired [ex_net] = Inl NoSourceWire"
proof -
  have ok: "\<forall>k < length [ex_net]. \<forall>usr \<in> set (users ([ex_net] ! k)).
          \<not> arc_wire_missing ex_ctx (([ex_net] ! k)\<lparr>udata := int k\<rparr>) usr"
    by (simp add: arc_wire_missing_def arc_src_wire_def ex_net_def ex_ctx_def)
  note t = setup_nets_result[of ex_ctx "[ex_net]"]
  from t ok obtain nds nis where r: "setup_nets ex_ctx [ex_net] = Inr (nds, nis)" by auto
  with t have "length nds = length [ex_net] \<and> length nis = length [ex_net]
       \<and> (\<forall>k < length [ex_net]. nis ! k = ([ex_net] ! k)\<lparr>udata := int k\<rparr>
            \<and> net_data_populated ex_ctx (([ex_net] ! k)\<lparr>udata := int k\<rparr>) (nds ! k))"
    by blast
  then have "length nds = 1 \<and> nis ! 0 = ex_net\<lparr>udata := 0\<rparr>
       \<and> net_data_populated ex_ctx (ex_net\<lparr>udata := 0\<rparr>) (nds ! 0)"
    by simp
  moreover have "setup_nets ex_ctx_unwired [ex_net] = Inl NoSourceWire"
    by (simp add: setup_nets_def setup_net_def setup_user_def arc_src_wire_def Let_def
          ex_ctx_unwired_def ex_ctx_def ex_net_def)
  ultimately show ?thesis using r by blast
qed

lemma hpwl_sentinel:
  "max (wrap32 (2 * abs32 (wrap32 (INT_MIN - INT_MAX)))) 1 = 2"
  by (simp add: INT_MAX_def INT_MIN_def wrap32_def abs32_def)

lemma ex_dangling_net:
  "setup_net ex_ctx_unwired (ex_dangling\<lparr>udata := 0\<rparr>) =
     Inr \<lparr>arcs = [], net_bb = \<lparr>bb_x0 = INT_MAX, bb_y0 = INT_MAX, bb_x1 = INT_MIN, bb_y1 = INT_MIN\<rparr>,
          cx = 0, cy = 0, hpwl = 2\<rparr>"
proof -
  have u: "users (ex_dangling\<lparr>udata := 0\<rparr>) = []" by (simp add: ex_dangling_def)
  have l: "getBelLocation ex_ctx_unwired (pr_bel (driver (ex_dangling\<lparr>udata := 0\<rparr>))) = \<lparr>loc_x = 0, loc_y = 0, loc_z = 0\<rparr>"
    by (simp add: ex_ctx_unwired_def ex_ctx_def)
  have w0: "wrap32 0 = 0" by (simp add: wrap32_def)
  have d0: "cpp_div 0 1 = 0" by (simp add: cpp_div_def)
  show ?thesis
    unfolding setup_net_def Let_def u l by (simp add: hpwl_sentinel w0 d0)
qed

text \<open>
  The claim as stated fails for a driven net without users: its driver port has no wire,
  and \<^verbatim>\<open>setup_nets\<close> returns (the checks sit inside the loop over the users).  On the
  sentinels the \<^verbatim>\<open>hpwl\<close> of such a net wraps around to 2.
\<close>

theorem setup_nets_dangling_counterexample:
  "pr_cell (driver ex_dangling) \<noteq> None
   \<and> getNetinfoSourceWire ex_ctx_unwired ex_dangling = None
   \<and> setup_nets ex_ctx_unwired [ex_dangling] =
       Inr ([\<lparr>arcs = [], net_bb = \<lparr>bb_x0 = INT_MAX, bb_y0 = INT_MAX, bb_x1 = INT_MIN, bb_y1 = INT_MIN\<rparr>,
               cx = 0, cy = 0, hpwl = 2\<rparr>],
            [ex_dangling\<lparr>udata := 0\<rparr>])"
proof -
  have "pr_cell (driver ex_dangling) \<noteq> None" by (simp add: ex_dangling_def ex_net_def)
  moreover have "getNetinfoSourceWire ex_ctx_unwired ex_dangling = None" by (simp add: ex_ctx_unwired_def)
  moreover have "setup_nets ex_ctx_unwired [ex_dangling] =
       Inr ([\<lparr>arcs = [], net_bb = \<lparr>bb_x0 = INT_MAX, bb_y0 = INT_MAX, bb_x1 = INT_MIN, bb_y1 = INT_MIN\<rparr>,
               cx = 0, cy = 0, hpwl = 2\<rparr>],
            [ex_dangling\<lparr>udata := 0\<rparr>])"
    by (simp add: setup_nets_def ex_dangling_net)
  ultimately show ?thesis by blast
qed

subsection \<open>Pre-routed arcs in the net loop\<close>

lemma route_net_schedule_strong:
  assumes "check_arc_routing fuel ctx (fst st) net i = Some (Inr False)"
    and "map_of (net_wires net) (getNetinfoSinkWire ctx net (users net ! i)) = Some pm"
    and "strength_rank (pm_strength pm) > strength_rank STRENGTH_STRONG"
  shows "route_net_schedule fuel ctx net (i # js) st = Some (Inr (Inr (False, st)))"
  using assms by (simp add: bool_of_enum_def)

lemma ex_prerouted_check:
  "check_arc_routing (Suc 0) ex_ctx ex_router ex_prerouted 0 = Some (Inr False)"
  by (simp add: check_arc_routing_def nets_at_def arcs_at_def ex_router_def ex_prerouted_def ex_net_def ex_ctx_def)

text \<open>
  C4.  The claim: when \<^verbatim>\<open>route_net\<close> meets an unrouted arc whose sink wire is bound in the net
  with a strength above \<^verbatim>\<open>STRENGTH_STRONG\<close>, it returns success (\<^verbatim>\<open>true\<close>) and keeps the arc.
  The code returns \<^verbatim>\<open>ARC_SUCCESS\<close> there, whose value 0 converts to \<^verbatim>\<open>false\<close>: on the net below,
  driven, with one user whose arc is not routed and whose sink wire is bound with
  \<^verbatim>\<open>STRENGTH_USER\<close>, \<^verbatim>\<open>route_net\<close> returns \<^verbatim>\<open>false\<close>, the router state unchanged.
\<close>

theorem route_net_prerouted_returns_false:
  "pr_cell (driver ex_prerouted) \<noteq> None
   \<and> check_arc_routing (Suc 0) ex_ctx ex_router ex_prerouted 0 = Some (Inr False)
   \<and> map_of (net_wires ex_prerouted) (getNetinfoSinkWire ex_ctx ex_prerouted (users ex_prerouted ! 0))
        = Some \<lparr>pm_pip = Some 1, pm_strength = STRENGTH_USER\<rparr>
   \<and> route_net (Suc 0) ex_ctx False ex_prerouted False (ex_router, ex_thread)
        = Some (Inr (False, ex_router, ex_thread))"
proof -
  have d: "pr_cell (driver ex_prerouted) \<noteq> None" by (simp add: ex_prerouted_def ex_net_def)
  have u: "[0 ..< length (users ex_prerouted)] = [0]" by (simp add: ex_prerouted_def ex_net_def)
  have m: "map_of (net_wires ex_prerouted) (getNetinfoSinkWire ex_ctx ex_prerouted (users ex_prerouted ! 0))
        = Some \<lparr>pm_pip = Some 1, pm_strength = STRENGTH_USER\<rparr>"
    by (simp add: ex_prerouted_def ex_net_def ex_ctx_def)
  have t: "ex_thread\<lparr>processed_sinks := {}, route_arcs := []\<rparr> = ex_thread" by (simp add: ex_thread_def)
  have "route_net_schedule (Suc 0) ex_ctx ex_prerouted [0] (ex_router, ex_thread) = Some (Inr (Inr (False, ex_router, ex_thread)))"
    by (rule route_net_schedule_strong[where pm = "\<lparr>pm_pip = Some 1, pm_strength = STRENGTH_USER\<rparr>"])
       (simp_all add: ex_prerouted_check m)
  then have "route_net (Suc 0) ex_ctx False ex_prerouted False (ex_router, ex_thread)
        = Some (Inr (False, ex_router, ex_thread))"
    using d by (simp add: route_net_def u t)
  with d m ex_prerouted_check show ?thesis by blast
qed

subsection \<open>Budget of the forward search\<close>

lemma wrap32_id: "INT_MIN \<le> v \<Longrightarrow> v \<le> INT_MAX \<Longrightarrow> wrap32 v = v"
  by (simp add: wrap32_def INT_MIN_def INT_MAX_def)

lemma wrap32_range: "INT_MIN \<le> wrap32 v \<and> wrap32 v \<le> INT_MAX"
  by (simp add: wrap32_def INT_MIN_def INT_MAX_def)

lemma astar_budget_exact:
  "box_arith_exact bb \<Longrightarrow>
     astar_budget bb = 25000 * max 1 ((bb_x1 bb - bb_x0 bb) + (bb_y1 bb - bb_y0 bb))"
proof -
  assume b: "box_arith_exact bb"
  let ?w = "bb_x1 bb - bb_x0 bb" and ?h = "bb_y1 bb - bb_y0 bb"
  from b have 1: "wrap32 ?w = ?w" and 2: "wrap32 ?h = ?h"
    by (simp_all add: box_arith_exact_def wrap32_id)
  from b have "25000 * max 1 (?w + ?h) \<le> INT_MAX" by (simp add: box_arith_exact_def)
  then have u: "?w + ?h \<le> INT_MAX" by (simp add: INT_MAX_def max_def split: if_splits)
  from b u have 3: "wrap32 (?w + ?h) = ?w + ?h"
    by (simp add: box_arith_exact_def wrap32_id)
  have "INT_MIN \<le> 25000 * max 1 (?w + ?h)" by (simp add: INT_MIN_def max_def)
  with b have 4: "wrap32 (25000 * max 1 (?w + ?h)) = 25000 * max 1 (?w + ?h)"
    by (simp add: box_arith_exact_def wrap32_id)
  show ?thesis by (simp add: astar_budget_def 1 2 3 4)
qed

lemma fwd_visit_pip_effect:
  assumes "fwd_visit_pip ctx s net i is_bb dst_wire ad cur dh a = Inr a'"
  shows "iter a' = iter a" and "toexplore a' \<le> toexplore a"
    and "visited a dst_wire = None \<Longrightarrow> visited a' dst_wire \<noteq> None \<Longrightarrow> toexplore a' \<le> wrap32 (iter a + 5)"
    and "visited a w \<noteq> None \<Longrightarrow> visited a' w \<noteq> None"
proof -
  have "a' = a \<or> (\<exists>nx sc q. a' = a\<lparr>explored := wrap32 (explored a + 1),
                                        queue := queue a @ [q],
                                        rng_pos := Suc (rng_pos a),
                                        visited := (visited a)(nx \<mapsto> sc),
                                        toexplore := (if nx = dst_wire then min (toexplore a) (wrap32 (iter a + 5))
                                                      else toexplore a)\<rparr>)"
    using assms unfolding fwd_visit_pip_def Let_def
    by (auto split: if_splits option.splits sum.splits)
  then show "iter a' = iter a" and "toexplore a' \<le> toexplore a"
    and "visited a dst_wire = None \<Longrightarrow> visited a' dst_wire \<noteq> None \<Longrightarrow> toexplore a' \<le> wrap32 (iter a + 5)"
    and "visited a w \<noteq> None \<Longrightarrow> visited a' w \<noteq> None"
    by (auto split: if_splits)
qed

lemma fwd_visit_pips_effect:
  assumes "fwd_visit_pips ctx s net i is_bb dst_wire ad cur dhs a = Inr a'"
  shows "iter a' = iter a \<and> toexplore a' \<le> toexplore a
       \<and> (visited a dst_wire = None \<longrightarrow> visited a' dst_wire \<noteq> None \<longrightarrow> toexplore a' \<le> wrap32 (iter a + 5))
       \<and> (\<forall>w. visited a w \<noteq> None \<longrightarrow> visited a' w \<noteq> None)"
  using assms
proof (induction dhs arbitrary: a)
  case Nil
  then show ?case by simp
next
  case (Cons dh dhs)
  from Cons.prems obtain a1 where 1: "fwd_visit_pip ctx s net i is_bb dst_wire ad cur dh a = Inr a1"
    and 2: "fwd_visit_pips ctx s net i is_bb dst_wire ad cur dhs a1 = Inr a'"
    by (auto split: sum.splits)
  note e = fwd_visit_pip_effect[OF 1]
  note ih = Cons.IH[OF 2]
  have i: "iter a' = iter a" using ih e(1) by simp
  have t: "toexplore a' \<le> toexplore a" using ih e(2) by linarith
  have v: "\<forall>w. visited a w \<noteq> None \<longrightarrow> visited a' w \<noteq> None" using ih e(4) by blast
  have f: "toexplore a' \<le> wrap32 (iter a + 5)" if n: "visited a dst_wire = None" and s: "visited a' dst_wire \<noteq> None"
  proof (cases "visited a1 dst_wire = None")
    case True
    with ih s have "toexplore a' \<le> wrap32 (iter a1 + 5)" by blast
    then show ?thesis using e(1) by simp
  next
    case False
    with e(3)[OF n] have "toexplore a1 \<le> wrap32 (iter a + 5)" by blast
    with ih show ?thesis by linarith
  qed
  show ?case using i t v f by blast
qed

lemma astar_body_effect:
  assumes "astar_body ctx s net i is_bb dst_wire ad a = Inr a'" "queue a \<noteq> []"
  shows "iter a' = wrap32 (iter a + 1) \<and> toexplore a' \<le> toexplore a
       \<and> (visited a dst_wire = None \<longrightarrow> visited a' dst_wire \<noteq> None \<longrightarrow> toexplore a' \<le> wrap32 (iter a' + 5))"
proof -
  from assms(2) obtain q qs where q: "queue a = q # qs" by (cases "queue a") auto
  let ?cur = "pq_top_from q qs"
  let ?a1 = "a\<lparr>queue := remove1 ?cur (queue a), iter := wrap32 (iter a + 1)\<rparr>"
  have "fwd_visit_pips ctx s net i is_bb dst_wire ad ?cur (getPipsDownhill ctx (qw_wire ?cur)) ?a1 = Inr a'"
    using assms(1) q by (simp add: astar_body_def Let_def)
  from fwd_visit_pips_effect[OF this] show ?thesis by simp
qed

lemma astar_body_exact:
  assumes "astar_body ctx s net i is_bb dst_wire ad a = Inr a'" "queue a \<noteq> []"
    and "INT_MIN \<le> iter a" "iter a + 6 \<le> INT_MAX"
  shows "iter a' = iter a + 1 \<and> toexplore a' \<le> toexplore a
       \<and> (visited a dst_wire = None \<longrightarrow> visited a' dst_wire \<noteq> None \<longrightarrow> toexplore a' \<le> iter a' + 5)"
proof -
  have 1: "wrap32 (iter a + 1) = iter a + 1" using assms(3,4) by (intro wrap32_id) (simp_all add: INT_MIN_def)
  have 2: "wrap32 (iter a + 1 + 5) = iter a + 1 + 5" using assms(3,4) by (intro wrap32_id) (simp_all add: INT_MIN_def)
  note b = astar_body_effect[OF assms(1,2)]
  from b have e0: "iter a' = wrap32 (iter a + 1)" by (rule conjunct1)
  from b have t: "toexplore a' \<le> toexplore a" by (rule conjunct2[THEN conjunct1])
  from b have f: "visited a dst_wire = None \<longrightarrow> visited a' dst_wire \<noteq> None \<longrightarrow> toexplore a' \<le> wrap32 (iter a' + 5)"
    by (rule conjunct2[THEN conjunct2])
  have e: "iter a' = iter a + 1" using e0 1 by (rule trans)
  have w: "wrap32 (iter a' + 5) = iter a' + 5" unfolding e by (rule 2)
  from f have "visited a dst_wire = None \<longrightarrow> visited a' dst_wire \<noteq> None \<longrightarrow> toexplore a' \<le> iter a' + 5"
    unfolding w .
  with e t show ?thesis by (intro conjI)
qed

lemma astar_loop_bounded:
  "0 \<le> iter a \<Longrightarrow> toexplore a \<le> INT_MAX \<Longrightarrow> nat (toexplore a - iter a) < fuel \<Longrightarrow>
     \<exists>k \<le> nat (toexplore a - iter a).
        astar_loop fuel ctx s net i True dst_wire ad a = Some (astar_rounds k ctx s net i True dst_wire ad a)
      \<and> (\<forall>a'. astar_rounds k ctx s net i True dst_wire ad a = Inr a' \<longrightarrow> iter a' = iter a + int k)"
proof (induction fuel arbitrary: a)
  case 0
  then show ?case by simp
next
  case (Suc fuel)
  show ?case
  proof (cases "astar_cond True a")
    case False
    then have "astar_loop (Suc fuel) ctx s net i True dst_wire ad a = Some (astar_rounds 0 ctx s net i True dst_wire ad a)
        \<and> (\<forall>a'. astar_rounds 0 ctx s net i True dst_wire ad a = Inr a' \<longrightarrow> iter a' = iter a + int 0)"
      by simp
    then show ?thesis by blast
  next
    case True
    then have lt: "iter a < toexplore a" and ne: "queue a \<noteq> []" by (simp_all add: astar_cond_def)
    show ?thesis
    proof (cases "astar_body ctx s net i True dst_wire ad a")
      case (Inl e)
      with True have "astar_loop (Suc fuel) ctx s net i True dst_wire ad a = Some (astar_rounds (Suc 0) ctx s net i True dst_wire ad a)
          \<and> (\<forall>a'. astar_rounds (Suc 0) ctx s net i True dst_wire ad a = Inr a' \<longrightarrow> iter a' = iter a + int (Suc 0))"
        by simp
      moreover have "Suc 0 \<le> nat (toexplore a - iter a)" using lt by simp
      ultimately show ?thesis by blast
    next
      case (Inr a1)
      have w: "wrap32 (iter a + 1) = iter a + 1"
        using Suc.prems(1,2) lt by (intro wrap32_id) (simp_all add: INT_MIN_def)
      from astar_body_effect[OF Inr ne] have i1: "iter a1 = iter a + 1" and t1: "toexplore a1 \<le> toexplore a"
        by (simp_all add: w)
      have p1: "0 \<le> iter a1" using i1 Suc.prems(1) by simp
      have p2: "toexplore a1 \<le> INT_MAX" using t1 Suc.prems(2) by simp
      have "nat (toexplore a1 - iter a1) < fuel" using Suc.prems(3) i1 t1 lt by linarith
      from Suc.IH[OF p1 p2 this] obtain k where k: "k \<le> nat (toexplore a1 - iter a1)"
        and l: "astar_loop fuel ctx s net i True dst_wire ad a1 = Some (astar_rounds k ctx s net i True dst_wire ad a1)"
        and f: "\<forall>a'. astar_rounds k ctx s net i True dst_wire ad a1 = Inr a' \<longrightarrow> iter a' = iter a1 + int k"
        by blast
      have "astar_loop (Suc fuel) ctx s net i True dst_wire ad a = Some (astar_rounds (Suc k) ctx s net i True dst_wire ad a)"
        using True Inr l by simp
      moreover have "\<forall>a'. astar_rounds (Suc k) ctx s net i True dst_wire ad a = Inr a' \<longrightarrow> iter a' = iter a + int (Suc k)"
        using Inr f i1 by simp
      moreover have "Suc k \<le> nat (toexplore a - iter a)" using k i1 t1 lt by linarith
      ultimately show ?thesis by blast
    qed
  qed
qed

lemma astar_init_fields:
  "toexplore (astar_init ctx src_wire ad tg t) = astar_budget (arc_bb ad)"
  "iter (astar_init ctx src_wire ad tg t) = 0"
  by (simp_all add: astar_init_def Let_def ThreadContext.defs AStar.defs)

lemma route_arc_retry:
  assumes "nets_at (fst st) (udata net) = Inr nd" "arcs_at nd i = Inr ad" "i < length (users net)"
    and "getNetinfoSourceWire ctx net = src_wire" "getNetinfoSinkWire ctx net (users net ! i) = dst_wire"
    and "src_wire \<noteq> None" "dst_wire \<noteq> None" "dst_wire \<notin> processed_sinks (snd st)"
    and "bwd_loop fuel fuel ctx (fst st) net src_wire (bwd_init dst_wire (snd st)) = Some (Inr t1)"
    and "backwards_pip t1 src_wire = None"
    and "get_togo_cost ctx (fst st) net i src_wire dst_wire = Inr tg"
    and "astar_loop fuel ctx (fst st) net i is_bb dst_wire ad (astar_init ctx src_wire ad tg t1) = Some (Inr a1)"
    and "visited a1 dst_wire = None"
  shows "route_arc fuel ctx net i is_mt is_bb st = Some (Inr (ARC_RETRY_WITHOUT_BB, fst st, ThreadContext.truncate a1))"
proof -
  have v: "visited (ThreadContext.truncate a1) dst_wire = None"
    using assms(13) by (simp add: ThreadContext.defs)
  have f: "route_arc_forwards fuel ctx net i is_bb src_wire dst_wire ad (fst st, t1)
            = Some (Inr (ARC_RETRY_WITHOUT_BB, fst st, ThreadContext.truncate a1))"
    using assms(11,12) v by (simp add: route_arc_forwards_def route_arc_finish_def)
  show ?thesis
    using assms(1-10) f by (simp add: route_arc_def Let_def)
qed

text \<open>
  C3.  In \<^verbatim>\<open>route_arc\<close> with \<^verbatim>\<open>is_bb = true\<close>, for a box on which the \<^verbatim>\<open>int\<close> arithmetic of the
  budget does not overflow, the forward loop ends, and it has then run some number \<open>k\<close> of
  rounds with \<open>k\<close> at most \<open>25000 * max 1 ((bb.x1 - bb.x0) + (bb.y1 - bb.y0))\<close>; \<^verbatim>\<open>iter\<close> is then
  \<open>k\<close>.  Every round, in either mode, that starts with \<^verbatim>\<open>iter\<close> at least 6 below \<^verbatim>\<open>INT_MAX\<close> adds
  one to \<^verbatim>\<open>iter\<close> and never raises the budget \<^verbatim>\<open>toexplore\<close>; the round in which the sink wire
  enters the visited map leaves the budget at no more than the iteration count plus 5.  And
  when the backwards prelude has not reached the source and the forward loop ends with the
  sink wire absent from the visited map, \<^verbatim>\<open>route_arc\<close> returns \<^verbatim>\<open>ARC_RETRY_WITHOUT_BB\<close>, with
  the congestion map as it was.
\<close>

theorem route_arc_astar_budget:
  "(box_arith_exact (arc_bb ad) \<longrightarrow>
      (\<forall>fuel tg t.
          25000 * max 1 ((bb_x1 (arc_bb ad) - bb_x0 (arc_bb ad)) + (bb_y1 (arc_bb ad) - bb_y0 (arc_bb ad))) < int fuel \<longrightarrow>
          (\<exists>k. int k \<le> 25000 * max 1 ((bb_x1 (arc_bb ad) - bb_x0 (arc_bb ad)) + (bb_y1 (arc_bb ad) - bb_y0 (arc_bb ad)))
             \<and> astar_loop fuel ctx s net i True dst_wire ad (astar_init ctx src_wire ad tg t)
                  = Some (astar_rounds k ctx s net i True dst_wire ad (astar_init ctx src_wire ad tg t))
             \<and> (\<forall>a'. astar_rounds k ctx s net i True dst_wire ad (astar_init ctx src_wire ad tg t) = Inr a' \<longrightarrow>
                    iter a' = int k))))
   \<and> (\<forall>a a'. astar_cond is_bb a \<and> astar_body ctx s net i is_bb dst_wire ad a = Inr a'
          \<and> INT_MIN \<le> iter a \<and> iter a + 6 \<le> INT_MAX \<longrightarrow>
         iter a' = iter a + 1 \<and> toexplore a' \<le> toexplore a
       \<and> (visited a dst_wire = None \<and> visited a' dst_wire \<noteq> None \<longrightarrow> toexplore a' \<le> iter a' + 5))
   \<and> (\<forall>fuel is_mt t nd t1 tg a1.
         nets_at s (udata net) = Inr nd \<and> arcs_at nd i = Inr ad \<and> i < length (users net)
         \<and> getNetinfoSourceWire ctx net = src_wire \<and> getNetinfoSinkWire ctx net (users net ! i) = dst_wire
         \<and> src_wire \<noteq> None \<and> dst_wire \<noteq> None \<and> dst_wire \<notin> processed_sinks t
         \<and> bwd_loop fuel fuel ctx s net src_wire (bwd_init dst_wire t) = Some (Inr t1)
         \<and> backwards_pip t1 src_wire = None
         \<and> get_togo_cost ctx s net i src_wire dst_wire = Inr tg
         \<and> astar_loop fuel ctx s net i is_bb dst_wire ad (astar_init ctx src_wire ad tg t1) = Some (Inr a1)
         \<and> visited a1 dst_wire = None \<longrightarrow>
         route_arc fuel ctx net i is_mt is_bb (s, t)
           = Some (Inr (ARC_RETRY_WITHOUT_BB, s, ThreadContext.truncate a1)))"
proof (intro conjI allI impI)
  fix fuel tg t
  define N where "N = 25000 * max 1 ((bb_x1 (arc_bb ad) - bb_x0 (arc_bb ad)) + (bb_y1 (arc_bb ad) - bb_y0 (arc_bb ad)))"
  let ?a0 = "astar_init ctx src_wire ad tg t"
  assume b: "box_arith_exact (arc_bb ad)"
    and "25000 * max 1 ((bb_x1 (arc_bb ad) - bb_x0 (arc_bb ad)) + (bb_y1 (arc_bb ad) - bb_y0 (arc_bb ad))) < int fuel"
  then have f: "N < int fuel" by (simp add: N_def)
  have te: "toexplore ?a0 = N" using astar_budget_exact[OF b] by (simp add: astar_init_fields N_def)
  have it: "iter ?a0 = 0" by (simp add: astar_init_fields)
  have p1: "0 \<le> iter ?a0" using it by simp
  have p2: "toexplore ?a0 \<le> INT_MAX" using b te by (simp add: box_arith_exact_def N_def)
  have N0: "0 \<le> N" by (simp add: N_def)
  have "nat N < fuel" using f N0 by linarith
  then have p3: "nat (toexplore ?a0 - iter ?a0) < fuel" using te it by simp
  from astar_loop_bounded[OF p1 p2 p3, of ctx s net i dst_wire ad] obtain k where
    k: "k \<le> nat (toexplore ?a0 - iter ?a0)"
    and l: "astar_loop fuel ctx s net i True dst_wire ad ?a0 = Some (astar_rounds k ctx s net i True dst_wire ad ?a0)"
    and r: "\<forall>a'. astar_rounds k ctx s net i True dst_wire ad ?a0 = Inr a' \<longrightarrow> iter a' = iter ?a0 + int k"
    by blast
  note N0
  moreover have "k \<le> nat N" using k te it by simp
  ultimately have "int k \<le> N" by linarith
  then have "int k \<le> N" .
  moreover have "\<forall>a'. astar_rounds k ctx s net i True dst_wire ad ?a0 = Inr a' \<longrightarrow> iter a' = int k"
    using r it by simp
  ultimately have "int k \<le> N
             \<and> astar_loop fuel ctx s net i True dst_wire ad ?a0
                  = Some (astar_rounds k ctx s net i True dst_wire ad ?a0)
             \<and> (\<forall>a'. astar_rounds k ctx s net i True dst_wire ad ?a0 = Inr a' \<longrightarrow> iter a' = int k)"
    using l by (intro conjI)
  then have "\<exists>k. int k \<le> N
             \<and> astar_loop fuel ctx s net i True dst_wire ad ?a0
                  = Some (astar_rounds k ctx s net i True dst_wire ad ?a0)
             \<and> (\<forall>a'. astar_rounds k ctx s net i True dst_wire ad ?a0 = Inr a' \<longrightarrow> iter a' = int k)"
    by (rule exI)
  then show "\<exists>k. int k \<le> 25000 * max 1 ((bb_x1 (arc_bb ad) - bb_x0 (arc_bb ad)) + (bb_y1 (arc_bb ad) - bb_y0 (arc_bb ad)))
             \<and> astar_loop fuel ctx s net i True dst_wire ad ?a0
                  = Some (astar_rounds k ctx s net i True dst_wire ad ?a0)
             \<and> (\<forall>a'. astar_rounds k ctx s net i True dst_wire ad ?a0 = Inr a' \<longrightarrow> iter a' = int k)"
    unfolding N_def .
next
  fix a a'
  assume h: "astar_cond is_bb a \<and> astar_body ctx s net i is_bb dst_wire ad a = Inr a'
          \<and> INT_MIN \<le> iter a \<and> iter a + 6 \<le> INT_MAX"
  then have "queue a \<noteq> []" by (simp add: astar_cond_def)
  with h have e: "iter a' = iter a + 1 \<and> toexplore a' \<le> toexplore a
       \<and> (visited a dst_wire = None \<longrightarrow> visited a' dst_wire \<noteq> None \<longrightarrow> toexplore a' \<le> iter a' + 5)"
    using astar_body_exact by blast
  from e show "iter a' = iter a + 1" by blast
  from e show "toexplore a' \<le> toexplore a" by blast
  assume "visited a dst_wire = None \<and> visited a' dst_wire \<noteq> None"
  with e show "toexplore a' \<le> iter a' + 5" by simp
next
  fix fuel is_mt t nd t1 tg a1
  assume "nets_at s (udata net) = Inr nd \<and> arcs_at nd i = Inr ad \<and> i < length (users net)
         \<and> getNetinfoSourceWire ctx net = src_wire \<and> getNetinfoSinkWire ctx net (users net ! i) = dst_wire
         \<and> src_wire \<noteq> None \<and> dst_wire \<noteq> None \<and> dst_wire \<notin> processed_sinks t
         \<and> bwd_loop fuel fuel ctx s net src_wire (bwd_init dst_wire t) = Some (Inr t1)
         \<and> backwards_pip t1 src_wire = None
         \<and> get_togo_cost ctx s net i src_wire dst_wire = Inr tg
         \<and> astar_loop fuel ctx s net i is_bb dst_wire ad (astar_init ctx src_wire ad tg t1) = Some (Inr a1)
         \<and> visited a1 dst_wire = None"
  then show "route_arc fuel ctx net i is_mt is_bb (s, t)
           = Some (Inr (ARC_RETRY_WITHOUT_BB, s, ThreadContext.truncate a1))"
    using route_arc_retry[of "(s, t)" net nd i ad ctx src_wire dst_wire fuel t1 tg is_bb a1 is_mt] by simp
qed

lemma ex_far_simps:
  "getPipsUphill ex_ctx_far w = (if w = Some (Suc 0) then [Some 0] else if w = Some 2 then [Some (Suc 0)] else [])"
  "getPipsDownhill ex_ctx_far w = (if w = Some 0 then [Some 0] else if w = Some (Suc 0) then [Some (Suc 0)] else [])"
  "getPipSrcWire ex_ctx_far p = p"
  "getPipDstWire ex_ctx_far p = (if p = Some 0 then Some (Suc 0) else if p = Some (Suc 0) then Some 2 else None)"
  "checkPipAvail ex_ctx_far p = True"
  "getPipLocation ex_ctx_far p = (if p = Some (Suc 0) then \<lparr>loc_x = 100, loc_y = 0, loc_z = 0\<rparr>
                                             else \<lparr>loc_x = 0, loc_y = 0, loc_z = 0\<rparr>)"
  "getPipDelay ex_ctx_far p = 100"
  "getWireDelay ex_ctx_far w = 50"
  "getDelayEpsilon ex_ctx_far = 50"
  "getDelayNS ex_ctx_far d = real_of_int d / 1000"
  "estimateDelay ex_ctx_far w1 w2 = 0"
  "getNetinfoSourceWire ex_ctx_far ex_net = Some 0"
  "getNetinfoSinkWire ex_ctx_far ex_net (users ex_net ! 0) = Some 2"
  "rng_seq ex_ctx_far k = 0"
  by (simp_all add: ex_ctx_far_def ex_ctx_def ex_net_def)

lemma ex_net_simps:
  "udata ex_net = 0" "length (users ex_net) = Suc 0" "is_global ex_net = False"
  "pr_cell (driver ex_net) = Some 0" "net_wires ex_net = []"
  by (simp_all add: ex_net_def)

lemma ex_search_simps:
  "wires ex_search w = (if w = Some 2 then Some ex_wd else if w = Some (Suc 0) then Some ex_wd_other
                        else if w = Some 0 then Some ex_wd else None)"
  "nets_at ex_search 0 = Inr \<lparr>arcs = [\<lparr>arc_wires = [], arc_bb = ex_bb\<rparr>], net_bb = ex_bb, cx = 0, cy = 0, hpwl = 1\<rparr>"
  "curr_cong_weight ex_search = 1 / 2"
  by (auto simp: ex_search_def ex_router_def nets_at_def)

lemma ex_wd_simps:
  "bn_count (bound_nets ex_wd) n = False" "bn_size (bound_nets ex_wd) = 0"
  "unavailable ex_wd = False" "reserved_net ex_wd = - 1" "hist_cong_cost ex_wd = 1"
  "bn_count (bound_nets ex_wd_other) 0 = False" "bn_size (bound_nets ex_wd_other) = 1"
  "unavailable ex_wd_other = False" "reserved_net ex_wd_other = - 1" "hist_cong_cost ex_wd_other = 1"
  "fmlookup (bound_nets ex_wd) n = None" "fmlookup (bound_nets ex_wd_other) 0 = None"
  by (simp_all add: ex_wd_def ex_wd_other_def bn_count_def bn_size_def)

lemma ex_bwd:
  "bwd_loop fuel3 fuel3 ex_ctx_far ex_search ex_net (Some 0) (bwd_init (Some 2) ex_thread)
     = Some (Inr ex_thread)"
  by (simp add: bwd_init_def bwd_cond_def backwards_limit_def bwd_step_def bwd_expand_def bwd_visit_pip_def
        ex_far_simps ex_search_simps ex_wd_simps ex_net_simps ex_thread_def Let_def)

lemma ex_togo: "get_togo_cost ex_ctx_far ex_search ex_net 0 w (Some 2) =
                  (if w = Some 0 \<or> w = Some 2 \<or> w = Some (Suc 0) then Inr (1 / 10) else Inl OutOfRange)"
  by (simp add: get_togo_cost_def ex_far_simps ex_search_simps source_uses_def ex_wd_simps ex_net_simps Let_def)

lemma ex_score:
  "score_wire_for_arc ex_ctx_far ex_search ex_net 0 (Some (Suc 0)) (Some 0) = Inr (3 / 10)"
  "score_wire_for_arc ex_ctx_far ex_search ex_net 0 (Some 2) (Some (Suc 0)) = Inr (51 / 5)"
  by (simp_all add: score_wire_for_arc_def present_wire_cost_def base_cost_def bias_cost_def source_uses_def
        ex_far_simps ex_search_simps ex_wd_simps ex_net_simps Let_def)

lemma ex_hit:
  "hit_test_pip (arc_bb ex_arc) \<lparr>loc_x = 100, loc_y = 0, loc_z = 0\<rparr> = False"
  "hit_test_pip (arc_bb ex_arc) \<lparr>loc_x = 0, loc_y = 0, loc_z = 0\<rparr> = True"
  by (simp_all add: hit_test_pip_def ex_arc_def ex_bb_def bb_margin_x_def bb_margin_y_def)

lemma ex_box: "box_arith_exact (arc_bb ex_arc)"
  by (simp add: box_arith_exact_def ex_arc_def ex_bb_def INT_MIN_def INT_MAX_def)

lemma ex_box_size:
  "25000 * max 1 ((bb_x1 (arc_bb ex_arc) - bb_x0 (arc_bb ex_arc)) + (bb_y1 (arc_bb ex_arc) - bb_y0 (arc_bb ex_arc)))
     = 25000"
  by (simp add: ex_arc_def ex_bb_def)

lemma ex_budget: "astar_budget (arc_bb ex_arc) = 25000"
  using astar_budget_exact[OF ex_box] by (simp add: ex_box_size)

lemma ex_astar_bb:
  "\<exists>a1. astar_loop fuel3 ex_ctx_far ex_search ex_net 0 True (Some 2) ex_arc
            (astar_init ex_ctx_far (Some 0) ex_arc (1 / 10) ex_thread) = Some (Inr a1)
        \<and> visited a1 (Some 2) = None"
  by (simp add: astar_init_def astar_cond_def astar_body_def fwd_visit_pip_def
        ThreadContext.defs AStar.defs ex_thread_def ex_hit ex_score ex_togo
        ex_far_simps ex_search_simps ex_wd_simps ex_net_simps Let_def total_def bn_entry_def ex_budget wrap32_def)

lemma ex_near_simps:
  "getPipsDownhill ex_ctx w = (if w = Some 0 then [Some 0] else if w = Some (Suc 0) then [Some (Suc 0)] else [])"
  "getPipDstWire ex_ctx p = (if p = Some 0 then Some (Suc 0) else if p = Some (Suc 0) then Some 2 else None)"
  "checkPipAvail ex_ctx p = True"
  "getPipLocation ex_ctx p = \<lparr>loc_x = 2, loc_y = 1, loc_z = 0\<rparr>"
  "getPipDelay ex_ctx p = 100"
  "getWireDelay ex_ctx w = 50"
  "getDelayEpsilon ex_ctx = 50"
  "getDelayNS ex_ctx d = real_of_int d / 1000"
  "estimateDelay ex_ctx w1 w2 = 0"
  "rng_seq ex_ctx k = 0"
  by (simp_all add: ex_ctx_def)

lemma ex_near_togo: "get_togo_cost ex_ctx ex_search ex_net 0 w (Some 2) =
                  (if w = Some 0 \<or> w = Some 2 \<or> w = Some (Suc 0) then Inr (1 / 10) else Inl OutOfRange)"
  by (simp add: get_togo_cost_def ex_near_simps ex_search_simps source_uses_def ex_wd_simps ex_net_simps Let_def)

lemma ex_near_score:
  "score_wire_for_arc ex_ctx ex_search ex_net 0 (Some (Suc 0)) (Some 0) = Inr (3 / 5)"
  "score_wire_for_arc ex_ctx ex_search ex_net 0 (Some 2) (Some (Suc 0)) = Inr (1 / 2)"
  by (simp_all add: score_wire_for_arc_def present_wire_cost_def base_cost_def bias_cost_def source_uses_def
        ex_near_simps ex_search_simps ex_wd_simps ex_net_simps Let_def)

lemma ex_near_hit: "hit_test_pip (arc_bb ex_arc) \<lparr>loc_x = 2, loc_y = 1, loc_z = 0\<rparr> = True"
  by (simp add: hit_test_pip_def ex_arc_def ex_bb_def bb_margin_x_def bb_margin_y_def)

lemma ex_astar_near:
  "\<exists>a a'. astar_body ex_ctx ex_search ex_net 0 True (Some 2) ex_arc
              (astar_init ex_ctx (Some 0) ex_arc (1 / 10) ex_thread) = Inr a
         \<and> astar_cond True a
         \<and> astar_body ex_ctx ex_search ex_net 0 True (Some 2) ex_arc a = Inr a'
         \<and> visited a (Some 2) = None \<and> visited a' (Some 2) \<noteq> None
         \<and> iter a = 1 \<and> toexplore a = 25000 \<and> iter a' = 2 \<and> toexplore a' = 7"
  by (simp add: astar_init_def astar_cond_def astar_body_def fwd_visit_pip_def
        ThreadContext.defs AStar.defs ex_thread_def ex_near_hit ex_near_score ex_near_togo
        ex_near_simps ex_search_simps ex_wd_simps ex_net_simps Let_def total_def bn_entry_def ex_budget wrap32_def)

lemma ex_arc_at:
  "nets_at ex_search (udata ex_net) = Inr \<lparr>arcs = [ex_arc], net_bb = ex_bb, cx = 0, cy = 0, hpwl = 1\<rparr>"
  "arcs_at \<lparr>arcs = [ex_arc], net_bb = ex_bb, cx = 0, cy = 0, hpwl = 1\<rparr> 0 = Inr ex_arc"
  by (simp_all add: ex_search_simps ex_net_simps ex_arc_def arcs_at_def)

theorem route_arc_astar_budget_witness:
  "box_arith_exact (arc_bb ex_arc)
   \<and> 25000 * max 1 ((bb_x1 (arc_bb ex_arc) - bb_x0 (arc_bb ex_arc)) + (bb_y1 (arc_bb ex_arc) - bb_y0 (arc_bb ex_arc)))
        = 25000
   \<and> (\<exists>k. int k \<le> 25000
         \<and> astar_loop 25001 ex_ctx_far ex_search ex_net 0 True (Some 2) ex_arc
              (astar_init ex_ctx_far (Some 0) ex_arc (1 / 10) ex_thread)
            = Some (astar_rounds k ex_ctx_far ex_search ex_net 0 True (Some 2) ex_arc
                      (astar_init ex_ctx_far (Some 0) ex_arc (1 / 10) ex_thread)))
   \<and> (\<exists>a a'. astar_cond True a
         \<and> astar_body ex_ctx ex_search ex_net 0 True (Some 2) ex_arc a = Inr a'
         \<and> visited a (Some 2) = None \<and> visited a' (Some 2) \<noteq> None
         \<and> iter a' = 2 \<and> toexplore a = 25000 \<and> toexplore a' = 7
         \<and> toexplore a' \<le> iter a' + 5)
   \<and> (\<exists>t'. route_arc fuel3 ex_ctx_far ex_net 0 False True (ex_search, ex_thread)
               = Some (Inr (ARC_RETRY_WITHOUT_BB, ex_search, t')))"
proof -
  note far = route_arc_astar_budget[of ex_arc ex_ctx_far ex_search ex_net 0 "Some 2" "Some 0" True]
  note near = route_arc_astar_budget[of ex_arc ex_ctx ex_search ex_net 0 "Some 2" "Some 0" True]
  have f: "25000 * max 1 ((bb_x1 (arc_bb ex_arc) - bb_x0 (arc_bb ex_arc)) + (bb_y1 (arc_bb ex_arc) - bb_y0 (arc_bb ex_arc)))
             < int 25001"
    by (simp add: ex_box_size)
  from far[THEN conjunct1] ex_box f obtain k where
    k: "int k \<le> 25000 * max 1 ((bb_x1 (arc_bb ex_arc) - bb_x0 (arc_bb ex_arc)) + (bb_y1 (arc_bb ex_arc) - bb_y0 (arc_bb ex_arc)))"
    and l: "astar_loop 25001 ex_ctx_far ex_search ex_net 0 True (Some 2) ex_arc
              (astar_init ex_ctx_far (Some 0) ex_arc (1 / 10) ex_thread)
            = Some (astar_rounds k ex_ctx_far ex_search ex_net 0 True (Some 2) ex_arc
                      (astar_init ex_ctx_far (Some 0) ex_arc (1 / 10) ex_thread))"
    by blast
  from k have "int k \<le> 25000" by (simp add: ex_box_size)
  with l have "int k \<le> 25000
         \<and> astar_loop 25001 ex_ctx_far ex_search ex_net 0 True (Some 2) ex_arc
              (astar_init ex_ctx_far (Some 0) ex_arc (1 / 10) ex_thread)
            = Some (astar_rounds k ex_ctx_far ex_search ex_net 0 True (Some 2) ex_arc
                      (astar_init ex_ctx_far (Some 0) ex_arc (1 / 10) ex_thread))"
    by simp
  then have A: "\<exists>k. int k \<le> 25000
         \<and> astar_loop 25001 ex_ctx_far ex_search ex_net 0 True (Some 2) ex_arc
              (astar_init ex_ctx_far (Some 0) ex_arc (1 / 10) ex_thread)
            = Some (astar_rounds k ex_ctx_far ex_search ex_net 0 True (Some 2) ex_arc
                      (astar_init ex_ctx_far (Some 0) ex_arc (1 / 10) ex_thread))"
    by (rule exI)
  from ex_astar_near obtain a a' where
    c: "astar_cond True a"
    and b: "astar_body ex_ctx ex_search ex_net 0 True (Some 2) ex_arc a = Inr a'"
    and v: "visited a (Some 2) = None" "visited a' (Some 2) \<noteq> None"
    and n: "iter a = 1" "toexplore a = 25000" "iter a' = 2" "toexplore a' = 7"
    by (elim exE conjE)
  have r: "INT_MIN \<le> iter a" "iter a + 6 \<le> INT_MAX"
    using n(1) by (simp_all add: INT_MIN_def INT_MAX_def)
  from near[THEN conjunct2, THEN conjunct1] c b r v have "toexplore a' \<le> iter a' + 5" by blast
  with c b v n have "astar_cond True a
         \<and> astar_body ex_ctx ex_search ex_net 0 True (Some 2) ex_arc a = Inr a'
         \<and> visited a (Some 2) = None \<and> visited a' (Some 2) \<noteq> None
         \<and> iter a' = 2 \<and> toexplore a = 25000 \<and> toexplore a' = 7
         \<and> toexplore a' \<le> iter a' + 5"
    by simp
  then have B: "\<exists>a a'. astar_cond True a
         \<and> astar_body ex_ctx ex_search ex_net 0 True (Some 2) ex_arc a = Inr a'
         \<and> visited a (Some 2) = None \<and> visited a' (Some 2) \<noteq> None
         \<and> iter a' = 2 \<and> toexplore a = 25000 \<and> toexplore a' = 7
         \<and> toexplore a' \<le> iter a' + 5"
    by (intro exI)
  from ex_astar_bb obtain a1 where
    l1: "astar_loop fuel3 ex_ctx_far ex_search ex_net 0 True (Some 2) ex_arc
            (astar_init ex_ctx_far (Some 0) ex_arc (1 / 10) ex_thread) = Some (Inr a1)"
    and n1: "visited a1 (Some 2) = None"
    by (elim exE conjE)
  have h: "nets_at ex_search (udata ex_net) = Inr \<lparr>arcs = [ex_arc], net_bb = ex_bb, cx = 0, cy = 0, hpwl = 1\<rparr>
         \<and> arcs_at \<lparr>arcs = [ex_arc], net_bb = ex_bb, cx = 0, cy = 0, hpwl = 1\<rparr> 0 = Inr ex_arc
         \<and> 0 < length (users ex_net)
         \<and> getNetinfoSourceWire ex_ctx_far ex_net = Some 0
         \<and> getNetinfoSinkWire ex_ctx_far ex_net (users ex_net ! 0) = Some 2
         \<and> Some (0::nat) \<noteq> None \<and> Some (2::nat) \<noteq> None \<and> Some 2 \<notin> processed_sinks ex_thread
         \<and> bwd_loop fuel3 fuel3 ex_ctx_far ex_search ex_net (Some 0) (bwd_init (Some 2) ex_thread) = Some (Inr ex_thread)
         \<and> backwards_pip ex_thread (Some 0) = None
         \<and> get_togo_cost ex_ctx_far ex_search ex_net 0 (Some 0) (Some 2) = Inr (1 / 10)
         \<and> astar_loop fuel3 ex_ctx_far ex_search ex_net 0 True (Some 2) ex_arc
              (astar_init ex_ctx_far (Some 0) ex_arc (1 / 10) ex_thread) = Some (Inr a1)
         \<and> visited a1 (Some 2) = None"
  proof (intro conjI)
    show "backwards_pip ex_thread (Some 0) = None" "Some 2 \<notin> processed_sinks ex_thread"
      by (simp_all add: ex_thread_def)
    show "get_togo_cost ex_ctx_far ex_search ex_net 0 (Some 0) (Some 2) = Inr (1 / 10)"
      by (simp add: ex_togo)
    show "nets_at ex_search (udata ex_net) = Inr \<lparr>arcs = [ex_arc], net_bb = ex_bb, cx = 0, cy = 0, hpwl = 1\<rparr>"
      by (rule ex_arc_at)
    show "arcs_at \<lparr>arcs = [ex_arc], net_bb = ex_bb, cx = 0, cy = 0, hpwl = 1\<rparr> 0 = Inr ex_arc"
      by (rule ex_arc_at)
    show "0 < length (users ex_net)" by (simp add: ex_net_simps)
    show "getNetinfoSourceWire ex_ctx_far ex_net = Some 0" by (rule ex_far_simps)
    show "getNetinfoSinkWire ex_ctx_far ex_net (users ex_net ! 0) = Some 2" by (rule ex_far_simps)
    show "bwd_loop fuel3 fuel3 ex_ctx_far ex_search ex_net (Some 0) (bwd_init (Some 2) ex_thread) = Some (Inr ex_thread)"
      by (rule ex_bwd)
    show "astar_loop fuel3 ex_ctx_far ex_search ex_net 0 True (Some 2) ex_arc
              (astar_init ex_ctx_far (Some 0) ex_arc (1 / 10) ex_thread) = Some (Inr a1)"
      by (rule l1)
    show "visited a1 (Some 2) = None" by (rule n1)
  qed simp_all
  from far[THEN conjunct2, THEN conjunct2] h
  have "route_arc fuel3 ex_ctx_far ex_net 0 False True (ex_search, ex_thread)
               = Some (Inr (ARC_RETRY_WITHOUT_BB, ex_search, ThreadContext.truncate a1))"
    by blast
  then have C: "\<exists>t'. route_arc fuel3 ex_ctx_far ex_net 0 False True (ex_search, ex_thread)
               = Some (Inr (ARC_RETRY_WITHOUT_BB, ex_search, t'))"
    by (rule exI)
  from ex_box ex_box_size A B C show ?thesis by (intro conjI)
qed

subsection \<open>Reserved wires in the search\<close>

paragraph \<open>Backwards loop\<close>

lemma bwd_visit_pip_queue:
  assumes "bwd_visit_pip ctx s net cpip uh t = Inr t1"
  shows "t1 = t \<or> (\<exists>nx. \<not> reserved_for_other s (udata net) nx \<and> nx = getPipSrcWire ctx uh
            \<and> t1 = t\<lparr>backwards_queue := backwards_queue t @ [nx],
                     backwards_pip := (backwards_pip t)(nx \<mapsto> uh)\<rparr>)"
  using assms unfolding bwd_visit_pip_def Let_def reserved_for_other_def
  by (auto split: if_splits option.splits)

lemma bwd_visit_pips_inv:
  assumes "bwd_visit_pips ctx s net cpip uhs t = Inr t1"
    and "\<forall>w \<in> set (backwards_queue t). P w" "\<forall>w. \<not> reserved_for_other s (udata net) w \<longrightarrow> P w"
    and "\<forall>x p. backwards_pip t x = Some p \<longrightarrow> Q p" "\<forall>uh \<in> set uhs. Q uh"
  shows "(\<forall>w \<in> set (backwards_queue t1). P w) \<and> (\<forall>x p. backwards_pip t1 x = Some p \<longrightarrow> Q p)
       \<and> queue t1 = queue t"
  using assms(1,2,4,5)
proof (induction uhs arbitrary: t)
  case Nil
  then show ?case by simp
next
  case (Cons uh uhs)
  from Cons.prems(1) obtain t0 where 1: "bwd_visit_pip ctx s net cpip uh t = Inr t0"
    and 2: "bwd_visit_pips ctx s net cpip uhs t0 = Inr t1"
    by (auto split: sum.splits)
  from bwd_visit_pip_queue[OF 1] have
    q: "\<forall>w \<in> set (backwards_queue t0). P w"
    and b: "\<forall>x p. backwards_pip t0 x = Some p \<longrightarrow> Q p"
    and e: "queue t0 = queue t"
    using Cons.prems(2,3,4) assms(3) by (auto split: if_splits)
  have "\<forall>uh \<in> set uhs. Q uh" using Cons.prems(4) by simp
  from Cons.IH[OF 2 q b this] e show ?case by simp
qed

lemma bwd_merge_record_inv:
  assumes "bwd_merge_record k ctx s n c bp = Some (Inr bp1)"
    and "\<forall>x p. bp x = Some p \<longrightarrow> Q p"
    and "\<forall>w wd b. wires s w = Some wd \<longrightarrow> fmlookup (bound_nets wd) n = Some b \<longrightarrow> snd b \<noteq> None \<longrightarrow> Q (snd b)"
  shows "\<forall>x p. bp1 x = Some p \<longrightarrow> Q p"
  using assms(1,2)
proof (induction k arbitrary: c bp)
  case 0
  then show ?case by simp
next
  case (Suc k)
  show ?case
  proof (cases "wires s c")
    case None
    with Suc.prems(1) show ?thesis by simp
  next
    case (Some wd)
    show ?thesis
    proof (cases "fmlookup (bound_nets wd) n")
      case None
      with Some Suc.prems show ?thesis by (simp add: bn_count_def)
    next
      case (Some b)
      show ?thesis
      proof (cases "snd b = None")
        case True
        with Some \<open>wires s c = Some wd\<close> Suc.prems show ?thesis
          by (simp add: bn_count_def bn_entry_def Let_def)
      next
        case False
        let ?p = "snd b"
        have r: "bwd_merge_record k ctx s n (getPipSrcWire ctx ?p) (bp(getPipSrcWire ctx ?p \<mapsto> ?p)) = Some (Inr bp1)"
          using Some \<open>wires s c = Some wd\<close> False Suc.prems(1)
          by (auto simp: bn_count_def bn_entry_def Let_def)
        have "Q ?p" using assms(3) \<open>wires s c = Some wd\<close> Some False by blast
        then have "\<forall>x p. (bp(getPipSrcWire ctx ?p \<mapsto> ?p)) x = Some p \<longrightarrow> Q p"
          using Suc.prems(2) by simp
        from Suc.IH[OF r this] show ?thesis .
      qed
    qed
  qed
qed

lemma bwd_expand_inv:
  assumes "bwd_expand ctx s net cursor cpip st = Inr st1"
    and "\<forall>w \<in> set (backwards_queue (fst st)). P w" "\<forall>w. \<not> reserved_for_other s (udata net) w \<longrightarrow> P w"
    and "\<forall>x p. backwards_pip (fst st) x = Some p \<longrightarrow> Q p" "\<forall>uh \<in> set (getPipsUphill ctx cursor). Q uh"
  shows "(\<forall>w \<in> set (backwards_queue (fst st1)). P w) \<and> (\<forall>x p. backwards_pip (fst st1) x = Some p \<longrightarrow> Q p)
       \<and> queue (fst st1) = queue (fst st)"
proof -
  from assms(1) obtain t2 where 1: "bwd_visit_pips ctx s net cpip (getPipsUphill ctx cursor) (fst st) = Inr t2"
    and 2: "fst st1 = t2"
    by (auto simp: bwd_expand_def split: sum.splits)
  from bwd_visit_pips_inv[OF 1 assms(2) assms(3) assms(4) assms(5)] 2 show ?thesis by simp
qed

lemma bwd_step_inv:
  assumes "bwd_step fuel ctx s net src_wire st = Some (Inr r)"
    and q: "\<forall>w \<in> set (backwards_queue (fst st)). P w"
    and a1: "\<forall>w. \<not> reserved_for_other s (udata net) w \<longrightarrow> P w"
    and b: "\<forall>x p. backwards_pip (fst st) x = Some p \<longrightarrow> Q p"
    and a2: "\<forall>w uh. P w \<longrightarrow> uh \<in> set (getPipsUphill ctx w) \<longrightarrow> Q uh"
    and a3: "\<forall>w wd b. wires s w = Some wd \<longrightarrow> fmlookup (bound_nets wd) (udata net) = Some b \<longrightarrow> snd b \<noteq> None \<longrightarrow> Q (snd b)"
  shows "(\<forall>w \<in> set (backwards_queue (fst (case r of Continue st1 \<Rightarrow> st1 | Break st1 \<Rightarrow> st1))). P w)
       \<and> (\<forall>x p. backwards_pip (fst (case r of Continue st1 \<Rightarrow> st1 | Break st1 \<Rightarrow> st1)) x = Some p \<longrightarrow> Q p)
       \<and> queue (fst (case r of Continue st1 \<Rightarrow> st1 | Break st1 \<Rightarrow> st1)) = queue (fst st)"
proof (cases "backwards_queue (fst st)")
  case Nil
  with assms(1) have "r = Break st" by (simp add: bwd_step_def)
  with q b show ?thesis by simp
next
  case (Cons cursor rest)
  let ?t1 = "(fst st)\<lparr>backwards_queue := rest\<rparr>"
  have pc: "P cursor" using q Cons by simp
  have q1: "\<forall>w \<in> set (backwards_queue (fst (?t1, snd st))). P w" using q Cons by simp
  have b1: "\<forall>x p. backwards_pip (fst (?t1, snd st)) x = Some p \<longrightarrow> Q p" using b by simp
  have up: "\<forall>uh \<in> set (getPipsUphill ctx cursor). Q uh" using a2 pc by blast
  note ex = bwd_expand_inv[where st = "(?t1, snd st)", OF _ q1 a1 b1 up]
  from assms(1) Cons obtain cwd where cwd: "wires s cursor = Some cwd"
    by (cases "wires s cursor") (auto simp: bwd_step_def Let_def)
  show ?thesis
  proof (cases "bn_count (bound_nets cwd) (udata net)")
    case False
    with assms(1) Cons cwd obtain st1 where e: "bwd_expand ctx s net cursor None (?t1, snd st) = Inr st1"
      and r: "r = Continue st1"
      by (auto simp: bwd_step_def Let_def split: sum.splits)
    from ex[OF e] r show ?thesis by simp
  next
    case True
    from assms(1) Cons cwd True obtain mr where mw: "bwd_merge_walk fuel ctx s (udata net) cursor = Some (Inr mr)"
      by (auto simp: bwd_step_def Let_def split: option.splits sum.splits)
    show ?thesis
    proof (cases "\<not> fst mr \<and> snd mr = src_wire")
      case True
      with assms(1) Cons cwd \<open>bn_count (bound_nets cwd) (udata net)\<close> mw obtain bp where
        m: "bwd_merge_record fuel ctx s (udata net) cursor (backwards_pip ?t1) = Some (Inr bp)"
        and r: "r = Break (?t1\<lparr>backwards_pip := bp\<rparr>, snd st)"
        by (auto simp: bwd_step_def Let_def split: option.splits sum.splits)
      have "\<forall>x p. backwards_pip ?t1 x = Some p \<longrightarrow> Q p" using b by simp
      from bwd_merge_record_inv[OF m this a3] have "\<forall>x p. bp x = Some p \<longrightarrow> Q p" by blast
      with r q1 show ?thesis by simp
    next
      case False
      with assms(1) Cons cwd \<open>bn_count (bound_nets cwd) (udata net)\<close> mw obtain st1 where
        e: "bwd_expand ctx s net cursor (snd (bn_entry (bound_nets cwd) (udata net))) (?t1, snd st) = Inr st1"
        and r: "r = Continue st1"
        by (auto simp: bwd_step_def Let_def split: sum.splits)
      from ex[OF e] r show ?thesis by simp
    qed
  qed
qed

lemma bwd_loop_inv:
  assumes "bwd_loop k fuel ctx s net src_wire st = Some (Inr t1)"
    and "\<forall>w \<in> set (backwards_queue (fst st)). P w"
    and a1: "\<forall>w. \<not> reserved_for_other s (udata net) w \<longrightarrow> P w"
    and "\<forall>x p. backwards_pip (fst st) x = Some p \<longrightarrow> Q p"
    and a2: "\<forall>w uh. P w \<longrightarrow> uh \<in> set (getPipsUphill ctx w) \<longrightarrow> Q uh"
    and a3: "\<forall>w wd b. wires s w = Some wd \<longrightarrow> fmlookup (bound_nets wd) (udata net) = Some b \<longrightarrow> snd b \<noteq> None \<longrightarrow> Q (snd b)"
  shows "(\<forall>x p. backwards_pip t1 x = Some p \<longrightarrow> Q p) \<and> queue t1 = queue (fst st)"
  using assms(1,2,4)
proof (induction k arbitrary: st)
  case 0
  then show ?case by simp
next
  case (Suc k)
  show ?case
  proof (cases "bwd_cond st")
    case False
    with Suc.prems show ?thesis by simp
  next
    case True
    with Suc.prems(1) obtain r where r: "bwd_step fuel ctx s net src_wire st = Some (Inr r)"
      by (auto split: option.splits sum.splits)
    note inv = bwd_step_inv[where P = P and Q = Q, OF r Suc.prems(2) a1 Suc.prems(3) a2 a3]
    show ?thesis
    proof (cases r)
      case (Break st1)
      with Suc.prems(1) True r have "t1 = fst st1" by simp
      with inv Break show ?thesis by simp
    next
      case (Continue st1)
      with Suc.prems(1) True r have l: "bwd_loop k fuel ctx s net src_wire st1 = Some (Inr t1)" by simp
      from inv Continue have i1: "\<forall>w \<in> set (backwards_queue (fst st1)). P w"
        and i2: "\<forall>x p. backwards_pip (fst st1) x = Some p \<longrightarrow> Q p"
        and i3: "queue (fst st1) = queue (fst st)" by simp_all
      from Suc.IH[OF l i1 i2] i3 show ?thesis by simp
    qed
  qed
qed

lemma bwd_reachable_queue:
  assumes "bwd_reachable fuel ctx s net src_wire dst_wire st"
  shows "(\<forall>w \<in> set (backwards_queue (fst st)). reserved_for_other s (udata net) w \<longrightarrow> w = dst_wire)
       \<and> queue (fst st) = []"
  using assms
proof (induction rule: bwd_reachable.induct)
  case (bwd_start t)
  show ?case by (simp add: bwd_init_def)
next
  case (bwd_round st r)
  have q: "\<forall>w \<in> set (backwards_queue (fst st)). reserved_for_other s (udata net) w \<longrightarrow> w = dst_wire"
    using bwd_round.IH by blast
  from bwd_step_inv[where P = "\<lambda>w. reserved_for_other s (udata net) w \<longrightarrow> w = dst_wire" and Q = "\<lambda>p. True",
      OF bwd_round.hyps(3) q]
  show ?case using bwd_round.IH by simp
qed

paragraph \<open>Forward loop\<close>

lemma fwd_visit_pip_resv:
  assumes "fwd_visit_pip ctx s net i is_bb dst_wire ad cur dh a = Inr a'"
  shows "a' = a \<or> (\<exists>nx q sc te. \<not> reserved_for_other s (udata net) nx \<and> qw_wire q = nx
            \<and> a' = a\<lparr>explored := wrap32 (explored a + 1),
                     queue := queue a @ [q],
                     rng_pos := Suc (rng_pos a),
                     visited := (visited a)(nx \<mapsto> sc),
                     toexplore := te\<rparr>)"
proof (cases "a' = a")
  case True
  then show ?thesis by simp
next
  case False
  then obtain nwd where w: "wires s (getPipDstWire ctx dh) = Some nwd"
    and r: "\<not> (reserved_net nwd \<noteq> - 1 \<and> reserved_net nwd \<noteq> udata net)"
    using assms unfolding fwd_visit_pip_def Let_def
    by (auto split: if_splits option.splits sum.splits)
  then have nr: "\<not> reserved_for_other s (udata net) (getPipDstWire ctx dh)"
    by (simp add: reserved_for_other_def)
  define nx where "nx = getPipDstWire ctx dh"
  from False assms w r obtain sc tg where
    e: "a' = a\<lparr>explored := wrap32 (explored a + 1),
           queue := queue a @ [\<lparr>qw_wire = nx, qw_pip = dh,
                                qw_loc = getPipLocation ctx dh,
                                qw_score = \<lparr>ws_cost = ws_cost (qw_score cur) + sc,
                                               ws_togo_cost = 1.75 * tg,
                                               ws_delay = ws_delay (qw_score cur) + getPipDelay ctx dh
                                                          + getWireDelay ctx nx\<rparr>,
                                qw_randtag = rng_seq ctx (rng_pos a)\<rparr>],
           rng_pos := Suc (rng_pos a),
           visited := (visited a)(nx \<mapsto>
                         \<lparr>vi_score = \<lparr>ws_cost = ws_cost (qw_score cur) + sc,
                                               ws_togo_cost = 1.75 * tg,
                                               ws_delay = ws_delay (qw_score cur) + getPipDelay ctx dh
                                                          + getWireDelay ctx nx\<rparr>, vi_pip = dh\<rparr>),
           toexplore := (if nx = dst_wire then min (toexplore a) (wrap32 (iter a + 5))
                         else toexplore a)\<rparr>"
    unfolding fwd_visit_pip_def Let_def nx_def
    by (auto split: if_splits option.splits sum.splits)
  define q where "q = \<lparr>qw_wire = nx, qw_pip = dh,
                                qw_loc = getPipLocation ctx dh,
                                qw_score = \<lparr>ws_cost = ws_cost (qw_score cur) + sc,
                                               ws_togo_cost = 1.75 * tg,
                                               ws_delay = ws_delay (qw_score cur) + getPipDelay ctx dh
                                                          + getWireDelay ctx nx\<rparr>,
                                qw_randtag = rng_seq ctx (rng_pos a)\<rparr>"
  define vi where "vi = \<lparr>vi_score = \<lparr>ws_cost = ws_cost (qw_score cur) + sc,
                                               ws_togo_cost = 1.75 * tg,
                                               ws_delay = ws_delay (qw_score cur) + getPipDelay ctx dh
                                                          + getWireDelay ctx nx\<rparr>, vi_pip = dh\<rparr>"
  define te where "te = (if nx = dst_wire then min (toexplore a) (wrap32 (iter a + 5)) else toexplore a)"
  have "\<not> reserved_for_other s (udata net) nx \<and> qw_wire q = nx
            \<and> a' = a\<lparr>explored := wrap32 (explored a + 1),
                     queue := queue a @ [q],
                     rng_pos := Suc (rng_pos a),
                     visited := (visited a)(nx \<mapsto> vi),
                     toexplore := te\<rparr>"
    using nr e by (simp add: nx_def q_def vi_def te_def)
  then show ?thesis by (intro disjI2 exI)
qed

lemma fwd_visit_pips_inv:
  assumes "fwd_visit_pips ctx s net i is_bb dst_wire ad cur dhs a = Inr a'"
    and "\<forall>q \<in> set (queue a). P (qw_wire q)" "\<forall>w. visited a w \<noteq> None \<longrightarrow> P w"
    and "\<forall>w. \<not> reserved_for_other s (udata net) w \<longrightarrow> P w"
  shows "(\<forall>q \<in> set (queue a'). P (qw_wire q)) \<and> (\<forall>w. visited a' w \<noteq> None \<longrightarrow> P w)"
  using assms(1,2,3)
proof (induction dhs arbitrary: a)
  case Nil
  then show ?case by simp
next
  case (Cons dh dhs)
  from Cons.prems(1) obtain a1 where 1: "fwd_visit_pip ctx s net i is_bb dst_wire ad cur dh a = Inr a1"
    and 2: "fwd_visit_pips ctx s net i is_bb dst_wire ad cur dhs a1 = Inr a'"
    by (auto split: sum.splits)
  from fwd_visit_pip_resv[OF 1] have
    q: "\<forall>q \<in> set (queue a1). P (qw_wire q)" and v: "\<forall>w. visited a1 w \<noteq> None \<longrightarrow> P w"
    using Cons.prems(2,3) assms(4) by (auto split: if_splits)
  from Cons.IH[OF 2 q v] show ?case .
qed

lemma astar_body_inv:
  assumes "astar_body ctx s net i is_bb dst_wire ad a = Inr a'"
    and "\<forall>q \<in> set (queue a). P (qw_wire q)" "\<forall>w. visited a w \<noteq> None \<longrightarrow> P w"
    and "\<forall>w. \<not> reserved_for_other s (udata net) w \<longrightarrow> P w"
  shows "(\<forall>q \<in> set (queue a'). P (qw_wire q)) \<and> (\<forall>w. visited a' w \<noteq> None \<longrightarrow> P w)"
proof (cases "queue a")
  case Nil
  with assms show ?thesis by (simp add: astar_body_def)
next
  case (Cons q qs)
  let ?cur = "pq_top_from q qs"
  let ?a1 = "a\<lparr>queue := remove1 ?cur (queue a), iter := wrap32 (iter a + 1)\<rparr>"
  have b: "fwd_visit_pips ctx s net i is_bb dst_wire ad ?cur (getPipsDownhill ctx (qw_wire ?cur)) ?a1 = Inr a'"
    using assms(1) Cons by (simp add: astar_body_def Let_def)
  have q1: "\<forall>q \<in> set (queue ?a1). P (qw_wire q)"
    using assms(2) by (auto dest: notin_set_remove1)
  have v1: "\<forall>w. visited ?a1 w \<noteq> None \<longrightarrow> P w" using assms(3) by simp
  from fwd_visit_pips_inv[OF b q1 v1 assms(4)] show ?thesis .
qed

lemma astar_loop_inv:
  assumes "astar_loop k ctx s net i is_bb dst_wire ad a = Some (Inr a')"
    and "\<forall>q \<in> set (queue a). P (qw_wire q)" "\<forall>w. visited a w \<noteq> None \<longrightarrow> P w"
    and "\<forall>w. \<not> reserved_for_other s (udata net) w \<longrightarrow> P w"
  shows "\<forall>w. visited a' w \<noteq> None \<longrightarrow> P w"
  using assms(1,2,3)
proof (induction k arbitrary: a)
  case 0
  then show ?case by simp
next
  case (Suc k)
  show ?case
  proof (cases "astar_cond is_bb a")
    case False
    with Suc.prems show ?thesis by simp
  next
    case True
    with Suc.prems(1) obtain a1 where b: "astar_body ctx s net i is_bb dst_wire ad a = Inr a1"
      and l: "astar_loop k ctx s net i is_bb dst_wire ad a1 = Some (Inr a')"
      by (auto split: sum.splits)
    from astar_body_inv[OF b Suc.prems(2,3) assms(4)] have
      "\<forall>q \<in> set (queue a1). P (qw_wire q)" "\<forall>w. visited a1 w \<noteq> None \<longrightarrow> P w" by blast+
    from Suc.IH[OF l this] show ?thesis .
  qed
qed

lemma astar_init_inv:
  assumes "queue t = []"
  shows "(\<forall>q \<in> set (queue (astar_init ctx src_wire ad tg t)). qw_wire q = src_wire)
       \<and> (\<forall>w. visited (astar_init ctx src_wire ad tg t) w \<noteq> None \<longrightarrow> w = src_wire)"
  using assms by (simp add: astar_init_def Let_def ThreadContext.defs AStar.defs)

lemma astar_init_visited:
  "visited (astar_init ctx src_wire ad tg t) w \<noteq> None \<longrightarrow> w = src_wire"
  by (simp add: astar_init_def Let_def ThreadContext.defs AStar.defs)

lemma astar_reachable_resv:
  assumes "astar_reachable ctx s net i is_bb src_wire dst_wire ad a"
  shows "(\<forall>q \<in> set (queue a). reserved_for_other s (udata net) (qw_wire q) \<longrightarrow> qw_wire q = src_wire)
       \<and> (\<forall>w. visited a w \<noteq> None \<longrightarrow> reserved_for_other s (udata net) w \<longrightarrow> w = src_wire)"
  using assms
proof (induction rule: astar_reachable.induct)
  case (astar_start t tg)
  from astar_init_inv[OF this, of ctx src_wire ad tg] show ?case by blast
next
  case (astar_round a a1)
  have q: "\<forall>q \<in> set (queue a). reserved_for_other s (udata net) (qw_wire q) \<longrightarrow> qw_wire q = src_wire"
    and v: "\<forall>w. visited a w \<noteq> None \<longrightarrow> reserved_for_other s (udata net) w \<longrightarrow> w = src_wire"
    using astar_round.IH by blast+
  from astar_body_inv[where P = "\<lambda>w. reserved_for_other s (udata net) w \<longrightarrow> w = src_wire",
      OF astar_round.hyps(3) q v]
  show ?case by simp
qed

paragraph \<open>What binding leaves alone\<close>

lemma arc_route_wires_upd: "arc_route (s\<lparr>wires := ws\<rparr>) n i w = arc_route s n i w"
  by (simp add: arc_route_def nets_at_def)

lemma update_arc_route:
  assumes "update_arc n0 i0 f s = Inr s1" "\<And>ad. map_of (arc_wires (f ad)) w = map_of (arc_wires ad) w"
  shows "arc_route s1 n i w = arc_route s n i w"
proof -
  from assms(1) obtain nd ad where nd: "nets_at s n0 = Inr nd" and ad: "arcs_at nd i0 = Inr ad"
    and s1: "s1 = s\<lparr>nets := (nets s)[nat n0 := nd\<lparr>arcs := (arcs nd)[i0 := f ad]\<rparr>]\<rparr>"
    by (auto simp: update_arc_def split: sum.splits)
  from nd have r: "0 \<le> n0" "nat n0 < length (nets s)" "nd = nets s ! nat n0"
    by (auto simp: nets_at_def split: if_splits)
  from ad have a: "i0 < length (arcs nd)" "ad = arcs nd ! i0"
    by (auto simp: arcs_at_def split: if_splits)
  show ?thesis
  proof (cases "0 \<le> n \<and> nat n < length (nets s)")
    case False
    then show ?thesis by (auto simp: arc_route_def nets_at_def s1)
  next
    case True
    show ?thesis
    proof (cases "nat n = nat n0")
      case False
      with True show ?thesis by (simp add: arc_route_def nets_at_def s1)
    next
      case same: True
      show ?thesis
      proof (cases "i = i0")
        case False
        with True same r a show ?thesis
          by (simp add: arc_route_def nets_at_def arcs_at_def s1)
      next
        case True
        with \<open>0 \<le> n \<and> nat n < length (nets s)\<close> same r a assms(2)[of "arcs nd ! i0"] show ?thesis
          by (simp add: arc_route_def nets_at_def arcs_at_def s1)
      qed
    qed
  qed
qed

lemma bind_frame:
  assumes "bind_pip_internal net i w0 p s = Inr s1" "w \<noteq> w0"
  shows "wires s1 w = wires s w \<and> arc_route s1 n j w = arc_route s n j w"
proof -
  from bind_wires[OF assms(1)] assms(2) have 1: "wires s1 w = wires s w" by auto
  from assms(1) obtain s0 where u: "update_arc (udata net) i (\<lambda>ad. ad\<lparr>arc_wires := AList.update w0 p (arc_wires ad)\<rparr>) s0 = Inr s1"
    and s0: "\<exists>ws. s0 = s\<lparr>wires := ws\<rparr>"
    by (auto simp: bind_pip_internal_def Let_def split: option.splits if_splits)
  have "arc_route s1 n j w = arc_route s0 n j w"
    using assms(2) by (intro update_arc_route[OF u]) (simp add: update_conv')
  with s0 1 show ?thesis by (auto simp: arc_route_wires_upd)
qed

lemma bind_forwards_frame:
  assumes "bind_forwards k ctx net i bp c s = Some (Inr r)"
    and "\<forall>x p. bp x = Some p \<longrightarrow> getPipDstWire ctx p \<noteq> w"
  shows "wires (snd r) w = wires s w \<and> arc_route (snd r) n j w = arc_route s n j w"
  using assms(1)
proof (induction k arbitrary: c s)
  case 0
  then show ?case by simp
next
  case (Suc k)
  show ?case
  proof (cases "bp c")
    case None
    with Suc.prems show ?thesis by auto
  next
    case (Some v)
    with Suc.prems obtain s1 where b: "bind_pip_internal net i (getPipDstWire ctx v) v s = Inr s1"
      and l: "bind_forwards k ctx net i bp (getPipDstWire ctx v) s1 = Some (Inr r)"
      by (auto split: sum.splits)
    have "w \<noteq> getPipDstWire ctx v" using assms(2) Some by blast
    from bind_frame[OF b this, of n j] Suc.IH[OF l] show ?thesis by simp
  qed
qed

lemma bind_backwards_frame:
  assumes "bind_backwards k ctx net i vis src_wire c s = Some (Inr s')" "vis w = None"
  shows "wires s' w = wires s w \<and> arc_route s' n j w = arc_route s n j w"
  using assms(1)
proof (induction k arbitrary: c s)
  case 0
  then show ?case by simp
next
  case (Suc k)
  show ?case
  proof (cases "vis c")
    case None
    with Suc.prems show ?thesis by auto
  next
    case (Some v)
    then have ne: "w \<noteq> c" using assms(2) by auto
    from Suc.prems Some obtain s1 where b: "bind_pip_internal net i c (vi_pip v) s = Inr s1"
      by (auto split: sum.splits)
    note f = bind_frame[OF b ne, of n j]
    show ?thesis
    proof (cases "vi_pip v = None")
      case True
      with Suc.prems Some b have "s' = s1" by (auto split: if_splits)
      with f show ?thesis by simp
    next
      case False
      with Suc.prems Some b have "bind_backwards k ctx net i vis src_wire (getPipSrcWire ctx (vi_pip v)) s1 = Some (Inr s')"
        by auto
      from Suc.IH[OF this] f show ?thesis by simp
    qed
  qed
qed

lemma route_arc_paths:
  assumes "route_arc fuel ctx net i is_mt is_bb (s, t) = Some (Inr (res, s', t'))"
  shows "s' = s
       \<or> (\<exists>t1. bwd_loop fuel fuel ctx s net (getNetinfoSourceWire ctx net)
                  (bwd_init (getNetinfoSinkWire ctx net (users net ! i)) t) = Some (Inr t1)
            \<and> route_arc_backwards fuel ctx net i (getNetinfoSourceWire ctx net)
                  (getNetinfoSinkWire ctx net (users net ! i)) (s, t1) = Some (Inr (res, s', t')))
       \<or> (\<exists>t1 ad. bwd_loop fuel fuel ctx s net (getNetinfoSourceWire ctx net)
                  (bwd_init (getNetinfoSinkWire ctx net (users net ! i)) t) = Some (Inr t1)
            \<and> route_arc_forwards fuel ctx net i is_bb (getNetinfoSourceWire ctx net)
                  (getNetinfoSinkWire ctx net (users net ! i)) ad (s, t1) = Some (Inr (res, s', t')))"
  using assms unfolding route_arc_def Let_def
  by (auto split: sum.splits if_splits option.splits)

lemma route_arc_backwards_frame:
  assumes bl: "bwd_loop fuel fuel ctx s net src_wire (bwd_init dst_wire t) = Some (Inr t1)"
    and rb: "route_arc_backwards fuel ctx net i src_wire dst_wire (s, t1) = Some (Inr (res, s', t'))"
    and h1: "uphill_pips_drive ctx" and h2: "bound_pips_drive ctx s (udata net)"
    and w: "reserved_for_other s (udata net) w" "w \<noteq> src_wire" "w \<noteq> dst_wire" "\<not> net_bound_on s (udata net) w"
  shows "wires s' w = wires s w \<and> arc_route s' n j w = arc_route s n j w"
proof -
  let ?P = "\<lambda>x. reserved_for_other s (udata net) x \<longrightarrow> x = dst_wire"
  let ?Q = "\<lambda>p. getPipDstWire ctx p \<noteq> w"
  have q0: "\<forall>x \<in> set (backwards_queue (fst (bwd_init dst_wire t))). ?P x"
    by (simp add: bwd_init_def)
  have b0: "\<forall>x p. backwards_pip (fst (bwd_init dst_wire t)) x = Some p \<longrightarrow> ?Q p"
    by (simp add: bwd_init_def)
  have a1: "\<forall>x. \<not> reserved_for_other s (udata net) x \<longrightarrow> ?P x" by simp
  have a2: "\<forall>x uh. ?P x \<longrightarrow> uh \<in> set (getPipsUphill ctx x) \<longrightarrow> ?Q uh"
  proof (intro allI impI)
    fix x uh assume p: "?P x" and u: "uh \<in> set (getPipsUphill ctx x)"
    from h1 u have "getPipDstWire ctx uh = x" by (auto simp: uphill_pips_drive_def)
    with p w(1,3) show "getPipDstWire ctx uh \<noteq> w" by auto
  qed
  have a3: "\<forall>x wd b. wires s x = Some wd \<longrightarrow> fmlookup (bound_nets wd) (udata net) = Some b \<longrightarrow>
              snd b \<noteq> None \<longrightarrow> ?Q (snd b)"
  proof (intro allI impI)
    fix x wd b assume x: "wires s x = Some wd" and l: "fmlookup (bound_nets wd) (udata net) = Some b"
      and nn: "snd b \<noteq> None"
    from h2 x l nn have "getPipDstWire ctx (snd b) = x" unfolding bound_pips_drive_def by blast
    moreover have "net_bound_on s (udata net) x" using x l by (simp add: net_bound_on_def bn_count_def)
    ultimately show "getPipDstWire ctx (snd b) \<noteq> w" using w(4) by auto
  qed
  from bwd_loop_inv[where P = ?P and Q = ?Q, OF bl q0 a1 b0 a2 a3]
  have bp: "\<forall>x p. backwards_pip t1 x = Some p \<longrightarrow> getPipDstWire ctx p \<noteq> w" by blast
  from rb obtain s1 r where b: "bind_pip_internal net i src_wire None s = Inr s1"
    and f: "bind_forwards fuel ctx net i (backwards_pip t1) src_wire s1 = Some (Inr r)"
    and s': "s' = snd r"
    by (auto simp: route_arc_backwards_def split: sum.splits option.splits if_splits)
  from bind_frame[OF b w(2), of n j] bind_forwards_frame[OF f bp, of n j] s'
  show ?thesis by simp
qed

lemma route_arc_forwards_frame:
  assumes rf: "route_arc_forwards fuel ctx net i is_bb src_wire dst_wire ad (s, t1) = Some (Inr (res, s', t'))"
    and e: "queue t1 = []"
    and w: "reserved_for_other s (udata net) w" "w \<noteq> src_wire"
  shows "wires s' w = wires s w \<and> arc_route s' n j w = arc_route s n j w"
proof -
  from rf obtain tg a1 where l: "astar_loop fuel ctx s net i is_bb dst_wire ad (astar_init ctx src_wire ad tg t1) = Some (Inr a1)"
    and fin: "route_arc_finish fuel ctx net i src_wire dst_wire (s, ThreadContext.truncate a1) = Some (Inr (res, s', t'))"
    by (auto simp: route_arc_forwards_def split: sum.splits option.splits)
  let ?P = "\<lambda>x. x \<noteq> w"
  let ?a0 = "astar_init ctx src_wire ad tg t1"
  have q0: "\<forall>q \<in> set (queue ?a0). ?P (qw_wire q)" and v0: "\<forall>x. visited ?a0 x \<noteq> None \<longrightarrow> ?P x"
    using astar_init_inv[OF e, of ctx src_wire ad tg] w(2) by blast+
  have nr: "\<forall>x. \<not> reserved_for_other s (udata net) x \<longrightarrow> ?P x" using w(1) by blast
  have "\<forall>x. visited a1 x \<noteq> None \<longrightarrow> x \<noteq> w"
    using astar_loop_inv[where P = ?P, OF l q0 v0 nr] .
  then have "visited a1 w = None" by blast
  then have vis: "visited (ThreadContext.truncate a1) w = None"
    by (simp add: ThreadContext.defs)
  show ?thesis
  proof (cases "visited (ThreadContext.truncate a1) dst_wire \<noteq> None")
    case False
    with fin show ?thesis by (simp add: route_arc_finish_def)
  next
    case True
    with fin have "bind_backwards fuel ctx net i (visited (ThreadContext.truncate a1)) src_wire dst_wire s = Some (Inr s')"
      by (auto simp: route_arc_finish_def split: option.splits sum.splits)
    from bind_backwards_frame[OF this vis] show ?thesis .
  qed
qed

lemma route_arc_frame:
  assumes ra: "route_arc fuel ctx net i is_mt is_bb (s, t) = Some (Inr (res, s', t'))"
    and h1: "uphill_pips_drive ctx" and h2: "bound_pips_drive ctx s (udata net)"
    and w: "reserved_for_other s (udata net) w" "w \<noteq> getNetinfoSourceWire ctx net"
           "w \<noteq> getNetinfoSinkWire ctx net (users net ! i)" "\<not> net_bound_on s (udata net) w"
  shows "wires s' w = wires s w \<and> arc_route s' n j w = arc_route s n j w"
proof -
  let ?src = "getNetinfoSourceWire ctx net" and ?dst = "getNetinfoSinkWire ctx net (users net ! i)"
  from route_arc_paths[OF ra] consider
    (same) "s' = s"
    | (bwd) t1 where "bwd_loop fuel fuel ctx s net ?src (bwd_init ?dst t) = Some (Inr t1)"
        "route_arc_backwards fuel ctx net i ?src ?dst (s, t1) = Some (Inr (res, s', t'))"
    | (fwd) t1 ad where "bwd_loop fuel fuel ctx s net ?src (bwd_init ?dst t) = Some (Inr t1)"
        "route_arc_forwards fuel ctx net i is_bb ?src ?dst ad (s, t1) = Some (Inr (res, s', t'))"
    by blast
  then show ?thesis
  proof cases
    case same
    then show ?thesis by simp
  next
    case bwd
    from route_arc_backwards_frame[OF bwd h1 h2 w] show ?thesis .
  next
    case fwd
    have "queue t1 = queue (fst (bwd_init ?dst t))"
      using bwd_loop_inv[where P = "\<lambda>x. True" and Q = "\<lambda>p. True", OF fwd(1)] by simp
    then have e: "queue t1 = []" by (simp add: bwd_init_def)
    from route_arc_forwards_frame[OF fwd(2) e w(1,2)] show ?thesis .
  qed
qed

text \<open>
  Claim C6, amended.  During \<^verbatim>\<open>route_arc\<close> for a net \<open>n\<close>, the expansion steps never enqueue a wire
  reserved for another net: in every state of the backwards loop the only such wire that can be
  in the backwards queue is the arc's sink wire, with which the queue is seeded, and in every
  state of the forward loop the only such wire in the priority queue or in the visited map is
  the arc's source wire, with which they are seeded.  Hence, on a consistent device, a call of
  \<^verbatim>\<open>route_arc\<close> that returns leaves the binding and the arc's route entry of every wire reserved
  for another net as they were, the arc's own source and sink wire and the wires already bound
  to \<open>n\<close> (which a merge into existing routing binds again) apart.
\<close>

theorem route_arc_reserved_wires:
  "(\<forall>st. bwd_reachable fuel ctx s net src_wire dst_wire st \<longrightarrow>
       (\<forall>w \<in> set (backwards_queue (fst st)). reserved_for_other s (udata net) w \<longrightarrow> w = dst_wire))
   \<and> (\<forall>a. astar_reachable ctx s net i is_bb src_wire dst_wire ad a \<longrightarrow>
         (\<forall>q \<in> set (queue a). reserved_for_other s (udata net) (qw_wire q) \<longrightarrow> qw_wire q = src_wire)
       \<and> (\<forall>w. visited a w \<noteq> None \<longrightarrow> reserved_for_other s (udata net) w \<longrightarrow> w = src_wire))
   \<and> (uphill_pips_drive ctx \<and> bound_pips_drive ctx s (udata net) \<longrightarrow>
        (\<forall>is_mt t res s' t' w.
            route_arc fuel ctx net i is_mt is_bb (s, t) = Some (Inr (res, s', t'))
            \<and> reserved_for_other s (udata net) w
            \<and> w \<noteq> getNetinfoSourceWire ctx net \<and> w \<noteq> getNetinfoSinkWire ctx net (users net ! i)
            \<and> \<not> net_bound_on s (udata net) w \<longrightarrow>
            wires s' w = wires s w \<and> arc_route s' (udata net) i w = arc_route s (udata net) i w))"
proof (intro conjI allI impI)
  fix st assume "bwd_reachable fuel ctx s net src_wire dst_wire st"
  from bwd_reachable_queue[OF this]
  show "\<forall>w \<in> set (backwards_queue (fst st)). reserved_for_other s (udata net) w \<longrightarrow> w = dst_wire" by blast
next
  fix a assume r: "astar_reachable ctx s net i is_bb src_wire dst_wire ad a"
  from astar_reachable_resv[OF r]
  show "\<forall>q \<in> set (queue a). reserved_for_other s (udata net) (qw_wire q) \<longrightarrow> qw_wire q = src_wire" by blast
  fix w assume "visited a w \<noteq> None" "reserved_for_other s (udata net) w"
  with astar_reachable_resv[OF r] show "w = src_wire" by blast
next
  fix is_mt t res s' t' w
  assume h: "uphill_pips_drive ctx \<and> bound_pips_drive ctx s (udata net)"
    and a: "route_arc fuel ctx net i is_mt is_bb (s, t) = Some (Inr (res, s', t'))
            \<and> reserved_for_other s (udata net) w
            \<and> w \<noteq> getNetinfoSourceWire ctx net \<and> w \<noteq> getNetinfoSinkWire ctx net (users net ! i)
            \<and> \<not> net_bound_on s (udata net) w"
  from h a have r: "wires s' w = wires s w \<and> arc_route s' (udata net) i w = arc_route s (udata net) i w"
    using route_arc_frame[of fuel ctx net i is_mt is_bb s t res s' t' w "udata net" i] by blast
  from r show "wires s' w = wires s w" by blast
  from r show "arc_route s' (udata net) i w = arc_route s (udata net) i w" by blast
qed

lemma ex_ctx_simps:
  "getPipsUphill ex_ctx w = (if w = Some (Suc 0) then [Some 0] else if w = Some 2 then [Some (Suc 0)] else [])"
  "getPipSrcWire ex_ctx p = p"
  "getPipDstWire ex_ctx p = (if p = Some 0 then Some (Suc 0) else if p = Some (Suc 0) then Some 2 else None)"
  "checkPipAvail ex_ctx p = True"
  "getNetinfoSourceWire ex_ctx ex_net = Some 0"
  "getNetinfoSinkWire ex_ctx ex_net (users ex_net ! 0) = Some 2"
  by (simp_all add: ex_ctx_def ex_net_def)

lemma ex_wd_resv_simps:
  "bn_count (bound_nets ex_wd_resv) n = False" "bn_size (bound_nets ex_wd_resv) = 0"
  "unavailable ex_wd_resv = False" "reserved_net ex_wd_resv = 7"
  "fmlookup (bound_nets ex_wd_resv) n = None"
  by (simp_all add: ex_wd_resv_def bn_count_def bn_size_def)

lemma ex_resv_sink_simps:
  "wires ex_resv_sink w = (if w = Some 2 then Some ex_wd_resv else if w = Some (Suc 0) then Some ex_wd
                        else if w = Some 0 then Some ex_wd else None)"
  "nets_at ex_resv_sink 0 = Inr \<lparr>arcs = [ex_arc], net_bb = ex_bb, cx = 0, cy = 0, hpwl = 1\<rparr>"
  by (auto simp: ex_resv_sink_def ex_router_def nets_at_def ex_arc_def)

lemma ex_resv_sink_bwd:
  "bwd_loop fuel4 fuel4 ex_ctx ex_resv_sink ex_net (Some 0) (bwd_init (Some 2) ex_thread)
     = Some (Inr (ex_thread\<lparr>backwards_pip := [Some (Suc 0) \<mapsto> Some (Suc 0), Some 0 \<mapsto> Some 0]\<rparr>))"
  by (simp add: bwd_init_def bwd_cond_def backwards_limit_def bwd_step_def bwd_expand_def bwd_visit_pip_def
        ex_ctx_simps ex_resv_sink_simps ex_wd_simps ex_wd_resv_simps ex_net_simps ex_thread_def Let_def)

lemma ex_thread_simps:
  "processed_sinks ex_thread = {}" "queue ex_thread = []"
  "backwards_pip (ex_thread\<lparr>backwards_pip := bp\<rparr>) = bp"
  by (simp_all add: ex_thread_def)

lemma ex_resv_sink_paths:
  "route_arc fuel4 ex_ctx ex_net 0 False True (ex_resv_sink, ex_thread)
     = route_arc_backwards fuel4 ex_ctx ex_net 0 (Some 0) (Some 2)
         (ex_resv_sink, ex_thread\<lparr>backwards_pip := [Some (Suc 0) \<mapsto> Some (Suc 0), Some 0 \<mapsto> Some 0]\<rparr>)"
  by (simp add: route_arc_def ex_resv_sink_bwd ex_resv_sink_simps arcs_at_def ex_ctx_simps ex_net_simps
        ex_thread_simps Let_def del: bwd_loop.simps)

lemma ex_resv_sink_result:
  "route_arc fuel4 ex_ctx ex_net 0 False True (ex_resv_sink, ex_thread)
     = Some (Inr (ARC_SUCCESS, ex_resv_sink_routed, ex_thread_routed))"
  unfolding ex_resv_sink_paths
  by (simp add: route_arc_backwards_def bind_pip_internal_def update_arc_def
        bn_entry_def arcs_at_def nets_at_def ex_resv_sink_routed_def ex_thread_routed_def
        ex_ctx_simps ex_resv_sink_def ex_router_def ex_wd_def ex_wd_resv_def ex_net_simps ex_thread_def Let_def
        fun_eq_iff)

lemma ex_diamond_ctx_simps:
  "getPipsUphill ex_ctx_diamond w = (if w = Some 3 then [Some 3] else if w = Some 4 then [Some 4]
                            else if w = Some 2 then [Some 5, Some 6] else [])"
  "getPipsDownhill ex_ctx_diamond w = (if w = Some 0 then [Some 3, Some 4] else if w = Some 3 then [Some 5]
                              else if w = Some 4 then [Some 6] else [])"
  "getPipSrcWire ex_ctx_diamond p = (if p = Some 3 \<or> p = Some 4 then Some 0 else if p = Some 5 then Some 3
                            else if p = Some 6 then Some 4 else None)"
  "getPipDstWire ex_ctx_diamond p = (if p = Some 3 then Some 3 else if p = Some 4 then Some 4
                            else if p = Some 5 \<or> p = Some 6 then Some 2 else None)"
  "checkPipAvail ex_ctx_diamond p = True"
  "getPipDelay ex_ctx_diamond p = 100"
  "getWireDelay ex_ctx_diamond w = 50"
  "getDelayEpsilon ex_ctx_diamond = 50"
  "getDelayNS ex_ctx_diamond d = real_of_int d / 1000"
  "estimateDelay ex_ctx_diamond w1 w2 = 0"
  "getNetinfoSourceWire ex_ctx_diamond ex_net = Some 0"
  "getNetinfoSinkWire ex_ctx_diamond ex_net (users ex_net ! 0) = Some 2"
  "rng_seq ex_ctx_diamond k = 0"
  by (simp_all add: ex_ctx_diamond_def ex_ctx_def ex_net_def)

lemma ex_diamond_simps:
  "wires ex_diamond w = (if w = Some 4 then Some ex_wd_resv else if w = Some 3 then Some ex_wd
                         else if w = Some 2 then Some ex_wd else if w = Some 0 then Some ex_wd else None)"
  "nets_at ex_diamond 0 = Inr \<lparr>arcs = [ex_arc], net_bb = ex_bb, cx = 0, cy = 0, hpwl = 1\<rparr>"
  "curr_cong_weight ex_diamond = 1 / 2"
  by (auto simp: ex_diamond_def ex_router_def nets_at_def ex_arc_def)

lemma ex_diamond_uphill: "uphill_pips_drive ex_ctx_diamond"
  by (simp add: uphill_pips_drive_def ex_diamond_ctx_simps)

lemma ex_diamond_bound: "bound_pips_drive ex_ctx_diamond ex_diamond (udata ex_net)"
  by (simp add: bound_pips_drive_def ex_diamond_simps ex_wd_simps ex_wd_resv_simps)

lemma ex_diamond_resv:
  "reserved_for_other ex_diamond (udata ex_net) w = (w = Some 4)"
  by (simp add: reserved_for_other_def ex_diamond_simps ex_wd_simps ex_wd_resv_simps ex_net_simps)

lemma ex_diamond_unbound: "\<not> net_bound_on ex_diamond (udata ex_net) w"
  by (simp add: net_bound_on_def ex_diamond_simps ex_wd_simps ex_wd_resv_simps)

lemma ex_diamond_step:
  "bwd_step fuel4 ex_ctx_diamond ex_diamond ex_net (Some 0) (bwd_init (Some 2) ex_thread)
     = Some (Inr (Continue ex_diamond_round))"
  by (simp add: bwd_init_def bwd_step_def bwd_expand_def bwd_visit_pip_def ex_diamond_round_def
        ex_diamond_ctx_simps ex_diamond_simps ex_wd_simps ex_wd_resv_simps ex_net_simps ex_thread_def Let_def)

lemma ex_diamond_bwd:
  "bwd_loop fuel4 fuel4 ex_ctx_diamond ex_diamond ex_net (Some 0) (bwd_init (Some 2) ex_thread)
     = Some (Inr (ex_thread\<lparr>backwards_pip := [Some 3 \<mapsto> Some 5, Some 0 \<mapsto> Some 3]\<rparr>))"
  by (simp add: bwd_init_def bwd_cond_def backwards_limit_def bwd_step_def bwd_expand_def bwd_visit_pip_def
        ex_diamond_ctx_simps ex_diamond_simps ex_wd_simps ex_wd_resv_simps ex_net_simps ex_thread_def Let_def)

lemma ex_diamond_paths:
  "route_arc fuel4 ex_ctx_diamond ex_net 0 False True (ex_diamond, ex_thread)
     = route_arc_backwards fuel4 ex_ctx_diamond ex_net 0 (Some 0) (Some 2)
         (ex_diamond, ex_thread\<lparr>backwards_pip := [Some 3 \<mapsto> Some 5, Some 0 \<mapsto> Some 3]\<rparr>)"
  by (simp add: route_arc_def ex_diamond_bwd ex_diamond_simps arcs_at_def ex_diamond_ctx_simps ex_net_simps
        ex_thread_simps Let_def del: bwd_loop.simps)

lemma ex_diamond_route:
  "\<exists>s' t'. route_arc fuel4 ex_ctx_diamond ex_net 0 False True (ex_diamond, ex_thread) = Some (Inr (ARC_SUCCESS, s', t'))
      \<and> arc_route s' (udata ex_net) 0 (Some 3) = Some (Some 3)"
  unfolding ex_diamond_paths
  by (simp add: route_arc_backwards_def bind_pip_internal_def update_arc_def
        arc_route_def bn_entry_def arcs_at_def nets_at_def
        ex_diamond_ctx_simps ex_diamond_def ex_router_def ex_wd_simps ex_wd_resv_simps ex_net_simps ex_thread_simps Let_def)

lemma ex_diamond_togo: "get_togo_cost ex_ctx_diamond ex_diamond ex_net 0 w (Some 2) =
                  (if w = Some 0 \<or> w = Some 2 \<or> w = Some 3 \<or> w = Some 4 then Inr (1 / 10) else Inl OutOfRange)"
  by (simp add: get_togo_cost_def ex_diamond_ctx_simps ex_diamond_simps source_uses_def ex_wd_simps ex_wd_resv_simps ex_net_simps Let_def)

lemma ex_diamond_astar:
  "\<exists>a1. astar_body ex_ctx_diamond ex_diamond ex_net 0 False (Some 2) ex_arc
            (astar_init ex_ctx_diamond (Some 0) ex_arc (1 / 10) ex_thread) = Inr a1
        \<and> map qw_wire (queue a1) = [Some 3]"
  by (simp add: astar_init_def astar_cond_def astar_body_def fwd_visit_pip_def
        score_wire_for_arc_def present_wire_cost_def base_cost_def bias_cost_def source_uses_def
        ThreadContext.defs AStar.defs ex_thread_def ex_diamond_togo
        ex_diamond_ctx_simps ex_diamond_simps ex_wd_simps ex_wd_resv_simps ex_net_simps Let_def total_def bn_entry_def wrap32_def)

theorem route_arc_reserved_wires_witness:
  "reserved_for_other ex_diamond (udata ex_net) (Some 4)
   \<and> bwd_reachable fuel4 ex_ctx_diamond ex_diamond ex_net (Some 0) (Some 2) ex_diamond_round
   \<and> backwards_queue (fst ex_diamond_round) = [Some 3]
   \<and> Some 4 \<notin> set (backwards_queue (fst ex_diamond_round))
   \<and> (\<exists>a1. astar_reachable ex_ctx_diamond ex_diamond ex_net 0 False (Some 0) (Some 2) ex_arc a1
          \<and> map qw_wire (queue a1) = [Some 3] \<and> visited a1 (Some 4) = None)
   \<and> uphill_pips_drive ex_ctx_diamond \<and> bound_pips_drive ex_ctx_diamond ex_diamond (udata ex_net)
   \<and> (\<exists>s' t'. route_arc fuel4 ex_ctx_diamond ex_net 0 False True (ex_diamond, ex_thread)
                  = Some (Inr (ARC_SUCCESS, s', t'))
          \<and> arc_route s' (udata ex_net) 0 (Some 3) = Some (Some 3)
          \<and> wires s' (Some 4) = wires ex_diamond (Some 4)
          \<and> arc_route s' (udata ex_net) 0 (Some 4) = arc_route ex_diamond (udata ex_net) 0 (Some 4))"
proof -
  note free = route_arc_reserved_wires[where fuel = fuel4 and ctx = ex_ctx_diamond and s = ex_diamond
      and net = ex_net and src_wire = "Some 0" and dst_wire = "Some 2" and i = 0 and is_bb = False
      and ad = ex_arc]
  note bb = route_arc_reserved_wires[where fuel = fuel4 and ctx = ex_ctx_diamond and s = ex_diamond
      and net = ex_net and src_wire = "Some 0" and dst_wire = "Some 2" and i = 0 and is_bb = True
      and ad = ex_arc]
  have r4: "reserved_for_other ex_diamond (udata ex_net) (Some 4)" by (simp add: ex_diamond_resv)
  have "bwd_reachable fuel4 ex_ctx_diamond ex_diamond ex_net (Some 0) (Some 2) (bwd_init (Some 2) ex_thread)"
    by (rule bwd_start)
  moreover have "bwd_cond (bwd_init (Some 2) ex_thread)"
    by (simp add: bwd_cond_def bwd_init_def backwards_limit_def)
  ultimately have
    "bwd_reachable fuel4 ex_ctx_diamond ex_diamond ex_net (Some 0) (Some 2)
       (case Continue ex_diamond_round of Continue st1 \<Rightarrow> st1 | Break st1 \<Rightarrow> st1)"
    using ex_diamond_step by (rule bwd_round)
  then have A: "bwd_reachable fuel4 ex_ctx_diamond ex_diamond ex_net (Some 0) (Some 2) ex_diamond_round"
    by simp
  have B: "backwards_queue (fst ex_diamond_round) = [Some 3]" by (simp add: ex_diamond_round_def)
  have C: "Some 4 \<notin> set (backwards_queue (fst ex_diamond_round))"
  proof
    assume "Some 4 \<in> set (backwards_queue (fst ex_diamond_round))"
    with free A r4 have "Some (4::nat) = Some 2" by blast
    then show False by simp
  qed
  from ex_diamond_astar obtain a1 where
    b: "astar_body ex_ctx_diamond ex_diamond ex_net 0 False (Some 2) ex_arc
            (astar_init ex_ctx_diamond (Some 0) ex_arc (1 / 10) ex_thread) = Inr a1"
    and q: "map qw_wire (queue a1) = [Some 3]"
    by (elim exE conjE)
  have "astar_reachable ex_ctx_diamond ex_diamond ex_net 0 False (Some 0) (Some 2) ex_arc
          (astar_init ex_ctx_diamond (Some 0) ex_arc (1 / 10) ex_thread)"
    by (rule astar_start) (simp add: ex_thread_simps)
  moreover have "astar_cond False (astar_init ex_ctx_diamond (Some 0) ex_arc (1 / 10) ex_thread)"
    by (simp add: astar_cond_def astar_init_def ThreadContext.defs Let_def)
  ultimately have ar: "astar_reachable ex_ctx_diamond ex_diamond ex_net 0 False (Some 0) (Some 2) ex_arc a1"
    using b by (rule astar_round)
  have v: "visited a1 (Some 4) = None"
  proof (rule ccontr)
    assume "visited a1 (Some 4) \<noteq> None"
    with free ar r4 have "Some (4::nat) = Some 0" by blast
    then show False by simp
  qed
  from ar q v have "astar_reachable ex_ctx_diamond ex_diamond ex_net 0 False (Some 0) (Some 2) ex_arc a1
          \<and> map qw_wire (queue a1) = [Some 3] \<and> visited a1 (Some 4) = None"
    by simp
  then have D: "\<exists>a1. astar_reachable ex_ctx_diamond ex_diamond ex_net 0 False (Some 0) (Some 2) ex_arc a1
          \<and> map qw_wire (queue a1) = [Some 3] \<and> visited a1 (Some 4) = None"
    by (rule exI)
  from ex_diamond_route obtain s' t' where
    ra: "route_arc fuel4 ex_ctx_diamond ex_net 0 False True (ex_diamond, ex_thread) = Some (Inr (ARC_SUCCESS, s', t'))"
    and r3: "arc_route s' (udata ex_net) 0 (Some 3) = Some (Some 3)"
    by (elim exE conjE)
  have n1: "Some (4::nat) \<noteq> getNetinfoSourceWire ex_ctx_diamond ex_net"
    and n2: "Some (4::nat) \<noteq> getNetinfoSinkWire ex_ctx_diamond ex_net (users ex_net ! 0)"
    by (simp_all add: ex_diamond_ctx_simps)
  have n3: "\<not> net_bound_on ex_diamond (udata ex_net) (Some 4)" by (rule ex_diamond_unbound)
  from bb ex_diamond_uphill ex_diamond_bound ra r4 n1 n2 n3
  have fr: "wires s' (Some 4) = wires ex_diamond (Some 4)
          \<and> arc_route s' (udata ex_net) 0 (Some 4) = arc_route ex_diamond (udata ex_net) 0 (Some 4)"
    by blast
  with ra r3 have "route_arc fuel4 ex_ctx_diamond ex_net 0 False True (ex_diamond, ex_thread)
                  = Some (Inr (ARC_SUCCESS, s', t'))
          \<and> arc_route s' (udata ex_net) 0 (Some 3) = Some (Some 3)
          \<and> wires s' (Some 4) = wires ex_diamond (Some 4)
          \<and> arc_route s' (udata ex_net) 0 (Some 4) = arc_route ex_diamond (udata ex_net) 0 (Some 4)"
    by simp
  then have E: "\<exists>s' t'. route_arc fuel4 ex_ctx_diamond ex_net 0 False True (ex_diamond, ex_thread)
                  = Some (Inr (ARC_SUCCESS, s', t'))
          \<and> arc_route s' (udata ex_net) 0 (Some 3) = Some (Some 3)
          \<and> wires s' (Some 4) = wires ex_diamond (Some 4)
          \<and> arc_route s' (udata ex_net) 0 (Some 4) = arc_route ex_diamond (udata ex_net) 0 (Some 4)"
    by (intro exI)
  from r4 A B C D ex_diamond_uphill ex_diamond_bound E show ?thesis by (intro conjI)
qed

text \<open>
  Claim C6 as stated fails for the sink wire of the arc: it is put into the backwards queue
  without a test, and when it is reserved for another net the search still binds it to the arc.
\<close>

theorem route_arc_reserved_sink_counterexample:
  "reserved_for_other ex_resv_sink (udata ex_net) (Some 2)
   \<and> bwd_reachable fuel4 ex_ctx ex_resv_sink ex_net (Some 0) (Some 2) (bwd_init (Some 2) ex_thread)
   \<and> Some 2 \<in> set (backwards_queue (fst (bwd_init (Some 2) ex_thread)))
   \<and> route_arc fuel4 ex_ctx ex_net 0 False True (ex_resv_sink, ex_thread)
        = Some (Inr (ARC_SUCCESS, ex_resv_sink_routed, ex_thread_routed))
   \<and> arc_route ex_resv_sink_routed (udata ex_net) 0 (Some 2) = Some (Some (Suc 0))
   \<and> net_bound_on ex_resv_sink_routed (udata ex_net) (Some 2)"
proof (intro conjI)
  show "reserved_for_other ex_resv_sink (udata ex_net) (Some 2)"
    by (simp add: reserved_for_other_def ex_resv_sink_simps ex_wd_resv_simps ex_net_simps)
  show "bwd_reachable fuel4 ex_ctx ex_resv_sink ex_net (Some 0) (Some 2) (bwd_init (Some 2) ex_thread)"
    by (rule bwd_start)
  show "Some 2 \<in> set (backwards_queue (fst (bwd_init (Some 2) ex_thread)))"
    by (simp add: bwd_init_def)
  show "route_arc fuel4 ex_ctx ex_net 0 False True (ex_resv_sink, ex_thread)
        = Some (Inr (ARC_SUCCESS, ex_resv_sink_routed, ex_thread_routed))"
    by (rule ex_resv_sink_result)
  show "arc_route ex_resv_sink_routed (udata ex_net) 0 (Some 2) = Some (Some (Suc 0))"
    by (simp add: arc_route_def nets_at_def arcs_at_def ex_resv_sink_routed_def ex_router_def ex_net_simps)
  show "net_bound_on ex_resv_sink_routed (udata ex_net) (Some 2)"
    by (simp add: net_bound_on_def ex_resv_sink_routed_def ex_net_simps bn_count_def)
qed

end
